theory Spec2Isabelle
  imports Main "HOL-Library.Log_Nat"
begin

section \<open>Python values: exceptions and floats\<close>

text \<open>
  The exceptions that the modelled code can raise.  A function that can raise returns
  \<open>error + 'a\<close>, with \<open>Inl\<close> for the exception.
\<close>

datatype error =
    ZeroDivisionError
  | OverflowError
  | UnboundLocalError
  | IndexError
  | RuntimeError
  | FileNotFoundError

text \<open>
  A Python \<open>float\<close> is an IEEE 754 binary64 value.  The finite ones are rationals; the two
  zeros are identified (Python's \<open>==\<close> identifies them as well).
\<close>

datatype pyfloat = Fin rat | PInf | NInf | NaN

text \<open>\<open>ilog2 r\<close> is the binary exponent of a positive rational: \<open>2^e \<le> r < 2^(e+1)\<close>.\<close>

definition ilog2 :: "rat \<Rightarrow> int" where
  "ilog2 r =
     (let (a, b) = quotient_of r; d = bitlen a - bitlen b
      in if 2 powi d \<le> r then d else d - 1)"

text \<open>Rounding to the nearest integer, ties to the even one.\<close>

definition rne :: "rat \<Rightarrow> int" where
  "rne x =
     (let f = \<lfloor>x\<rfloor>; d = x - of_int f
      in if d < 1 / 2 then f
         else if 1 / 2 < d then f + 1
         else if even f then f else f + 1)"

text \<open>
  Rounding a rational to the nearest value with \<open>p\<close> significant bits and least
  exponent \<open>emin\<close>.  \<open>ulp\<close> is the spacing of these values around \<open>r\<close>; below
  \<open>2^emin\<close> it stays that of the subnormal numbers.
\<close>

definition ulp :: "nat \<Rightarrow> int \<Rightarrow> rat \<Rightarrow> rat" where
  "ulp p emin r = 2 powi (max (ilog2 \<bar>r\<bar>) emin - (int p - 1))"

definition round_nearest :: "nat \<Rightarrow> int \<Rightarrow> rat \<Rightarrow> rat" where
  "round_nearest p emin r =
     (if r = 0 then 0
      else sgn r * (of_int (rne (\<bar>r\<bar> / ulp p emin r)) * ulp p emin r))"

definition fl :: "nat \<Rightarrow> int \<Rightarrow> int \<Rightarrow> rat \<Rightarrow> pyfloat" where
  "fl p emin emax r =
     (let v = round_nearest p emin r
      in if 2 powi (emax + 1) \<le> \<bar>v\<bar> then (if 0 < v then PInf else NInf) else Fin v)"

definition binary64 :: "rat \<Rightarrow> pyfloat" where
  "binary64 = fl 53 (- 1022) 1023"

definition binary32 :: "rat \<Rightarrow> pyfloat" where
  "binary32 = fl 24 (- 126) 127"

text \<open>Python's \<open>a // b\<close> and \<open>a / b\<close> on integers, \<open>x * y\<close> on floats, \<open>x <= y\<close>.\<close>

definition int_floordiv :: "int \<Rightarrow> int \<Rightarrow> error + int" where
  "int_floordiv a b = (if b = 0 then Inl ZeroDivisionError else Inr (a div b))"

definition int_truediv :: "int \<Rightarrow> int \<Rightarrow> error + pyfloat" where
  "int_truediv a b =
     (if b = 0 then Inl ZeroDivisionError
      else case binary64 (of_int a / of_int b) of
             Fin v \<Rightarrow> Inr (Fin v)
           | _ \<Rightarrow> Inl OverflowError)"

fun float_mul :: "pyfloat \<Rightarrow> pyfloat \<Rightarrow> pyfloat" where
  "float_mul NaN _ = NaN"
| "float_mul _ NaN = NaN"
| "float_mul (Fin a) (Fin b) = binary64 (a * b)"
| "float_mul (Fin a) PInf = (if a = 0 then NaN else if 0 < a then PInf else NInf)"
| "float_mul (Fin a) NInf = (if a = 0 then NaN else if 0 < a then NInf else PInf)"
| "float_mul PInf (Fin b) = (if b = 0 then NaN else if 0 < b then PInf else NInf)"
| "float_mul NInf (Fin b) = (if b = 0 then NaN else if 0 < b then NInf else PInf)"
| "float_mul PInf PInf = PInf"
| "float_mul PInf NInf = NInf"
| "float_mul NInf PInf = NInf"
| "float_mul NInf NInf = PInf"

fun float_le :: "pyfloat \<Rightarrow> pyfloat \<Rightarrow> bool" where
  "float_le NaN _ = False"
| "float_le _ NaN = False"
| "float_le NInf _ = True"
| "float_le _ PInf = True"
| "float_le (Fin a) (Fin b) = (a \<le> b)"
| "float_le _ _ = False"

text \<open>
  \<open>round(x, 2)\<close>: infinities and NaN round to themselves; a finite value is rounded to
  two decimals, ties to even, on its exact value, and the decimal is read back as the
  nearest float.
\<close>

definition round2 :: "pyfloat \<Rightarrow> error + pyfloat" where
  "round2 x =
     (case x of
        Fin v \<Rightarrow> (case binary64 (of_int (rne (v * 100)) / 100) of
                    Fin w \<Rightarrow> Inr (Fin w)
                  | _ \<Rightarrow> Inl OverflowError)
      | _ \<Rightarrow> Inr x)"

section \<open>Metric functions\<close>

text \<open>
  \<^verbatim>\<open>
  def percentage(batch_size: int, max_len: int, current: int):
      batched_max = max_len // batch_size
      return round(current / batched_max * 100, 2)
  \<close>
\<close>

definition percentage :: "int \<Rightarrow> int \<Rightarrow> int \<Rightarrow> error + pyfloat" where
  "percentage batch_size max_len current =
     (case int_floordiv max_len batch_size of
        Inl e \<Rightarrow> Inl e
      | Inr batched_max \<Rightarrow>
          (case int_truediv current batched_max of
             Inl e \<Rightarrow> Inl e
           | Inr q \<Rightarrow> round2 (float_mul q (Fin 100))))"

subsection \<open>Tensors\<close>

text \<open>
  A tensor is the nested list of its elements, outermost dimension first; a well-formed
  tensor is rectangular.  Scores are compared only, so any linear order stands for the
  finite float values (NaN scores are outside the model).  \<open>argmax\<close> returns the index
  of the first maximal value, and raises on an empty reduction dimension.
\<close>

primrec argmax_from :: "'a::linorder \<Rightarrow> nat \<Rightarrow> nat \<Rightarrow> 'a list \<Rightarrow> nat" where
  "argmax_from best k i [] = k"
| "argmax_from best k i (x # xs) =
     (if best < x then argmax_from x i (Suc i) xs else argmax_from best k (Suc i) xs)"

definition argmax_idx :: "'a::linorder list \<Rightarrow> nat" where
  "argmax_idx xs = (case xs of [] \<Rightarrow> 0 | x # ys \<Rightarrow> argmax_from x 0 1 ys)"

definition argmax :: "'a::linorder list \<Rightarrow> error + nat" where
  "argmax xs = (if xs = [] then Inl IndexError else Inr (argmax_idx xs))"

primrec sequence :: "(error + 'a) list \<Rightarrow> error + 'a list" where
  "sequence [] = Inr []"
| "sequence (r # rs) =
     (case r of
        Inl e \<Rightarrow> Inl e
      | Inr x \<Rightarrow> (case sequence rs of Inl e \<Rightarrow> Inl e | Inr xs \<Rightarrow> Inr (x # xs)))"

text \<open>\<open>t.argmax(1)\<close> on a 2-D tensor and \<open>t.argmax(-1)\<close> on a 3-D tensor.\<close>

definition argmax_dim1 :: "'a::linorder list list \<Rightarrow> error + nat list" where
  "argmax_dim1 t = sequence (map argmax t)"

definition argmax_last :: "'a::linorder list list list \<Rightarrow> error + nat list list" where
  "argmax_last t = sequence (map argmax_dim1 t)"

text \<open>
  \<open>a == b\<close> on 1-D tensors: elementwise, a tensor of one element being broadcast, any
  other pair of unequal lengths raising.  \<open>.sum()\<close> of the outcome counts the \<open>True\<close>s.
\<close>

definition tensor_eq :: "'a list \<Rightarrow> 'a list \<Rightarrow> error + bool list" where
  "tensor_eq a b =
     (if length a = length b then Inr (map2 (=) a b)
      else if length a = 1 then Inr (map (\<lambda>y. hd a = y) b)
      else if length b = 1 then Inr (map (\<lambda>x. x = hd b) a)
      else Inl RuntimeError)"

definition tensor_sum :: "bool list \<Rightarrow> int" where
  "tensor_sum bs = int (length (filter id bs))"

text \<open>
  Broadcasting of one dimension: two sizes fit when they are equal or one of them is
  \<open>1\<close>, and the dimension of size \<open>1\<close> is then repeated.  \<open>expand2 n s t\<close> is the 2-D tensor
  \<open>t\<close> brought to the shape \<open>(n, s)\<close> that way.  A tensor without rows does not record the
  length of its rows, which is then taken to fit.
\<close>

definition broadcastable :: "nat \<Rightarrow> nat \<Rightarrow> bool" where
  "broadcastable a b \<longleftrightarrow> a = b \<or> a = 1 \<or> b = 1"

definition broadcast_size :: "nat \<Rightarrow> nat \<Rightarrow> nat" where
  "broadcast_size a b = (if a = 1 then b else a)"

definition expand_dim :: "nat \<Rightarrow> 'a list \<Rightarrow> 'a list" where
  "expand_dim n xs = (if length xs = n then xs else replicate n (hd xs))"

definition size0 :: "'a list \<Rightarrow> nat" where
  "size0 t = length t"

definition size1 :: "'a list list \<Rightarrow> nat" where
  "size1 t = (case t of [] \<Rightarrow> 0 | row # _ \<Rightarrow> length row)"

definition expand2 :: "nat \<Rightarrow> nat \<Rightarrow> 'a list list \<Rightarrow> 'a list list" where
  "expand2 n s t = expand_dim n (map (expand_dim s) t)"

text \<open>
  \<open>~mask\<close> and \<open>t.masked_select(mask)\<close> on 2-D tensors: tensor and mask are broadcast to
  their common shape, and the elements at the positions where the mask holds are
  returned row by row; shapes that cannot be broadcast raise.
\<close>

definition logical_not :: "bool list list \<Rightarrow> bool list list" where
  "logical_not msk = map (map Not) msk"

definition select_row :: "'a list \<Rightarrow> bool list \<Rightarrow> 'a list" where
  "select_row row mrow = map fst (filter snd (zip row mrow))"

definition masked_select :: "'a list list \<Rightarrow> bool list list \<Rightarrow> error + 'a list" where
  "masked_select t msk =
     (let n = broadcast_size (size0 t) (size0 msk);
          s = broadcast_size (size1 t) (size1 msk)
      in if broadcastable (size0 t) (size0 msk)
            \<and> (t = [] \<or> msk = [] \<or> broadcastable (size1 t) (size1 msk))
         then Inr (concat (map2 select_row (expand2 n s t) (expand2 n s msk)))
         else Inl RuntimeError)"

text \<open>
  \<open>s / n\<close> for a 0-dimensional integer tensor \<open>s\<close> and a Python integer \<open>n\<close> is torch's
  true division in the default dtype: both operands become binary32 values, which are
  divided as IEEE 754 prescribes (\<open>0 / 0\<close> is NaN, nothing raises).  \<open>float(...)\<close> of the
  outcome is exact, a binary32 value being a binary64 value.
\<close>

fun float32_div :: "pyfloat \<Rightarrow> pyfloat \<Rightarrow> pyfloat" where
  "float32_div NaN _ = NaN"
| "float32_div _ NaN = NaN"
| "float32_div (Fin a) (Fin b) =
     (if b = 0 then (if a = 0 then NaN else if 0 < a then PInf else NInf)
      else binary32 (a / b))"
| "float32_div (Fin a) _ = Fin 0"
| "float32_div PInf (Fin b) = (if 0 \<le> b then PInf else NInf)"
| "float32_div NInf (Fin b) = (if 0 \<le> b then NInf else PInf)"
| "float32_div _ _ = NaN"

definition tensor_truediv :: "int \<Rightarrow> int \<Rightarrow> pyfloat" where
  "tensor_truediv s n = float32_div (binary32 (of_int s)) (binary32 (of_int n))"

text \<open>
  \<^verbatim>\<open>
  def nsp_accuracy(result: torch.Tensor, target: torch.Tensor):
      s = (result.argmax(1) == target.argmax(1)).sum()
      return round(float(s / result.size(0)), 2)
  \<close>
\<close>

definition nsp_accuracy :: "'a::linorder list list \<Rightarrow> 'a list list \<Rightarrow> error + pyfloat" where
  "nsp_accuracy result target =
     (case argmax_dim1 result of
        Inl e \<Rightarrow> Inl e
      | Inr r \<Rightarrow>
          (case argmax_dim1 target of
             Inl e \<Rightarrow> Inl e
           | Inr t \<Rightarrow>
               (case tensor_eq r t of
                  Inl e \<Rightarrow> Inl e
                | Inr eqs \<Rightarrow>
                    round2 (tensor_truediv (tensor_sum eqs) (int (size0 result))))))"

text \<open>
  \<^verbatim>\<open>
  def token_accuracy(result: torch.Tensor, target: torch.Tensor, mask: torch.Tensor):
      r = result.argmax(-1).masked_select(~mask)
      t = target.masked_select(~mask)
      s = (r == t).sum()
      return round(float(s / (result.size(0) * result.size(1))), 2)
  \<close>
\<close>

definition token_accuracy ::
  "'a::linorder list list list \<Rightarrow> int list list \<Rightarrow> bool list list \<Rightarrow> error + pyfloat" where
  "token_accuracy result target msk =
     (case argmax_last result of
        Inl e \<Rightarrow> Inl e
      | Inr am \<Rightarrow>
          (case masked_select (map (map int) am) (logical_not msk) of
             Inl e \<Rightarrow> Inl e
           | Inr r \<Rightarrow>
               (case masked_select target (logical_not msk) of
                  Inl e \<Rightarrow> Inl e
                | Inr t \<Rightarrow>
                    (case tensor_eq r t of
                       Inl e \<Rightarrow> Inl e
                     | Inr eqs \<Rightarrow>
                         round2 (tensor_truediv (tensor_sum eqs)
                                   (int (size0 result) * int (size1 result)))))))"

text \<open>
  The specification's description of \<open>percentage\<close>, in its own words:
  \<open>round(current_batch_index / (dataset_size // batch_size) * 100, 2)\<close>.
\<close>

definition percentage_spec :: "int \<Rightarrow> int \<Rightarrow> int \<Rightarrow> error + pyfloat" where
  "percentage_spec batch_size dataset_size current_batch_index =
     (case int_truediv current_batch_index (dataset_size div batch_size) of
        Inl e \<Rightarrow> Inl e
      | Inr q \<Rightarrow> round2 (float_mul q (Fin 100)))"

text \<open>
  The specification's descriptions of the two accuracies count rows and positions: the
  rows whose top-scoring class index agrees between prediction and target, and the
  positions of the batch by sequence grid that are not ignored and whose top-scoring
  predicted class is the target class.
\<close>

definition pair_matches :: "'a::linorder list list \<Rightarrow> 'a list list \<Rightarrow> nat" where
  "pair_matches predictions targets =
     length (filter (\<lambda>i. argmax_idx (predictions ! i) = argmax_idx (targets ! i))
               [0..<length predictions])"

definition token_matches ::
  "'a::linorder list list list \<Rightarrow> int list list \<Rightarrow> bool list list \<Rightarrow> nat" where
  "token_matches predictions targets ignore_mask =
     length (filter (\<lambda>(i, j). \<not> ignore_mask ! i ! j
                               \<and> int (argmax_idx (predictions ! i ! j)) = targets ! i ! j)
               (List.product [0..<size0 predictions] [0..<size1 predictions]))"

text \<open>A well-formed 2-D tensor of shape \<open>(b, s)\<close>.\<close>

definition has_shape :: "nat \<Rightarrow> nat \<Rightarrow> 'a list list \<Rightarrow> bool" where
  "has_shape b s t \<longleftrightarrow> length t = b \<and> (\<forall>row \<in> set t. length row = s)"

section \<open>The trainer\<close>

subsection \<open>State, collaborators and effects\<close>

text \<open>
  The fields of \<open>BertTrainer\<close>.  \<open>model\<close> and \<open>optimizer\<close> stand for the state
  dictionaries of \<open>self.model\<close> and \<open>self.optimizer\<close>; \<open>checkpoint_dir\<close> is a path or
  \<open>None\<close>; \<open>ds_len\<close>, \<open>batched_len\<close>, \<open>print_every\<close> and \<open>accuracy_every\<close> are the fields
  \<open>_ds_len\<close>, \<open>_batched_len\<close>, \<open>_print_every\<close> and \<open>_accuracy_every\<close>.
\<close>

record ('m, 'o) trainer =
  model :: 'm
  optimizer :: 'o
  batch_size :: int
  checkpoint_dir :: "string option"
  epochs :: int
  current_epoch :: int
  ds_len :: int
  batched_len :: int
  print_every :: int
  accuracy_every :: int

text \<open>One batch of the loader: \<open>inp, mask, token_mask, mask_target, nsp_target\<close>.\<close>

record 'x batch =
  inp :: 'x
  attention_mask :: 'x
  token_mask :: "bool list list"
  mask_target :: "int list list"
  nsp_target :: "rat list list"

text \<open>
  What the trainer calls but does not define: the model's forward pass, the two loss
  criteria, the arithmetic of loss tensors (\<open>+\<close>, \<open>/\<close> by an integer, and the integer
  \<open>0\<close> the running sums start from), the gradient step (\<open>zero_grad\<close>, \<open>backward\<close>,
  \<open>step\<close>) and the batches that iterating the shuffling loader yields in each epoch.
  Nothing is assumed of them; their own failures are not modelled.
\<close>

record ('m, 'o, 'x, 'l) collaborators =
  model_forward :: "'m \<Rightarrow> 'x \<Rightarrow> 'x \<Rightarrow> rat list list list \<times> rat list list"
  ml_criterion :: "rat list list list \<Rightarrow> int list list \<Rightarrow> 'l"
  criterion :: "rat list list \<Rightarrow> rat list list \<Rightarrow> 'l"
  loss_add :: "'l \<Rightarrow> 'l \<Rightarrow> 'l"
  loss_div :: "'l \<Rightarrow> int \<Rightarrow> 'l"
  loss_zero :: 'l
  optimizer_step :: "'m \<times> 'o \<Rightarrow> 'x batch \<Rightarrow> 'm \<times> 'o"
  loader :: "int \<Rightarrow> 'x batch list"

text \<open>
  A checkpoint file holds the dictionary
  \<open>{'epoch', 'model_state_dict', 'optimizer_state_dict', 'loss'}\<close>.
\<close>

record ('m, 'o, 'l) checkpoint =
  ck_epoch :: int
  model_state_dict :: 'm
  optimizer_state_dict :: 'o
  ck_loss :: 'l

text \<open>
  What the trainer writes: the progress line (without its wall-clock prefix), the
  scalars given to the summary writer with their global step, and the other prints.
\<close>

record 'l progress_line =
  line_epoch :: int
  line_index :: int
  line_total :: int
  line_passed :: pyfloat
  line_nsp_loss :: 'l
  line_mlm_loss :: 'l
  line_accuracy :: "(pyfloat \<times> pyfloat) option"

datatype 'l event =
    Begin_epoch int
  | Progress "'l progress_line"
  | Scalar_loss string 'l int
  | Scalar_accuracy string pyfloat int
  | Model_saved string
  | Restoring string
  | Restored

text \<open>The method calls that \<open>__call__\<close> makes, recorded for stating its properties.\<close>

datatype 'l call = Train_call int | Save_call int int 'l

text \<open>
  The world outside the trainer: the files of the checkpoint storage by path, what was
  printed and logged, and the record of calls.
\<close>

record ('m, 'o, 'l) world =
  files :: "string \<rightharpoonup> ('m, 'o, 'l) checkpoint"
  console :: "'l event list"
  calls :: "'l call list"

text \<open>The local variables of \<open>train\<close>; \<open>loss\<close> is unbound until the first batch.\<close>

record 'l locals =
  average_nsp_loss :: 'l
  average_mlm_loss :: 'l
  loss_var :: "'l option"

subsection \<open>Formatting\<close>

fun show_nat :: "nat \<Rightarrow> string" where
  "show_nat n =
     (if n < 10 then [''0123456789'' ! n]
      else show_nat (n div 10) @ [''0123456789'' ! (n mod 10)])"

definition show_int :: "int \<Rightarrow> string" where
  "show_int i = (if i < 0 then ''-'' @ show_nat (nat (- i)) else show_nat (nat i))"

definition joinpath :: "string \<Rightarrow> string \<Rightarrow> string" where
  "joinpath dir name = dir @ ''/'' @ name"

text \<open>\<open>f"bert_epoch{epoch}_step{step}_{unixtime:.0f}.pt"\<close>, the time already rounded.\<close>

definition checkpoint_name :: "int \<Rightarrow> int \<Rightarrow> int \<Rightarrow> string" where
  "checkpoint_name epoch step unixtime =
     ''bert_epoch'' @ show_int epoch @ ''_step'' @ show_int step @ ''_'' @ show_int unixtime @ ''.pt''"

subsection \<open>One epoch\<close>

text \<open>
  \<open>tm = token_mask.unsqueeze(-1).expand_as(token)\<close>: the mask of shape \<open>(b, s)\<close> is
  expanded to the first two dimensions of \<open>token\<close>, a dimension of size \<open>1\<close> being
  repeated and any other mismatch raising (the new last dimension has size \<open>1\<close> and
  always expands).  \<open>token.masked_fill(tm, 0)\<close>: the score vector of every flagged
  position becomes zero.
\<close>

definition expanded_mask :: "bool list list \<Rightarrow> 'a list list \<Rightarrow> bool list list" where
  "expanded_mask tm token = expand2 (size0 token) (size1 token) tm"

definition expand_as :: "bool list list \<Rightarrow> 'a list list \<Rightarrow> error + bool list list" where
  "expand_as tm token =
     (if (size0 tm = size0 token \<or> size0 tm = 1)
         \<and> (tm = [] \<or> token = [] \<or> size1 tm = size1 token \<or> size1 tm = 1)
      then Inr (expanded_mask tm token)
      else Inl RuntimeError)"

definition masked_fill :: "rat list list list \<Rightarrow> bool list list \<Rightarrow> rat list list list" where
  "masked_fill token tm =
     map2 (\<lambda>row mrow. map2 (\<lambda>scores m. if m then map (\<lambda>_. 0) scores else scores) row mrow)
       token tm"

text \<open>The outputs of the model for a batch, the token scores already filled.\<close>

definition forward ::
  "('m, 'o, 'x, 'l) collaborators \<Rightarrow> 'm \<Rightarrow> 'x batch \<Rightarrow> rat list list list \<times> rat list list" where
  "forward c m v =
     (let (token, nsp) = model_forward c m (inp v) (attention_mask v)
      in (masked_fill token (expanded_mask (token_mask v) token), nsp))"

definition loss_token_of :: "('m, 'o, 'x, 'l) collaborators \<Rightarrow> 'm \<Rightarrow> 'x batch \<Rightarrow> 'l" where
  "loss_token_of c m v = ml_criterion c (map transpose (fst (forward c m v))) (mask_target v)"

definition loss_nsp_of :: "('m, 'o, 'x, 'l) collaborators \<Rightarrow> 'm \<Rightarrow> 'x batch \<Rightarrow> 'l" where
  "loss_nsp_of c m v = criterion c (snd (forward c m v)) (nsp_target v)"

text \<open>
  The accuracies of a progress tick: computed only when the index is a multiple of
  \<open>_accuracy_every\<close>, the \<open>%\<close> raising for a zero cadence.
\<close>

definition tick_accuracy ::
  "int \<Rightarrow> int \<Rightarrow> rat list list list \<Rightarrow> rat list list \<Rightarrow> 'x batch
     \<Rightarrow> error + (pyfloat \<times> pyfloat) option" where
  "tick_accuracy every index token nsp v =
     (if every = 0 then Inl ZeroDivisionError
      else if index mod every = 0 then
        (case nsp_accuracy nsp (nsp_target v) of
           Inl e \<Rightarrow> Inl e
         | Inr nsp_acc \<Rightarrow>
             (case token_accuracy token (mask_target v) (token_mask v) of
                Inl e \<Rightarrow> Inl e
              | Inr token_acc \<Rightarrow> Inr (Some (nsp_acc, token_acc))))
      else Inr None)"

definition accuracy_scalars :: "(pyfloat \<times> pyfloat) option \<Rightarrow> int \<Rightarrow> 'l event list" where
  "accuracy_scalars acc global_step =
     (case acc of
        None \<Rightarrow> []
      | Some (nsp_acc, token_acc) \<Rightarrow>
          [Scalar_accuracy ''NSP train accuracy'' nsp_acc global_step,
           Scalar_accuracy ''Token train accuracy'' token_acc global_step])"

text \<open>
  The body of the loop of \<open>train\<close> for the batch \<open>value\<close> with 1-based \<open>index\<close>;
  \<open>nb\<close> is \<open>len(self.loader)\<close>.
\<close>

definition train_step ::
  "('m, 'o, 'x, 'l) collaborators \<Rightarrow> int \<Rightarrow> int \<Rightarrow> int \<Rightarrow> 'x batch
     \<Rightarrow> ('m, 'o) trainer \<times> ('m, 'o, 'l) world \<times> 'l locals
     \<Rightarrow> error + ('m, 'o) trainer \<times> ('m, 'o, 'l) world \<times> 'l locals" where
  "train_step c epoch nb index v s =
     (case s of (st, w, loc) \<Rightarrow>
        let (token0, nsp) = model_forward c (model st) (inp v) (attention_mask v)
        in (case expand_as (token_mask v) token0 of
              Inl e \<Rightarrow> Inl e
            | Inr tm \<Rightarrow>
                let token = masked_fill token0 tm;
                    loss_token = ml_criterion c (map transpose token) (mask_target v);
                    loss_nsp = criterion c nsp (nsp_target v);
                    loss = loss_add c loss_token loss_nsp;
                    avg_nsp = loss_add c (average_nsp_loss loc) loss_nsp;
                    avg_mlm = loss_add c (average_mlm_loss loc) loss_token;
                    (m', o') = optimizer_step c (model st, optimizer st) v;
                    st' = st\<lparr>model := m', optimizer := o'\<rparr>
                in if print_every st' = 0 then Inl ZeroDivisionError
                   else if index mod print_every st' \<noteq> 0 then
                     Inr (st', w, \<lparr>average_nsp_loss = avg_nsp, average_mlm_loss = avg_mlm,
                                   loss_var = Some loss\<rparr>)
                   else
                     (case percentage (batch_size st') (ds_len st') index of
                        Inl e \<Rightarrow> Inl e
                      | Inr passed \<Rightarrow>
                          let global_step = epoch * nb + index;
                              print_nsp_loss = loss_div c avg_nsp (print_every st');
                              print_mlm_loss = loss_div c avg_mlm (print_every st')
                          in (case tick_accuracy (accuracy_every st') index token nsp v of
                                Inl e \<Rightarrow> Inl e
                              | Inr acc \<Rightarrow>
                                  Inr (st',
                                       w\<lparr>console := console w
                                            @ accuracy_scalars acc global_step
                                            @ [Progress \<lparr>line_epoch = epoch + 1, line_index = index,
                                                         line_total = batched_len st',
                                                         line_passed = passed,
                                                         line_nsp_loss = print_nsp_loss,
                                                         line_mlm_loss = print_mlm_loss,
                                                         line_accuracy = acc\<rparr>,
                                               Scalar_loss ''NSP loss'' print_nsp_loss global_step,
                                               Scalar_loss ''MLM loss'' print_mlm_loss global_step]\<rparr>,
                                       \<lparr>average_nsp_loss = loss_zero c,
                                        average_mlm_loss = loss_zero c,
                                        loss_var = Some loss\<rparr>)))))"

text \<open>\<open>for i, value in enumerate(self.loader): index = i + 1; ...\<close>\<close>

fun train_loop ::
  "('m, 'o, 'x, 'l) collaborators \<Rightarrow> int \<Rightarrow> int \<Rightarrow> nat \<Rightarrow> 'x batch list
     \<Rightarrow> ('m, 'o) trainer \<times> ('m, 'o, 'l) world \<times> 'l locals
     \<Rightarrow> error + ('m, 'o) trainer \<times> ('m, 'o, 'l) world \<times> 'l locals" where
  "train_loop c epoch nb i [] s = Inr s"
| "train_loop c epoch nb i (v # vs) s =
     (case train_step c epoch nb (int i + 1) v s of
        Inl e \<Rightarrow> Inl e
      | Inr s' \<Rightarrow> train_loop c epoch nb (Suc i) vs s')"

text \<open>
  \<open>train(epoch)\<close>.  The length of the loader is the number of batches it yields.  The
  final \<open>return loss\<close> raises when no batch has bound \<open>loss\<close>.
\<close>

definition train ::
  "('m, 'o, 'x, 'l) collaborators \<Rightarrow> int \<Rightarrow> ('m, 'o) trainer \<times> ('m, 'o, 'l) world
     \<Rightarrow> error + 'l \<times> ('m, 'o) trainer \<times> ('m, 'o, 'l) world" where
  "train c epoch s =
     (case s of (st, w) \<Rightarrow>
        (case train_loop c epoch (int (length (loader c epoch))) 0 (loader c epoch)
                (st, w\<lparr>console := console w @ [Begin_epoch epoch]\<rparr>,
                 \<lparr>average_nsp_loss = loss_zero c, average_mlm_loss = loss_zero c,
                  loss_var = None\<rparr>) of
           Inl e \<Rightarrow> Inl e
         | Inr (st', w', loc) \<Rightarrow>
             (case loss_var loc of
                None \<Rightarrow> Inl UnboundLocalError
              | Some loss \<Rightarrow> Inr (loss, st', w'))))"

subsection \<open>Checkpoints and the run\<close>

text \<open>
  \<open>save_checkpoint(epoch, step, loss)\<close>, at the time \<open>unixtime\<close>.  The directory is
  taken to exist and to be writable; \<open>torch.save\<close> creates the file or replaces it.
\<close>

definition save_checkpoint ::
  "int \<Rightarrow> int \<Rightarrow> int \<Rightarrow> 'l \<Rightarrow> ('m, 'o) trainer \<times> ('m, 'o, 'l) world
     \<Rightarrow> ('m, 'o) trainer \<times> ('m, 'o, 'l) world" where
  "save_checkpoint unixtime epoch step loss s =
     (case s of (st, w) \<Rightarrow>
        (case checkpoint_dir st of
           None \<Rightarrow> (st, w)
         | Some dir \<Rightarrow>
             let name = checkpoint_name epoch step unixtime
             in (st,
                 w\<lparr>files := (files w)(joinpath dir name \<mapsto>
                               \<lparr>ck_epoch = epoch, model_state_dict = model st,
                                optimizer_state_dict = optimizer st, ck_loss = loss\<rparr>),
                   console := console w @ [Model_saved name]\<rparr>)))"

text \<open>
  \<open>load_checkpoint(path)\<close>.  A missing file raises; a file for another model shape is
  not modelled.
\<close>

definition load_checkpoint ::
  "string \<Rightarrow> ('m, 'o) trainer \<times> ('m, 'o, 'l) world
     \<Rightarrow> error + ('m, 'o) trainer \<times> ('m, 'o, 'l) world" where
  "load_checkpoint path s =
     (case s of (st, w) \<Rightarrow>
        (case files w path of
           None \<Rightarrow> Inl FileNotFoundError
         | Some ck \<Rightarrow>
             Inr (st\<lparr>current_epoch := ck_epoch ck, model := model_state_dict ck,
                     optimizer := optimizer_state_dict ck\<rparr>,
                  w\<lparr>console := console w @ [Restoring path, Restored]\<rparr>)))"

text \<open>
  \<^verbatim>\<open>
  def __call__(self):
      for self.current_epoch in range(self.current_epoch, self.epochs):
          loss = self.train(self.current_epoch)
          self.save_checkpoint(self.current_epoch, step=-1, loss=loss)
  \<close>
  The range is fixed when the loop starts; \<open>clock e\<close> is the time at the save of epoch
  \<open>e\<close>.
\<close>

fun run_epochs ::
  "('m, 'o, 'x, 'l) collaborators \<Rightarrow> (int \<Rightarrow> int) \<Rightarrow> int list
     \<Rightarrow> ('m, 'o) trainer \<times> ('m, 'o, 'l) world
     \<Rightarrow> error + ('m, 'o) trainer \<times> ('m, 'o, 'l) world" where
  "run_epochs c clock [] s = Inr s"
| "run_epochs c clock (e # es) s =
     (case s of (st, w) \<Rightarrow>
        let st1 = st\<lparr>current_epoch := e\<rparr>;
            w1 = w\<lparr>calls := calls w @ [Train_call (current_epoch st1)]\<rparr>
        in (case train c (current_epoch st1) (st1, w1) of
              Inl err \<Rightarrow> Inl err
            | Inr (loss, st2, w2) \<Rightarrow>
                let w3 = w2\<lparr>calls := calls w2 @ [Save_call (current_epoch st2) (- 1) loss]\<rparr>
                in run_epochs c clock es
                     (save_checkpoint (clock e) (current_epoch st2) (- 1) loss (st2, w3))))"

definition run ::
  "('m, 'o, 'x, 'l) collaborators \<Rightarrow> (int \<Rightarrow> int) \<Rightarrow> ('m, 'o) trainer \<times> ('m, 'o, 'l) world
     \<Rightarrow> error + ('m, 'o) trainer \<times> ('m, 'o, 'l) world" where
  "run c clock s =
     (case s of (st, w) \<Rightarrow> run_epochs c clock [current_epoch st..epochs st - 1] s)"

subsection \<open>Quantities the properties of an epoch speak of\<close>

text \<open>
  The model and optimizer state after the gradient steps of some batches, and the two
  losses of every batch of an epoch, each computed in the state its batch meets.
\<close>

definition params_after ::
  "('m, 'o, 'x, 'l) collaborators \<Rightarrow> 'm \<times> 'o \<Rightarrow> 'x batch list \<Rightarrow> 'm \<times> 'o" where
  "params_after c p vs = foldl (optimizer_step c) p vs"

definition nsp_losses ::
  "('m, 'o, 'x, 'l) collaborators \<Rightarrow> 'm \<times> 'o \<Rightarrow> 'x batch list \<Rightarrow> 'l list" where
  "nsp_losses c p vs =
     map (\<lambda>j. loss_nsp_of c (fst (params_after c p (take j vs))) (vs ! j)) [0..<length vs]"

definition mlm_losses ::
  "('m, 'o, 'x, 'l) collaborators \<Rightarrow> 'm \<times> 'o \<Rightarrow> 'x batch list \<Rightarrow> 'l list" where
  "mlm_losses c p vs =
     map (\<lambda>j. loss_token_of c (fst (params_after c p (take j vs))) (vs ! j)) [0..<length vs]"

text \<open>
  The sum, accumulated from zero in batch order, of the \<open>k\<close> losses up to batch \<open>j\<close>;
  the batch indices at which a progress tick is due; and the parts of the output that
  the progress ticks make up.
\<close>

definition window_sum ::
  "('m, 'o, 'x, 'l) collaborators \<Rightarrow> nat \<Rightarrow> 'l list \<Rightarrow> nat \<Rightarrow> 'l" where
  "window_sum c k ls j = foldl (loss_add c) (loss_zero c) (drop (j - k) (take j ls))"

definition ticks :: "nat \<Rightarrow> nat \<Rightarrow> nat list" where
  "ticks k n = filter (\<lambda>j. j mod k = 0) [1..<Suc n]"

fun progress_lines :: "'l event list \<Rightarrow> (int \<times> int \<times> int \<times> 'l \<times> 'l) list" where
  "progress_lines [] = []"
| "progress_lines (Progress p # evs) =
     (line_epoch p, line_index p, line_total p, line_nsp_loss p, line_mlm_loss p)
       # progress_lines evs"
| "progress_lines (_ # evs) = progress_lines evs"

fun loss_scalars :: "'l event list \<Rightarrow> (string \<times> 'l \<times> int) list" where
  "loss_scalars [] = []"
| "loss_scalars (Scalar_loss tag x global_step # evs) = (tag, x, global_step) # loss_scalars evs"
| "loss_scalars (_ # evs) = loss_scalars evs"

subsection \<open>A small instance\<close>

text \<open>
  Collaborators whose pair loss is the model state itself (a counter that every gradient
  step advances), a loader of four batches, and a trainer over them with a progress tick
  every second batch.
\<close>

definition example_batch :: "unit batch" where
  "example_batch =
     \<lparr>inp = (), attention_mask = (), token_mask = [[False, True]],
      mask_target = [[1, 0]], nsp_target = [[0, 1]]\<rparr>"

definition example_collaborators :: "(int, int, unit, rat) collaborators" where
  "example_collaborators =
     \<lparr>model_forward = (\<lambda>m x a. ([[[0, 1], [3, 1]]], [[of_int m, 2]])),
      ml_criterion = (\<lambda>t y. 1),
      criterion = (\<lambda>t y. hd (hd t)),
      loss_add = (+),
      loss_div = (\<lambda>l k. l / of_int k),
      loss_zero = 0,
      optimizer_step = (\<lambda>p v. (fst p + 1, snd p + 2)),
      loader = (\<lambda>e. [example_batch, example_batch, example_batch, example_batch])\<rparr>"

definition example_trainer :: "(int, int) trainer" where
  "example_trainer =
     \<lparr>model = 0, optimizer = 0, batch_size = 1, checkpoint_dir = Some ''ckpt'', epochs = 2,
      current_epoch = 0, ds_len = 4, batched_len = 4, print_every = 2, accuracy_every = 5\<rparr>"

definition example_world :: "(int, int, rat) world" where
  "example_world = \<lparr>files = Map.empty, console = [], calls = []\<rparr>"

definition example_clock :: "int \<Rightarrow> int" where
  "example_clock e = 70 + e"

text \<open>
  What holds of the trainer, the output and the local variables after \<open>i\<close> batches of an
  epoch that began in the state \<open>st\<close> with the output \<open>out\<close>: the gradient steps taken,
  the running sums since the last progress tick, the last total loss, and the progress
  lines and loss scalars of the ticks so far.
\<close>

definition loop_inv ::
  "('m, 'o, 'x, 'l) collaborators \<Rightarrow> int \<Rightarrow> int \<Rightarrow> ('m, 'o) trainer \<Rightarrow> 'l event list
     \<Rightarrow> 'x batch list \<Rightarrow> nat \<Rightarrow> ('m, 'o) trainer \<times> ('m, 'o, 'l) world \<times> 'l locals \<Rightarrow> bool" where
  "loop_inv c e nb st out bs i s =
     (case s of (st', w', loc') \<Rightarrow>
        let p0 = (model st, optimizer st);
            N = nsp_losses c p0 bs;
            M = mlm_losses c p0 bs;
            k = nat \<bar>print_every st\<bar>
        in (model st', optimizer st') = params_after c p0 (take i bs)
           \<and> print_every st' = print_every st \<and> batched_len st' = batched_len st
           \<and> average_nsp_loss loc'
               = foldl (loss_add c) (loss_zero c) (drop (i - i mod k) (take i N))
           \<and> average_mlm_loss loc'
               = foldl (loss_add c) (loss_zero c) (drop (i - i mod k) (take i M))
           \<and> loss_var loc'
               = (if i = 0 then None else Some (loss_add c (M ! (i - 1)) (N ! (i - 1))))
           \<and> progress_lines (console w')
               = progress_lines out
                 @ map (\<lambda>j. (e + 1, int j, batched_len st,
                              loss_div c (window_sum c k N j) (print_every st),
                              loss_div c (window_sum c k M j) (print_every st)))
                     (ticks k i)
           \<and> loss_scalars (console w')
               = loss_scalars out
                 @ concat (map (\<lambda>j. [(''NSP loss'',
                                       loss_div c (window_sum c k N j) (print_every st),
                                       e * nb + int j),
                                      (''MLM loss'',
                                       loss_div c (window_sum c k M j) (print_every st),
                                       e * nb + int j)])
                             (ticks k i)))"

text \<open>
  The well-formed outputs of the model for a batch: a non-empty grid of non-empty score
  vectors, the targets and the token mask of the shape of the grid, as many pair scores
  as pair targets, each a non-empty vector, and sizes that an \<open>int64\<close> count holds.
\<close>

definition well_shaped :: "rat list list list \<times> rat list list \<Rightarrow> 'x batch \<Rightarrow> bool" where
  "well_shaped out v =
     (case out of (token, nsp) \<Rightarrow>
        let B = size0 token; S = size1 token
        in 0 < B \<and> 0 < S \<and> B * S < 2 ^ 63
           \<and> has_shape B S token \<and> (\<forall>row \<in> set token. [] \<notin> set row)
           \<and> has_shape B S (mask_target v) \<and> has_shape B S (token_mask v)
           \<and> nsp \<noteq> [] \<and> length nsp = length (nsp_target v) \<and> length nsp < 2 ^ 63
           \<and> [] \<notin> set nsp \<and> [] \<notin> set (nsp_target v))"

text \<open>
  The part of the output that marks the epochs of a run: the \<open>Begin epoch\<close> lines of
  \<open>train\<close> and the \<open>Model saved\<close> lines of \<open>save_checkpoint\<close>.
\<close>

fun epoch_events :: "'l event list \<Rightarrow> 'l event list" where
  "epoch_events [] = []"
| "epoch_events (Begin_epoch e # evs) = Begin_epoch e # epoch_events evs"
| "epoch_events (Model_saved name # evs) = Model_saved name # epoch_events evs"
| "epoch_events (_ # evs) = epoch_events evs"

text \<open>The matches within one row of the grid: an auxiliary count for the proofs.\<close>

definition row_count :: "int list \<Rightarrow> int list \<Rightarrow> bool list \<Rightarrow> nat" where
  "row_count a t m = length (filter (\<lambda>j. m ! j \<and> a ! j = t ! j) [0..<length m])"

section \<open>Rounding to the nearest float\<close>

lemma bitlen_powi_bounds:
  fixes a :: int
  assumes "0 < a"
  shows "(2::rat) powi (bitlen a - 1) \<le> of_int a" and "of_int a < (2::rat) powi (bitlen a)"
proof -
  from bitlen_bounds[OF assms] have lo: "2 ^ nat (bitlen a - 1) \<le> a" and hi: "a < 2 ^ nat (bitlen a)"
    by auto
  have b1: "1 \<le> bitlen a" using assms by (simp add: bitlen_alt_def)
  have "(of_int (2 ^ nat (bitlen a - 1)) :: rat) \<le> of_int a"
    using lo by (simp only: of_int_le_iff)
  then show "(2::rat) powi (bitlen a - 1) \<le> of_int a"
    using b1 by (simp add: power_int_def)
  have "(of_int a :: rat) < of_int (2 ^ nat (bitlen a))"
    using hi by (simp only: of_int_less_iff)
  then show "of_int a < (2::rat) powi (bitlen a)"
    using b1 by (simp add: power_int_def)
qed

lemma ilog2_bounds:
  assumes "0 < r"
  shows "2 powi (ilog2 r) \<le> r" and "r < 2 powi (ilog2 r + 1)"
proof -
  obtain a b where q: "quotient_of r = (a, b)" by (cases "quotient_of r")
  then have b: "0 < b" and r: "r = of_int a / of_int b"
    by (auto simp: quotient_of_denom_pos quotient_of_div)
  from assms r b have a: "0 < a"
    by (simp add: zero_less_divide_iff)
  let ?d = "bitlen a - bitlen b"
  have "r < 2 powi (bitlen a) / 2 powi (bitlen b - 1)"
    unfolding r using bitlen_powi_bounds[OF a] bitlen_powi_bounds[OF b] a b
    by (intro frac_less) auto
  also have "\<dots> = 2 powi (bitlen a - (bitlen b - 1))"
    by (rule power_int_diff[symmetric]) simp
  also have "bitlen a - (bitlen b - 1) = ?d + 1" by simp
  finally have up: "r < 2 powi (?d + 1)" .
  have "(2::rat) powi (?d - 1) = 2 powi (bitlen a - 1 - bitlen b)"
    by (simp add: algebra_simps)
  also have "\<dots> = 2 powi (bitlen a - 1) / 2 powi (bitlen b)"
    by (rule power_int_diff) simp
  also have "\<dots> < r"
    unfolding r using bitlen_powi_bounds[OF a] bitlen_powi_bounds[OF b] a b
    by (intro frac_less2) auto
  finally have lo: "2 powi (?d - 1) < r" .
  show "2 powi (ilog2 r) \<le> r"
    using lo by (simp add: ilog2_def q Let_def)
  show "r < 2 powi (ilog2 r + 1)"
    using up by (auto simp add: ilog2_def q Let_def not_le)
qed

lemma powi2_less_cancel:
  assumes "(2::rat) powi a < 2 powi b"
  shows "a < b"
proof (rule ccontr)
  assume "\<not> a < b"
  then have "b \<le> a" by simp
  then have "(2::rat) powi b \<le> 2 powi a"
    by (intro power_int_increasing) auto
  with assms show False by simp
qed

lemma ilog2_unique:
  assumes "0 < r" "2 powi e \<le> r" "r < 2 powi (e + 1)"
  shows "ilog2 r = e"
proof -
  have "(2::rat) powi e < 2 powi (ilog2 r + 1)"
    using assms(2) ilog2_bounds(2)[OF assms(1)] by simp
  then have 1: "e < ilog2 r + 1" by (rule powi2_less_cancel)
  have "(2::rat) powi (ilog2 r) < 2 powi (e + 1)"
    using assms(3) ilog2_bounds(1)[OF assms(1)] by simp
  then have 2: "ilog2 r < e + 1" by (rule powi2_less_cancel)
  from 1 2 show ?thesis by simp
qed

lemma rne_floor_bounds: "\<lfloor>x\<rfloor> \<le> rne x" "rne x \<le> \<lfloor>x\<rfloor> + 1"
  by (simp_all add: rne_def Let_def)

lemma rne_of_int [simp]: "rne (of_int k) = k"
  by (simp add: rne_def)

lemma rne_mono:
  assumes "x \<le> y"
  shows "rne x \<le> rne y"
proof (cases "\<lfloor>x\<rfloor> = \<lfloor>y\<rfloor>")
  case True
  then show ?thesis using assms
    by (auto simp add: rne_def Let_def)
next
  case False
  with assms have "\<lfloor>x\<rfloor> < \<lfloor>y\<rfloor>"
    using floor_mono[OF assms] by simp
  then have "rne x \<le> \<lfloor>y\<rfloor>"
    using rne_floor_bounds(2)[of x] by simp
  then show ?thesis
    using rne_floor_bounds(1)[of y] by simp
qed

lemma rne_0 [simp]: "rne 0 = 0"
  using rne_of_int[of 0] by simp

lemma rne_le_int: "x \<le> of_int k \<Longrightarrow> rne x \<le> k"
  using rne_mono[of x "of_int k"] by simp

lemma rne_ge_int: "of_int k \<le> x \<Longrightarrow> k \<le> rne x"
  using rne_mono[of "of_int k" x] by simp

lemma ilog2_mono:
  assumes "0 < r" "r \<le> s"
  shows "ilog2 r \<le> ilog2 s"
proof -
  have s: "0 < s" using assms by simp
  have "(2::rat) powi (ilog2 r) < 2 powi (ilog2 s + 1)"
    using ilog2_bounds(1)[OF assms(1)] ilog2_bounds(2)[OF s] assms(2) by simp
  then have "ilog2 r < ilog2 s + 1" by (rule powi2_less_cancel)
  then show ?thesis by simp
qed

lemma ulp_pos [simp]: "0 < ulp p emin r"
  by (simp add: ulp_def)

lemma ulp_nonneg [simp]: "0 \<le> ulp p emin r"
  by (simp add: ulp_def)

lemma ulp_not_neg [simp]: "\<not> ulp p emin r < 0"
  by (simp add: not_less)

lemma powi2_of_int: "0 \<le> k \<Longrightarrow> (2::rat) powi k = of_int (2 ^ nat k)"
  by (simp add: power_int_def)

lemma round_nearest_pos:
  "0 < r \<Longrightarrow> round_nearest p emin r = of_int (rne (r / ulp p emin r)) * ulp p emin r"
  by (simp add: round_nearest_def)

lemma round_nearest_pos_upper:
  assumes "0 < r"
  shows "round_nearest p emin r \<le> 2 powi (max (ilog2 r) emin + 1)"
proof -
  let ?e = "max (ilog2 r) emin"
  let ?u = "ulp p emin r"
  have u: "?u = 2 powi (?e - (int p - 1))" using assms by (simp add: ulp_def)
  have "r < 2 powi (ilog2 r + 1)" by (rule ilog2_bounds(2)[OF assms])
  also have "\<dots> \<le> 2 powi (?e + 1)" by (intro power_int_increasing) auto
  finally have "r / ?u \<le> 2 powi (?e + 1) / ?u"
    by (simp add: divide_le_cancel)
  also have "2 powi (?e + 1) / ?u = 2 powi (?e + 1 - (?e - (int p - 1)))"
    unfolding u by (rule power_int_diff[symmetric]) simp
  also have "?e + 1 - (?e - (int p - 1)) = int p" by simp
  also have "(2::rat) powi (int p) = of_int (2 ^ p)" by simp
  finally have "rne (r / ?u) \<le> 2 ^ p" by (rule rne_le_int)
  then have "(of_int (rne (r / ?u)) :: rat) \<le> of_int (2 ^ p)"
    by (simp only: of_int_le_iff)
  then have "of_int (rne (r / ?u)) * ?u \<le> of_int (2 ^ p) * ?u"
    by (intro mult_right_mono) (auto simp: less_imp_le)
  also have "of_int (2 ^ p) * ?u = 2 powi (int p) * 2 powi (?e - (int p - 1))"
    unfolding u by simp
  also have "\<dots> = 2 powi (int p + (?e - (int p - 1)))"
    by (rule power_int_add[symmetric]) simp
  also have "int p + (?e - (int p - 1)) = ?e + 1" by simp
  finally show ?thesis using assms by (simp add: round_nearest_pos)
qed

lemma round_nearest_pos_lower:
  assumes "0 < r" "0 < p" "emin \<le> ilog2 r"
  shows "2 powi (ilog2 r) \<le> round_nearest p emin r"
proof -
  let ?e = "ilog2 r"
  let ?u = "ulp p emin r"
  have u: "?u = 2 powi (?e - (int p - 1))" using assms by (simp add: ulp_def max_def)
  have "(2::rat) powi (int p - 1) = 2 powi (?e - (?e - (int p - 1)))" by simp
  also have "\<dots> = 2 powi ?e / ?u"
    unfolding u by (rule power_int_diff) simp
  also have "\<dots> \<le> r / ?u"
    using ilog2_bounds(1)[OF assms(1)] by (simp add: divide_le_cancel)
  finally have "(of_int (2 ^ nat (int p - 1)) :: rat) \<le> r / ?u"
    using assms(2) by (simp add: powi2_of_int)
  then have "2 ^ nat (int p - 1) \<le> rne (r / ?u)" by (rule rne_ge_int)
  then have "(of_int (2 ^ nat (int p - 1)) :: rat) \<le> of_int (rne (r / ?u))"
    by (simp only: of_int_le_iff)
  then have step: "of_int (2 ^ nat (int p - 1)) * ?u \<le> of_int (rne (r / ?u)) * ?u"
    by (intro mult_right_mono) (auto simp: less_imp_le)
  have "(2::rat) powi ?e = 2 powi (int p - 1 + (?e - (int p - 1)))" by simp
  also have "\<dots> = 2 powi (int p - 1) * 2 powi (?e - (int p - 1))"
    by (rule power_int_add) simp
  also have "\<dots> = of_int (2 ^ nat (int p - 1)) * ?u"
    unfolding u using assms(2) by (simp only: powi2_of_int)
  also note step
  also have "of_int (rne (r / ?u)) * ?u = round_nearest p emin r"
    using assms(1) by (simp only: round_nearest_pos)
  finally show ?thesis .
qed

lemma round_nearest_pos_nonneg:
  assumes "0 < r"
  shows "0 \<le> round_nearest p emin r"
proof -
  have "0 \<le> r / ulp p emin r" using assms by (simp add: zero_le_divide_iff)
  then have "0 \<le> rne (r / ulp p emin r)" using rne_mono[of 0] by simp
  then show ?thesis using assms by (simp add: round_nearest_pos)
qed

lemma round_nearest_mono_pos:
  assumes "0 < r" "r \<le> s" "0 < p"
  shows "round_nearest p emin r \<le> round_nearest p emin s"
proof -
  have s: "0 < s" using assms by simp
  let ?er = "max (ilog2 r) emin" and ?es = "max (ilog2 s) emin"
  have le: "?er \<le> ?es" using ilog2_mono[OF assms(1,2)] by simp
  show ?thesis
  proof (cases "?er = ?es")
    case True
    then have u: "ulp p emin r = ulp p emin s"
      using assms(1) s by (simp add: ulp_def)
    have "r / ulp p emin s \<le> s / ulp p emin s"
      using assms(2) by (simp add: divide_le_cancel)
    then have "rne (r / ulp p emin s) \<le> rne (s / ulp p emin s)" by (rule rne_mono)
    then have "(of_int (rne (r / ulp p emin s)) :: rat) \<le> of_int (rne (s / ulp p emin s))"
      by (simp only: of_int_le_iff)
    then have "of_int (rne (r / ulp p emin s)) * ulp p emin s \<le> of_int (rne (s / ulp p emin s)) * ulp p emin s"
      by (intro mult_right_mono) (auto simp: less_imp_le)
    then show ?thesis using assms(1) s u by (simp add: round_nearest_pos)
  next
    case False
    with le have lt: "?er < ?es" by linarith
    have es: "?es = ilog2 s" "emin \<le> ilog2 s" using lt by linarith+
    have "round_nearest p emin r \<le> 2 powi (?er + 1)"
      by (rule round_nearest_pos_upper[OF assms(1)])
    also have "\<dots> \<le> 2 powi (ilog2 s)"
      using lt es by (intro power_int_increasing) auto
    also have "\<dots> \<le> round_nearest p emin s"
      by (rule round_nearest_pos_lower[OF s assms(3) es(2)])
    finally show ?thesis .
  qed
qed

lemma ulp_minus [simp]: "ulp p emin (- r) = ulp p emin r"
  by (simp add: ulp_def)

lemma round_nearest_minus: "round_nearest p emin (- r) = - round_nearest p emin r"
  by (simp add: round_nearest_def)

lemma round_nearest_0 [simp]: "round_nearest p emin 0 = 0"
  by (simp add: round_nearest_def)

lemma round_nearest_mono:
  assumes "r \<le> s" "0 < p"
  shows "round_nearest p emin r \<le> round_nearest p emin s"
proof -
  consider "0 < r" | "r \<le> 0" "0 \<le> s" | "s < 0" by linarith
  then show ?thesis
  proof cases
    case 1
    then show ?thesis by (rule round_nearest_mono_pos[OF _ assms])
  next
    case 2
    have "round_nearest p emin r \<le> 0"
    proof (cases "r = 0")
      case True then show ?thesis by simp
    next
      case False
      with 2 have "0 < - r" by simp
      from round_nearest_pos_nonneg[OF this, of p emin] show ?thesis
        by (simp add: round_nearest_minus)
    qed
    moreover have "0 \<le> round_nearest p emin s"
    proof (cases "s = 0")
      case True then show ?thesis by simp
    next
      case False
      with 2 have "0 < s" by simp
      then show ?thesis by (rule round_nearest_pos_nonneg)
    qed
    ultimately show ?thesis by simp
  next
    case 3
    then have "0 < - s" "- s \<le> - r" using assms by simp_all
    from round_nearest_mono_pos[OF this assms(2), of emin] show ?thesis
      by (simp add: round_nearest_minus)
  qed
qed

lemma round_nearest_eval:
  assumes "0 < r" "2 powi e \<le> r" "r < 2 powi (e + 1)" "emin \<le> e"
  shows "round_nearest p emin r =
           of_int (rne (r / 2 powi (e - (int p - 1)))) * 2 powi (e - (int p - 1))"
proof -
  have "ilog2 r = e" by (rule ilog2_unique[OF assms(1-3)])
  then have "ulp p emin r = 2 powi (e - (int p - 1))"
    using assms(1,4) by (simp add: ulp_def max_def)
  then show ?thesis using assms(1) by (simp add: round_nearest_pos)
qed

lemma round_nearest_exact_pos:
  assumes "0 < m" "m < 2 ^ p" "emin - (int p - 1) \<le> q"
  shows "round_nearest p emin (of_int m * 2 powi q) = of_int m * 2 powi q"
proof -
  let ?r = "of_int m * 2 powi q :: rat"
  have r: "0 < ?r" using assms(1) by simp
  have "(of_int m :: rat) < of_int (2 ^ p)" using assms(2) by (simp only: of_int_less_iff)
  then have "?r < of_int (2 ^ p) * 2 powi q"
    by (intro mult_strict_right_mono) auto
  also have "of_int (2 ^ p) * 2 powi q = (2::rat) powi (int p) * 2 powi q" by simp
  also have "\<dots> = 2 powi (int p + q)" by (rule power_int_add[symmetric]) simp
  finally have "(2::rat) powi (ilog2 ?r) < 2 powi (int p + q)"
    using ilog2_bounds(1)[OF r] by simp
  then have e: "ilog2 ?r < int p + q" by (rule powi2_less_cancel)
  define E where "E = max (ilog2 ?r) emin"
  define k where "k = q - (E - (int p - 1))"
  have k: "0 \<le> k" using e assms(3) by (simp add: k_def E_def)
  define U where "U = ulp p emin ?r"
  have u: "U = 2 powi (E - (int p - 1))"
    using r by (simp add: U_def ulp_def E_def)
  have U: "0 < U" by (simp add: U_def)
  have q: "q = k + (E - (int p - 1))" by (simp add: k_def)
  have "(2::rat) powi q = 2 powi k * 2 powi (E - (int p - 1))"
    by (subst q, rule power_int_add) simp
  also have "\<dots> = of_int (2 ^ nat k) * U"
    using k by (simp only: u powi2_of_int)
  finally have split: "?r = of_int (m * 2 ^ nat k) * U"
    by simp
  have "?r / U = of_int (m * 2 ^ nat k)"
    using U by (subst split) simp
  then have "rne (?r / U) = m * 2 ^ nat k"
    by (simp only: rne_of_int)
  then have "round_nearest p emin ?r = of_int (m * 2 ^ nat k) * U"
    using r unfolding U_def by (simp only: round_nearest_pos)
  also have "\<dots> = ?r" by (rule split[symmetric])
  finally show ?thesis .
qed

lemma round_nearest_exact:
  assumes "\<bar>m\<bar> < 2 ^ p" "emin - (int p - 1) \<le> q"
  shows "round_nearest p emin (of_int m * 2 powi q) = of_int m * 2 powi q"
proof -
  consider "0 < m" | "m = 0" | "m < 0" by linarith
  then show ?thesis
  proof cases
    case 1
    then show ?thesis using assms by (intro round_nearest_exact_pos) auto
  next
    case 2
    then show ?thesis by simp
  next
    case 3
    then have "round_nearest p emin (of_int (- m) * 2 powi q) = of_int (- m) * 2 powi q"
      using assms by (intro round_nearest_exact_pos) auto
    then have "round_nearest p emin (- (of_int m * 2 powi q)) = - (of_int m * 2 powi q)"
      by simp
    then show ?thesis by (simp only: round_nearest_minus neg_equal_iff_equal)
  qed
qed

lemma round_nearest_int:
  assumes "\<bar>m\<bar> < 2 ^ p" "emin \<le> int p - 1"
  shows "round_nearest p emin (of_int m) = of_int m"
  using round_nearest_exact[of m p emin 0] assms by simp

lemma round_nearest_powi:
  assumes "0 < p" "emin - (int p - 1) \<le> k"
  shows "round_nearest p emin (2 powi k) = 2 powi k"
  using round_nearest_exact[of 1 p emin k] assms by simp

lemma round_nearest_abs_le:
  assumes "\<bar>r\<bar> \<le> 2 powi k" "0 < p" "emin - (int p - 1) \<le> k"
  shows "\<bar>round_nearest p emin r\<bar> \<le> 2 powi k"
proof -
  have "round_nearest p emin r \<le> round_nearest p emin (2 powi k)"
    using assms(1,2) by (intro round_nearest_mono) auto
  moreover have "round_nearest p emin (- (2 powi k)) \<le> round_nearest p emin r"
    using assms(1,2) by (intro round_nearest_mono) auto
  ultimately show ?thesis
    using round_nearest_powi[OF assms(2,3)] by (simp add: round_nearest_minus abs_le_iff)
qed

lemma fl_finite:
  assumes "\<bar>round_nearest p emin r\<bar> < 2 powi (emax + 1)"
  shows "fl p emin emax r = Fin (round_nearest p emin r)"
  using assms by (simp add: fl_def Let_def)

lemma fl_int:
  assumes "\<bar>m\<bar> < 2 ^ p" "emin \<le> int p - 1" "int p \<le> emax + 1"
  shows "fl p emin emax (of_int m) = Fin (of_int m)"
proof -
  have "(of_int \<bar>m\<bar> :: rat) < of_int (2 ^ p)" using assms(1) by (simp only: of_int_less_iff)
  also have "(of_int (2 ^ p) :: rat) = 2 powi (int p)" by simp
  also have "\<dots> \<le> 2 powi (emax + 1)" using assms(3) by (intro power_int_increasing) auto
  finally have "\<bar>of_int m :: rat\<bar> < 2 powi (emax + 1)" by simp
  then show ?thesis
    using round_nearest_int[OF assms(1,2)] by (simp add: fl_finite)
qed

lemma fl_bounded:
  assumes "\<bar>r\<bar> \<le> 2 powi k" "0 < p" "emin - (int p - 1) \<le> k" "k \<le> emax"
  shows "\<exists>v. fl p emin emax r = Fin v \<and> \<bar>v\<bar> \<le> 2 powi k"
proof -
  have b: "\<bar>round_nearest p emin r\<bar> \<le> 2 powi k"
    by (rule round_nearest_abs_le[OF assms(1-3)])
  also have "(2::rat) powi k < 2 powi (emax + 1)"
    using assms(4) by (intro power_int_strict_increasing) auto
  finally show ?thesis using b by (simp add: fl_finite)
qed

lemma fl_mono:
  assumes "r \<le> s" "0 < p"
  shows "float_le (fl p emin emax r) (fl p emin emax s)"
proof -
  have "round_nearest p emin r \<le> round_nearest p emin s"
    by (rule round_nearest_mono[OF assms])
  moreover have "(0::rat) < 2 powi (emax + 1)" by simp
  ultimately show ?thesis
    by (auto simp add: fl_def Let_def abs_if split: if_splits)
qed

lemma rne_eqI:
  assumes "of_int k - 1 / 2 < x" "x < of_int k + 1 / 2"
  shows "rne x = k"
proof (cases "x < of_int k")
  case True
  have "\<lfloor>x\<rfloor> = k - 1"
    using assms True by (intro floor_unique) auto
  then show ?thesis using assms by (simp add: rne_def Let_def)
next
  case False
  have "\<lfloor>x\<rfloor> = k"
    using assms False by (intro floor_unique) auto
  then show ?thesis using assms by (simp add: rne_def Let_def)
qed

lemma binary64_int:
  "\<bar>m\<bar> < 2 ^ 53 \<Longrightarrow> binary64 (of_int m) = Fin (of_int m)"
  unfolding binary64_def by (rule fl_int) simp_all

lemma binary64_mono: "r \<le> s \<Longrightarrow> float_le (binary64 r) (binary64 s)"
  unfolding binary64_def by (rule fl_mono) simp_all

lemma binary64_bounded:
  "\<bar>r\<bar> \<le> 2 powi k \<Longrightarrow> - 1074 \<le> k \<Longrightarrow> k \<le> 1023 \<Longrightarrow> \<exists>v. binary64 r = Fin v \<and> \<bar>v\<bar> \<le> 2 powi k"
  unfolding binary64_def by (rule fl_bounded) simp_all

lemma binary64_eval:
  assumes "0 < r" "2 powi e \<le> r" "r < 2 powi (e + 1)" "- 1022 \<le> e" "e \<le> 1022"
  shows "binary64 r = Fin (of_int (rne (r / 2 powi (e - 52))) * 2 powi (e - 52))"
proof -
  have "\<bar>r\<bar> \<le> 2 powi (e + 1)" using assms(1,3) by simp
  then obtain v where v: "binary64 r = Fin v"
    using binary64_bounded[of r "e + 1"] assms(4,5) by auto
  have "round_nearest 53 (- 1022) r = of_int (rne (r / 2 powi (e - 52))) * 2 powi (e - 52)"
    using round_nearest_eval[OF assms(1-3), of "- 1022" 53] assms(4) by simp
  with v show ?thesis
    by (auto simp add: binary64_def fl_def Let_def split: if_splits)
qed

lemma truediv_3_5: "int_truediv 3 5 = Inr (Fin (5404319552844595 / 2 ^ 53))"
proof -
  have "binary64 (3 / 5) = Fin (of_int (rne ((3 / 5) / 2 powi (- 1 - 52))) * 2 powi (- 1 - 52))"
    by (rule binary64_eval) simp_all
  also have "rne ((3 / 5) / 2 powi (- 1 - 52)) = 5404319552844595"
    by (rule rne_eqI) simp_all
  finally show ?thesis by (simp add: int_truediv_def)
qed

lemma rne_close: "\<bar>of_int (rne x) - x\<bar> \<le> 1 / 2"
proof -
  have "of_int \<lfloor>x\<rfloor> \<le> x" "x < of_int \<lfloor>x\<rfloor> + 1" by linarith+
  then show ?thesis by (auto simp add: rne_def Let_def abs_le_iff)
qed

lemma round2_int:
  assumes "\<bar>m\<bar> < 2 ^ 53"
  shows "round2 (Fin (of_int m)) = Inr (Fin (of_int m))"
proof -
  have "of_int m * (100::rat) = of_int (m * 100)" by simp
  then have "rne (of_int m * 100) = m * 100" by (simp only: rne_of_int)
  then show ?thesis using binary64_int[OF assms] by (simp add: round2_def)
qed

lemma float_mul_60: "float_mul (Fin (5404319552844595 / 2 ^ 53)) (Fin 100) = Fin 60"
proof -
  let ?r = "5404319552844595 / 2 ^ 53 * 100 :: rat"
  have "binary64 ?r = Fin (of_int (rne (?r / 2 powi (5 - 52))) * 2 powi (5 - 52))"
    by (rule binary64_eval) simp_all
  also have "rne (?r / 2 powi (5 - 52)) = 8444249301319680"
    by (rule rne_eqI) simp_all
  finally show ?thesis by simp
qed

lemma percentage_2_10_3: "percentage 2 10 3 = Inr (Fin 60)"
proof -
  have "percentage 2 10 3 =
          (case int_truediv 3 5 of Inl e \<Rightarrow> Inl e | Inr q \<Rightarrow> round2 (float_mul q (Fin 100)))"
    by (simp add: percentage_def int_floordiv_def)
  also have "\<dots> = round2 (float_mul (Fin (5404319552844595 / 2 ^ 53)) (Fin 100))"
    by (simp only: truediv_3_5 sum.case)
  also have "\<dots> = round2 (Fin 60)"
    by (simp only: float_mul_60)
  also have "\<dots> = Inr (Fin 60)"
    using round2_int[of 60] by simp
  finally show ?thesis .
qed

lemma int_truediv_self:
  assumes "m \<noteq> 0"
  shows "int_truediv m m = Inr (Fin 1)"
  using assms binary64_int[of 1] by (simp add: int_truediv_def)

lemma percentage_full:
  assumes "1 \<le> max_len div bsize"
  shows "percentage bsize max_len (max_len div bsize) = Inr (Fin 100)"
proof -
  have b: "bsize \<noteq> 0" using assms by (rule_tac notI) simp
  have m: "max_len div bsize \<noteq> 0" using assms by simp
  show ?thesis
    using b binary64_int[of 100] round2_int[of 100]
    by (simp add: percentage_def int_floordiv_def int_truediv_self[OF m])
qed

lemma int_truediv_mono:
  assumes "0 < m" "c \<le> c'" "int_truediv c m = Inr x" "int_truediv c' m = Inr y"
  shows "float_le x y"
proof -
  have "(of_int c :: rat) / of_int m \<le> of_int c' / of_int m"
    using assms(1,2) by (simp add: divide_right_mono)
  then have "float_le (binary64 (of_int c / of_int m)) (binary64 (of_int c' / of_int m))"
    by (rule binary64_mono)
  then show ?thesis using assms(1,3,4)
    by (auto simp add: int_truediv_def split: pyfloat.splits if_splits)
qed

lemma binary64_not_NaN [simp]: "binary64 r \<noteq> NaN"
  by (simp add: binary64_def fl_def Let_def)

lemma float_le_PInf [simp]: "float_le x PInf \<longleftrightarrow> x \<noteq> NaN"
  by (cases x) simp_all

lemma float_le_NInf [simp]: "float_le NInf y \<longleftrightarrow> y \<noteq> NaN"
  by (cases y) simp_all

lemma float_mul_100_mono:
  assumes "float_le x y"
  shows "float_le (float_mul x (Fin 100)) (float_mul y (Fin 100))"
proof (cases x)
  case (Fin a)
  show ?thesis
  proof (cases y)
    case (Fin b)
    with \<open>x = Fin a\<close> assms have "a * 100 \<le> b * 100" by simp
    then show ?thesis using Fin \<open>x = Fin a\<close> by (simp add: binary64_mono)
  next
    case PInf
    then show ?thesis using \<open>x = Fin a\<close> by (cases "binary64 (a * 100)") simp_all
  qed (use assms \<open>x = Fin a\<close> in simp_all)
next
  case NInf
  then show ?thesis using assms
  proof (cases y)
    case (Fin b)
    then show ?thesis using NInf by (cases "binary64 (b * 100)") simp_all
  qed simp_all
qed (use assms in \<open>cases y; simp\<close>)+

lemma round2_mono:
  assumes "float_le x y" "round2 x = Inr x'" "round2 y = Inr y'"
  shows "float_le x' y'"
proof (cases x)
  case (Fin a)
  show ?thesis
  proof (cases y)
    case (Fin b)
    with \<open>x = Fin a\<close> assms(1) have "a * 100 \<le> b * 100" by simp
    then have "rne (a * 100) \<le> rne (b * 100)" by (rule rne_mono)
    then have "(of_int (rne (a * 100)) :: rat) / 100 \<le> of_int (rne (b * 100)) / 100"
      by simp
    then have "float_le (binary64 (of_int (rne (a * 100)) / 100)) (binary64 (of_int (rne (b * 100)) / 100))"
      by (rule binary64_mono)
    then show ?thesis using assms(2,3) Fin \<open>x = Fin a\<close>
      by (auto simp add: round2_def split: pyfloat.splits)
  next
    case PInf
    then show ?thesis using assms(2,3) \<open>x = Fin a\<close>
      by (auto simp add: round2_def split: pyfloat.splits)
  qed (use assms \<open>x = Fin a\<close> in simp_all)
next
  case NInf
  then show ?thesis using assms
    by (cases y) (auto simp add: round2_def split: pyfloat.splits)
qed (use assms in \<open>cases y; simp add: round2_def\<close>)+

lemma percentage_mono:
  assumes "1 \<le> max_len div bsize" "c \<le> c'"
    "percentage bsize max_len c = Inr x" "percentage bsize max_len c' = Inr y"
  shows "float_le x y"
proof -
  let ?m = "max_len div bsize"
  have b: "bsize \<noteq> 0" using assms(1) by (rule_tac notI) simp
  from assms(3) b obtain q where q: "int_truediv c ?m = Inr q"
    and x: "round2 (float_mul q (Fin 100)) = Inr x"
    by (auto simp add: percentage_def int_floordiv_def split: sum.splits)
  from assms(4) b obtain q' where q': "int_truediv c' ?m = Inr q'"
    and y: "round2 (float_mul q' (Fin 100)) = Inr y"
    by (auto simp add: percentage_def int_floordiv_def split: sum.splits)
  have "float_le q q'"
    using assms(1,2) q q' by (intro int_truediv_mono[of ?m c c']) auto
  then have "float_le (float_mul q (Fin 100)) (float_mul q' (Fin 100))"
    by (rule float_mul_100_mono)
  then show ?thesis using x y by (rule round2_mono)
qed

lemma percentage_returns:
  assumes "1 \<le> max_len div bsize" "\<bar>c\<bar> \<le> 2 ^ 1000"
  shows "\<exists>v. percentage bsize max_len c = Inr (Fin v)"
proof -
  let ?m = "max_len div bsize"
  have b: "bsize \<noteq> 0" using assms(1) by (rule_tac notI) simp
  have m: "?m \<noteq> 0" using assms(1) by simp
  have "\<bar>of_int c / of_int ?m :: rat\<bar> = of_int \<bar>c\<bar> / of_int ?m"
    using assms(1) by simp
  also have "\<dots> \<le> of_int \<bar>c\<bar> / 1"
    using assms(1) by (intro divide_left_mono) auto
  also have "\<dots> \<le> of_int (2 ^ 1000)"
    using assms(2) by (simp only: div_by_1 of_int_le_iff)
  also have "(of_int (2 ^ 1000) :: rat) = 2 powi 1000" by simp
  finally obtain q where q: "binary64 (of_int c / of_int ?m) = Fin q" "\<bar>q\<bar> \<le> 2 powi 1000"
    using binary64_bounded[of "of_int c / of_int ?m" 1000] by auto
  have "\<bar>q * 100\<bar> \<le> 2 powi 1000 * 128"
    using q(2) by (simp add: abs_mult)
  also have "(2::rat) powi 1000 * 128 = 2 powi 1007"
    by simp
  finally obtain w where w: "binary64 (q * 100) = Fin w" "\<bar>w\<bar> \<le> 2 powi 1007"
    using binary64_bounded[of "q * 100" 1007] by auto
  define k :: rat where "k = of_int (rne (w * 100))"
  have "\<bar>k - w * 100\<bar> \<le> 1 / 2"
    unfolding k_def by (rule rne_close)
  then have "\<bar>k / 100\<bar> \<le> \<bar>w\<bar> + 1"
    by linarith
  then have "\<bar>of_int (rne (w * 100)) / 100 :: rat\<bar> \<le> \<bar>w\<bar> + 1"
    by (simp only: k_def)
  also have "\<dots> \<le> 2 powi 1007 + 2 powi 1007"
    using w(2) by (intro add_mono) auto
  also have "(2::rat) powi 1007 + 2 powi 1007 = 2 powi 1008" by simp
  finally have "\<bar>of_int (rne (w * 100)) / 100 :: rat\<bar> \<le> 2 powi 1008" .
  then obtain z where z: "binary64 (of_int (rne (w * 100)) / 100) = Fin z"
    using binary64_bounded[of "of_int (rne (w * 100)) / 100" 1008] by auto
  show ?thesis
    using b m q(1) w(1) z
    by (simp add: percentage_def int_floordiv_def int_truediv_def round2_def)
qed

section \<open>Tensor operations\<close>

lemma argmax_from_spec:
  assumes "k < i" "pre ! k = best" "length pre = i" "\<forall>j<i. pre ! j \<le> best" "\<forall>j<k. pre ! j < best"
  shows "argmax_from best k i xs < length (pre @ xs)
      \<and> (\<forall>j<length (pre @ xs). (pre @ xs) ! j \<le> (pre @ xs) ! argmax_from best k i xs)
      \<and> (\<forall>j<argmax_from best k i xs. (pre @ xs) ! j < (pre @ xs) ! argmax_from best k i xs)"
  using assms
proof (induction xs arbitrary: pre best k i)
  case Nil
  then show ?case by auto
next
  case (Cons x xs)
  show ?case
  proof (cases "best < x")
    case True
    have "argmax_from x i (Suc i) xs < length ((pre @ [x]) @ xs)
      \<and> (\<forall>j<length ((pre @ [x]) @ xs). ((pre @ [x]) @ xs) ! j \<le> ((pre @ [x]) @ xs) ! argmax_from x i (Suc i) xs)
      \<and> (\<forall>j<argmax_from x i (Suc i) xs. ((pre @ [x]) @ xs) ! j < ((pre @ [x]) @ xs) ! argmax_from x i (Suc i) xs)"
      using Cons.prems True
      by (intro Cons.IH) (auto simp add: nth_append less_Suc_eq)
    then show ?thesis using True by simp
  next
    case False
    have "argmax_from best k (Suc i) xs < length ((pre @ [x]) @ xs)
      \<and> (\<forall>j<length ((pre @ [x]) @ xs). ((pre @ [x]) @ xs) ! j \<le> ((pre @ [x]) @ xs) ! argmax_from best k (Suc i) xs)
      \<and> (\<forall>j<argmax_from best k (Suc i) xs. ((pre @ [x]) @ xs) ! j < ((pre @ [x]) @ xs) ! argmax_from best k (Suc i) xs)"
      using Cons.prems False
      by (intro Cons.IH) (auto simp add: nth_append less_Suc_eq)
    then show ?thesis using False by simp
  qed
qed

lemma argmax_idx_first_max:
  assumes "xs \<noteq> []"
  shows "argmax_idx xs < length xs"
    and "\<forall>j<length xs. xs ! j \<le> xs ! argmax_idx xs"
    and "\<forall>j<argmax_idx xs. xs ! j < xs ! argmax_idx xs"
proof -
  obtain x ys where xs: "xs = x # ys" using assms by (cases xs) auto
  have "argmax_from x 0 1 ys < length ([x] @ ys)
      \<and> (\<forall>j<length ([x] @ ys). ([x] @ ys) ! j \<le> ([x] @ ys) ! argmax_from x 0 1 ys)
      \<and> (\<forall>j<argmax_from x 0 1 ys. ([x] @ ys) ! j < ([x] @ ys) ! argmax_from x 0 1 ys)"
    by (rule argmax_from_spec) auto
  then show "argmax_idx xs < length xs"
    and "\<forall>j<length xs. xs ! j \<le> xs ! argmax_idx xs"
    and "\<forall>j<argmax_idx xs. xs ! j < xs ! argmax_idx xs"
    by (simp_all add: xs argmax_idx_def)
qed

lemma sequence_map_Inr:
  "(\<And>x. x \<in> set xs \<Longrightarrow> f x = Inr (g x)) \<Longrightarrow> sequence (map f xs) = Inr (map g xs)"
  by (induction xs) simp_all

lemma argmax_dim1_ok: "[] \<notin> set t \<Longrightarrow> argmax_dim1 t = Inr (map argmax_idx t)"
  unfolding argmax_dim1_def by (rule sequence_map_Inr) (auto simp add: argmax_def)

lemma argmax_last_ok:
  "(\<And>row. row \<in> set t \<Longrightarrow> [] \<notin> set row) \<Longrightarrow> argmax_last t = Inr (map (map argmax_idx) t)"
  unfolding argmax_last_def by (rule sequence_map_Inr) (simp add: argmax_dim1_ok)

lemma count_map2_eq:
  assumes "length xs = length ys"
  shows "length (filter id (map2 (=) xs ys)) = length (filter (\<lambda>i. xs ! i = ys ! i) [0..<length xs])"
proof -
  have "map2 (=) xs ys = map (\<lambda>i. xs ! i = ys ! i) [0..<length xs]"
    using assms by (intro nth_equalityI) auto
  then show ?thesis by (simp add: filter_map comp_def)
qed

lemma fl_Fin_D: "fl p emin emax r = Fin v \<Longrightarrow> v = round_nearest p emin r"
  by (auto simp add: fl_def Let_def split: if_splits)

lemma binary32_int: "\<bar>m\<bar> < 2 ^ 24 \<Longrightarrow> binary32 (of_int m) = Fin (of_int m)"
  unfolding binary32_def by (rule fl_int) simp_all

lemma binary32_size:
  assumes "1 \<le> n" "n < 2 ^ 63"
  shows "\<exists>v. binary32 (of_int n) = Fin v \<and> 1 \<le> v"
proof -
  have "\<bar>of_int n :: rat\<bar> \<le> of_int (2 ^ 63)"
    using assms by simp
  also have "(of_int (2 ^ 63) :: rat) = 2 powi 63" by simp
  finally obtain v where v: "fl 24 (- 126) 127 (of_int n) = Fin v"
    using fl_bounded[of "of_int n" 63 24 "- 126" 127] by auto
  have "round_nearest 24 (- 126) (of_int 1) \<le> round_nearest 24 (- 126) (of_int n)"
    using assms(1) by (intro round_nearest_mono) simp_all
  moreover have "round_nearest 24 (- 126) (of_int 1) = of_int 1"
    by (rule round_nearest_int) simp_all
  ultimately have "1 \<le> v" using fl_Fin_D[OF v] by simp
  with v show ?thesis by (simp add: binary32_def)
qed

lemma tensor_truediv_self:
  assumes "1 \<le> n" "n < 2 ^ 63"
  shows "tensor_truediv n n = Fin 1"
proof -
  obtain v where v: "binary32 (of_int n) = Fin v" "1 \<le> v"
    using binary32_size[OF assms] by auto
  then show ?thesis using binary32_int[of 1] by (simp add: tensor_truediv_def)
qed

lemma tensor_truediv_zero:
  assumes "1 \<le> n" "n < 2 ^ 63"
  shows "tensor_truediv 0 n = Fin 0"
proof -
  obtain v where v: "binary32 (of_int n) = Fin v" "1 \<le> v"
    using binary32_size[OF assms] by auto
  then show ?thesis using binary32_int[of 0] by (simp add: tensor_truediv_def)
qed

lemma tensor_truediv_small:
  assumes "\<bar>s\<bar> < 2 ^ 24" "1 \<le> n" "n < 2 ^ 24"
  shows "tensor_truediv s n = binary32 (of_int s / of_int n)"
  using assms binary32_int[of s] binary32_int[of n] by (simp add: tensor_truediv_def)

lemma round2_0: "round2 (Fin 0) = Inr (Fin 0)"
  using round2_int[of 0] by simp

lemma round2_1: "round2 (Fin 1) = Inr (Fin 1)"
  using round2_int[of 1] by simp

lemma nsp_accuracy_count:
  assumes "length result = length target" "[] \<notin> set result" "[] \<notin> set target"
  shows "nsp_accuracy result target =
           round2 (tensor_truediv (int (pair_matches result target)) (int (length result)))"
proof -
  have "tensor_eq (map argmax_idx result) (map argmax_idx target)
          = Inr (map2 (=) (map argmax_idx result) (map argmax_idx target))"
    using assms(1) by (simp add: tensor_eq_def)
  moreover have "length (filter id (map2 (=) (map argmax_idx result) (map argmax_idx target)))
          = pair_matches result target"
  proof -
    have "filter (\<lambda>i. map argmax_idx result ! i = map argmax_idx target ! i) [0..<length result]
        = filter (\<lambda>i. argmax_idx (result ! i) = argmax_idx (target ! i)) [0..<length result]"
      using assms(1) by (intro filter_cong) auto
    then show ?thesis
      using assms(1) count_map2_eq[of "map argmax_idx result" "map argmax_idx target"]
      by (simp only: pair_matches_def length_map)
  qed
  ultimately show ?thesis
    using assms(2,3)
    by (simp add: nsp_accuracy_def argmax_dim1_ok tensor_sum_def size0_def)
qed

lemma pair_matches_all:
  assumes "\<forall>i<length p. argmax_idx (p ! i) = argmax_idx (t ! i)"
  shows "pair_matches p t = length p"
proof -
  have "filter (\<lambda>i. argmax_idx (p ! i) = argmax_idx (t ! i)) [0..<length p] = [0..<length p]"
    using assms by (intro filter_True) simp
  then show ?thesis by (simp add: pair_matches_def)
qed

lemma pair_matches_none:
  assumes "\<forall>i<length p. argmax_idx (p ! i) \<noteq> argmax_idx (t ! i)"
  shows "pair_matches p t = 0"
  using assms by (simp add: pair_matches_def)

lemma select_row_Nil [simp]: "select_row [] m = []" "select_row r [] = []"
  by (simp_all add: select_row_def)

lemma select_row_Cons [simp]:
  "select_row (x # xs) (b # bs) = (if b then x # select_row xs bs else select_row xs bs)"
  by (simp add: select_row_def)

lemma length_select_row:
  "length row = length m \<Longrightarrow> length (select_row row m) = length (filter id m)"
  by (induction row m rule: list_induct2) simp_all

lemma count_select_row:
  assumes "length a = length t" "length t = length m"
  shows "length (filter id (map2 (=) (select_row a m) (select_row t m)))
       = length (filter (\<lambda>j. m ! j \<and> a ! j = t ! j) [0..<length m])"
  using assms
proof (induction a t m rule: list_induct3)
  case Nil
  then show ?case by simp
next
  case (Cons x xs y ys b bs)
  have upt: "[0..<Suc (length bs)] = 0 # map Suc [0..<length bs]"
    by (simp add: upt_conv_Cons map_Suc_upt del: upt_Suc)
  show ?case
    using Cons.IH
    by (simp add: upt filter_map comp_def del: upt_Suc)
qed

lemma count_masked:
  assumes "length A = length T" "length T = length M"
    "\<forall>i<length M. length (A ! i) = length (T ! i) \<and> length (T ! i) = length (M ! i)"
  shows "length (filter id (map2 (=) (concat (map2 select_row A M)) (concat (map2 select_row T M))))
       = sum_list (map (\<lambda>i. row_count (A ! i) (T ! i) (M ! i)) [0..<length M])"
  using assms
proof (induction A T M rule: list_induct3)
  case Nil
  then show ?case by simp
next
  case (Cons a A t T m M)
  have hd: "length a = length t" "length t = length m"
    using Cons.prems by auto
  have tl: "\<forall>i<length M. length (A ! i) = length (T ! i) \<and> length (T ! i) = length (M ! i)"
    using Cons.prems by auto
  have len: "length (select_row a m) = length (select_row t m)"
    using hd by (simp add: length_select_row)
  have upt: "[0..<Suc (length M)] = 0 # map Suc [0..<length M]"
    by (simp add: upt_conv_Cons map_Suc_upt del: upt_Suc)
  show ?case
    using Cons.IH[OF tl] len count_select_row[OF hd]
    by (simp add: upt comp_def row_count_def del: upt_Suc)
qed

lemma length_filter_product:
  "length (filter P (List.product xs ys))
     = sum_list (map (\<lambda>x. length (filter (\<lambda>y. P (x, y)) ys)) xs)"
  by (induction xs) (simp_all add: filter_map comp_def)

lemma has_shape_lengths: "has_shape b s t \<Longrightarrow> map length t = replicate b s"
  by (auto simp add: has_shape_def intro!: nth_equalityI)

lemma has_shape_nth: "has_shape b s t \<Longrightarrow> i < b \<Longrightarrow> length (t ! i) = s"
  by (simp add: has_shape_def)

lemma has_shape_size: "has_shape b s t \<Longrightarrow> 0 < b \<Longrightarrow> size0 t = b \<and> size1 t = s"
  by (cases t) (auto simp add: has_shape_def size0_def size1_def)

lemma expand_dim_same: "length xs = n \<Longrightarrow> expand_dim n xs = xs"
  by (simp add: expand_dim_def)

lemma expand2_same: "has_shape n s t \<Longrightarrow> expand2 n s t = t"
proof -
  assume h: "has_shape n s t"
  then have "map (expand_dim s) t = t"
    by (intro map_idI) (simp add: has_shape_def expand_dim_def)
  then show ?thesis using h by (simp add: expand2_def has_shape_def expand_dim_def)
qed

lemma has_shape_logical_not: "has_shape n s msk \<Longrightarrow> has_shape n s (logical_not msk)"
  by (auto simp add: has_shape_def logical_not_def)

lemma masked_select_same_shape:
  assumes t: "has_shape n s t" and m: "has_shape n s msk"
  shows "masked_select t msk = Inr (concat (map2 select_row t msk))"
proof (cases "n = 0")
  case True
  then have "t = []" "msk = []" using t m by (simp_all add: has_shape_def)
  then show ?thesis
    by (simp add: masked_select_def size0_def size1_def broadcastable_def broadcast_size_def
        expand2_def expand_dim_def)
next
  case False
  then have sz: "size0 t = n" "size1 t = s" "size0 msk = n" "size1 msk = s"
    using has_shape_size[OF t] has_shape_size[OF m] by simp_all
  have bs: "broadcast_size n n = n" "broadcast_size s s = s"
    by (simp_all add: broadcast_size_def)
  show ?thesis
    unfolding masked_select_def sz bs Let_def
    by (simp add: broadcastable_def expand2_same[OF t] expand2_same[OF m])
qed

lemma expand_as_same_shape:
  assumes m: "has_shape n s tm" and t: "has_shape n s token"
  shows "expand_as tm token = Inr tm"
proof (cases "n = 0")
  case True
  then have "tm = []" "token = []" using t m by (simp_all add: has_shape_def)
  then show ?thesis
    by (simp add: expand_as_def expanded_mask_def size0_def size1_def expand2_def expand_dim_def)
next
  case False
  then have sz: "size0 token = n" "size1 token = s" "size0 tm = n" "size1 tm = s"
    using has_shape_size[OF t] has_shape_size[OF m] by simp_all
  show ?thesis
    unfolding expand_as_def expanded_mask_def sz
    by (simp add: expand2_same[OF m])
qed

lemma expanded_mask_same_shape:
  assumes m: "has_shape n s tm" and t: "has_shape n s token"
  shows "expanded_mask tm token = tm"
  using expand_as_same_shape[OF m t] by (simp add: expand_as_def split: if_splits)

lemma length_concat_select:
  assumes "length X = length M" "\<forall>i<length M. length (X ! i) = length (M ! i)"
  shows "length (concat (map2 select_row X M)) = length (filter id (concat M))"
  using assms
proof (induction X M rule: list_induct2)
  case Nil
  then show ?case by simp
next
  case (Cons x X m M)
  have "length x = length m" using Cons.prems by auto
  moreover have "\<forall>i<length M. length (X ! i) = length (M ! i)" using Cons.prems by auto
  ultimately show ?case using Cons.IH by (simp add: length_select_row id_def)
qed

lemma token_accuracy_count:
  fixes predictions :: "'a::linorder list list list"
  assumes p: "has_shape B S predictions" and v: "\<forall>row \<in> set predictions. [] \<notin> set row"
    and t: "has_shape B S targets" and m: "has_shape B S ignore_mask" and B: "0 < B"
  shows "token_accuracy predictions targets ignore_mask =
           round2 (tensor_truediv (int (token_matches predictions targets ignore_mask))
                     (int B * int S))"
proof -
  define A where "A = map (map int) (map (map argmax_idx) predictions)"
  define M where "M = logical_not ignore_mask"
  have am: "argmax_last predictions = Inr (map (map argmax_idx) predictions)"
    using v by (intro argmax_last_ok) auto
  have lenA: "length A = B" and lenM: "length M = B" and lenT: "length targets = B"
    using p t m by (simp_all add: A_def M_def logical_not_def has_shape_def)
  have rowA: "length (A ! i) = S" and rowM: "length (M ! i) = S" and rowT: "length (targets ! i) = S"
    if "i < B" for i
    using that p t m by (simp_all add: A_def M_def logical_not_def has_shape_def)
  have shA: "map length A = map length M"
    using lenA lenM rowA rowM by (intro nth_equalityI) auto
  have shT: "map length targets = map length M"
    using lenT lenM rowT rowM by (intro nth_equalityI) auto
  have hA: "has_shape B S A" and hM: "has_shape B S M"
    using p m by (simp_all add: A_def M_def logical_not_def has_shape_def)
  have selA: "masked_select A M = Inr (concat (map2 select_row A M))"
    using hA hM by (rule masked_select_same_shape)
  have selT: "masked_select targets M = Inr (concat (map2 select_row targets M))"
    using t hM by (rule masked_select_same_shape)
  have "length (concat (map2 select_row A M)) = length (concat (map2 select_row targets M))"
    using lenA lenM lenT rowA rowM rowT
    by (simp add: length_concat_select)
  then have teq: "tensor_eq (concat (map2 select_row A M)) (concat (map2 select_row targets M))
      = Inr (map2 (=) (concat (map2 select_row A M)) (concat (map2 select_row targets M)))"
    by (simp add: tensor_eq_def)
  have cnt: "length (filter id (map2 (=) (concat (map2 select_row A M)) (concat (map2 select_row targets M))))
      = sum_list (map (\<lambda>i. row_count (A ! i) (targets ! i) (M ! i)) [0..<length M])"
    using lenA lenM lenT rowA rowM rowT by (intro count_masked) auto
  have row: "row_count (A ! i) (targets ! i) (M ! i)
      = length (filter (\<lambda>j. \<not> ignore_mask ! i ! j
                  \<and> int (argmax_idx (predictions ! i ! j)) = targets ! i ! j) [0..<S])"
    if "i < B" for i
  proof -
    have li: "i < length predictions" "i < length ignore_mask"
      using that p m by (simp_all add: has_shape_def)
    have lj: "length (predictions ! i) = S" "length (ignore_mask ! i) = S"
      using that p m by (simp_all add: has_shape_nth)
    have "filter (\<lambda>j. M ! i ! j \<and> A ! i ! j = targets ! i ! j) [0..<S]
        = filter (\<lambda>j. \<not> ignore_mask ! i ! j
                  \<and> int (argmax_idx (predictions ! i ! j)) = targets ! i ! j) [0..<S]"
      using li lj by (intro filter_cong) (auto simp add: A_def M_def logical_not_def)
    then show ?thesis using rowM[OF that] by (simp add: row_count_def)
  qed
  have "sum_list (map (\<lambda>i. row_count (A ! i) (targets ! i) (M ! i)) [0..<B])
      = sum_list (map (\<lambda>i. length (filter (\<lambda>j. \<not> ignore_mask ! i ! j
                  \<and> int (argmax_idx (predictions ! i ! j)) = targets ! i ! j) [0..<S])) [0..<B])"
    using row by (intro arg_cong[where f=sum_list] map_cong) auto
  also have "\<dots> = token_matches predictions targets ignore_mask"
    using has_shape_size[OF p B] by (simp add: token_matches_def length_filter_product)
  finally have ts: "tensor_sum (map2 (=) (concat (map2 select_row A M)) (concat (map2 select_row targets M)))
      = int (token_matches predictions targets ignore_mask)"
    using cnt lenM by (simp add: tensor_sum_def)
  have sz: "size0 predictions = B" "size1 predictions = S"
    using has_shape_size[OF p B] by simp_all
  show ?thesis
    unfolding token_accuracy_def am sum.case A_def[symmetric] M_def[symmetric] selA selT teq ts sz
    by (rule refl)
qed

lemma token_matches_all:
  assumes "has_shape B S predictions" "0 < B"
    "\<forall>i<B. \<forall>j<S. \<not> ignore_mask ! i ! j \<and> int (argmax_idx (predictions ! i ! j)) = targets ! i ! j"
  shows "token_matches predictions targets ignore_mask = B * S"
proof -
  have "filter (\<lambda>(i, j). \<not> ignore_mask ! i ! j \<and> int (argmax_idx (predictions ! i ! j)) = targets ! i ! j)
          (List.product [0..<B] [0..<S]) = List.product [0..<B] [0..<S]"
    using assms(3) by (intro filter_True) auto
  then show ?thesis
    using has_shape_size[OF assms(1,2)] by (simp add: token_matches_def)
qed

lemma token_matches_none:
  assumes "has_shape B S predictions" "0 < B" "\<forall>i<B. \<forall>j<S. ignore_mask ! i ! j"
  shows "token_matches predictions targets ignore_mask = 0"
proof -
  have "filter (\<lambda>(i, j). \<not> ignore_mask ! i ! j \<and> int (argmax_idx (predictions ! i ! j)) = targets ! i ! j)
          (List.product [0..<B] [0..<S]) = []"
    using assms(3) by (auto simp add: filter_empty_conv)
  then show ?thesis
    using has_shape_size[OF assms(1,2)] by (simp add: token_matches_def)
qed

lemma fl_exact:
  assumes "\<bar>m\<bar> < 2 ^ p" "emin - (int p - 1) \<le> q" "int p + q \<le> emax + 1"
  shows "fl p emin emax (of_int m * 2 powi q) = Fin (of_int m * 2 powi q)"
proof -
  have "(of_int \<bar>m\<bar> :: rat) < of_int (2 ^ p)" using assms(1) by (simp only: of_int_less_iff)
  then have "of_int \<bar>m\<bar> * 2 powi q < (of_int (2 ^ p) :: rat) * 2 powi q"
    by (intro mult_strict_right_mono) auto
  also have "(of_int (2 ^ p) :: rat) * 2 powi q = 2 powi (int p) * 2 powi q" by simp
  also have "\<dots> = 2 powi (int p + q)" by (rule power_int_add[symmetric]) simp
  also have "\<dots> \<le> 2 powi (emax + 1)" using assms(3) by (intro power_int_increasing) auto
  finally have "\<bar>of_int m * 2 powi q :: rat\<bar> < 2 powi (emax + 1)"
    by (simp add: abs_mult)
  then show ?thesis
    using round_nearest_exact[OF assms(1,2)] by (simp add: fl_finite)
qed

lemma binary32_three_quarters: "binary32 (3 / 4) = Fin (3 / 4)"
  using fl_exact[of 3 24 "- 126" "- 2" 127] by (simp add: binary32_def)

lemma binary64_three_quarters: "binary64 (3 / 4) = Fin (3 / 4)"
  using fl_exact[of 3 53 "- 1022" "- 2" 1023] by (simp add: binary64_def)

lemma round2_three_quarters: "round2 (Fin (3 / 4)) = Inr (Fin (3 / 4))"
proof -
  have "rne (3 / 4 * 100) = 75" by (rule rne_eqI) simp_all
  then show ?thesis using binary64_three_quarters by (simp add: round2_def)
qed

lemma tensor_truediv_3_4: "tensor_truediv 3 4 = Fin (3 / 4)"
  using tensor_truediv_small[of 3 4] binary32_three_quarters by simp

lemma all_less_2: "(\<forall>i<2::nat. P i) \<longleftrightarrow> P 0 \<and> P 1"
  by (auto simp add: numeral_2_eq_2 less_Suc_eq)

section \<open>Frame and trace of the trainer\<close>

declare show_nat.simps [simp del]

lemma show_int_minus_one: "show_int (- 1) = ''-1''"
  by (simp add: show_int_def show_nat.simps)

lemma checkpoint_name_step_minus_one:
  "checkpoint_name e (- 1) t = ''bert_epoch'' @ show_int e @ ''_step-1_'' @ show_int t @ ''.pt''"
  by (simp add: checkpoint_name_def show_int_minus_one)

lemma save_checkpoint_None:
  "checkpoint_dir st = None \<Longrightarrow> save_checkpoint t e k l (st, w) = (st, w)"
  by (simp add: save_checkpoint_def)

lemma save_checkpoint_Some:
  "checkpoint_dir st = Some d \<Longrightarrow>
     save_checkpoint t e k l (st, w) =
       (st, w\<lparr>files := (files w)(joinpath d (checkpoint_name e k t) \<mapsto>
                   \<lparr>ck_epoch = e, model_state_dict = model st,
                    optimizer_state_dict = optimizer st, ck_loss = l\<rparr>),
               console := console w @ [Model_saved (checkpoint_name e k t)]\<rparr>)"
  by (simp add: save_checkpoint_def Let_def)

lemma save_checkpoint_frame:
  assumes "save_checkpoint t e k l (st, w) = (st', w')"
  shows "st' = st" "calls w' = calls w" "dom (files w) \<subseteq> dom (files w')"
    "\<And>p. files w' p \<noteq> files w p \<Longrightarrow>
       \<exists>d. checkpoint_dir st = Some d \<and> p = joinpath d (checkpoint_name e k t)"
  using assms by (auto simp add: save_checkpoint_def Let_def split: option.splits if_splits)

lemma train_step_frame:
  assumes "train_step c e nb i v (st, w, loc) = Inr (st', w', loc')"
  shows "files w' = files w" "calls w' = calls w" "checkpoint_dir st' = checkpoint_dir st"
    "epochs st' = epochs st" "current_epoch st' = current_epoch st"
    "batch_size st' = batch_size st" "ds_len st' = ds_len st" "batched_len st' = batched_len st"
    "print_every st' = print_every st" "accuracy_every st' = accuracy_every st"
  using assms
  by (auto simp add: train_step_def Let_def split: prod.splits if_splits sum.splits)

lemma train_loop_frame:
  assumes "train_loop c e nb i vs (st, w, loc) = Inr (st', w', loc')"
  shows "files w' = files w \<and> calls w' = calls w \<and> checkpoint_dir st' = checkpoint_dir st
    \<and> epochs st' = epochs st \<and> current_epoch st' = current_epoch st
    \<and> batch_size st' = batch_size st \<and> ds_len st' = ds_len st \<and> batched_len st' = batched_len st
    \<and> print_every st' = print_every st \<and> accuracy_every st' = accuracy_every st"
  using assms
proof (induction vs arbitrary: i st w loc)
  case Nil
  then show ?case by simp
next
  case (Cons v vs)
  from Cons.prems obtain st1 w1 loc1 where
    step: "train_step c e nb (int i + 1) v (st, w, loc) = Inr (st1, w1, loc1)"
    and rest: "train_loop c e nb (Suc i) vs (st1, w1, loc1) = Inr (st', w', loc')"
    by (auto split: sum.splits)
  show ?case
    using Cons.IH[OF rest] train_step_frame[OF step] by simp
qed

lemma train_frame:
  assumes "train c e (st, w) = Inr (l, st', w')"
  shows "files w' = files w" "calls w' = calls w" "checkpoint_dir st' = checkpoint_dir st"
    "epochs st' = epochs st" "current_epoch st' = current_epoch st"
proof -
  from assms obtain loc where
    "train_loop c e (int (length (loader c e))) 0 (loader c e)
       (st, w\<lparr>console := console w @ [Begin_epoch e]\<rparr>,
        \<lparr>average_nsp_loss = loss_zero c, average_mlm_loss = loss_zero c, loss_var = None\<rparr>)
     = Inr (st', w', loc)"
    by (auto simp add: train_def split: sum.splits option.splits)
  from train_loop_frame[OF this]
  show "files w' = files w" "calls w' = calls w" "checkpoint_dir st' = checkpoint_dir st"
    "epochs st' = epochs st" "current_epoch st' = current_epoch st"
    by simp_all
qed

lemma run_epochs_trace:
  assumes "run_epochs c clock es (st, w) = Inr (st', w')"
  shows "(\<exists>ls. length ls = length es
            \<and> calls w' = calls w @ concat (map2 (\<lambda>e l. [Train_call e, Save_call e (- 1) l]) es ls))
    \<and> checkpoint_dir st' = checkpoint_dir st \<and> epochs st' = epochs st
    \<and> dom (files w) \<subseteq> dom (files w')
    \<and> (\<forall>p. files w' p \<noteq> files w p \<longrightarrow>
          (\<exists>e \<in> set es. \<exists>d. checkpoint_dir st = Some d
              \<and> p = joinpath d (checkpoint_name e (- 1) (clock e))))
    \<and> (es \<noteq> [] \<longrightarrow> current_epoch st' = last es)
    \<and> (es = [] \<longrightarrow> st' = st \<and> w' = w)"
  using assms
proof (induction es arbitrary: st w)
  case Nil
  then show ?case by simp
next
  case (Cons e es)
  define st1 where "st1 = st\<lparr>current_epoch := e\<rparr>"
  define w1 where "w1 = w\<lparr>calls := calls w @ [Train_call e]\<rparr>"
  from Cons.prems obtain l st2 w2 where
    tr: "train c e (st1, w1) = Inr (l, st2, w2)"
    and rest: "run_epochs c clock es
        (save_checkpoint (clock e) (current_epoch st2) (- 1) l
           (st2, w2\<lparr>calls := calls w2 @ [Save_call (current_epoch st2) (- 1) l]\<rparr>))
        = Inr (st', w')"
    by (auto simp add: st1_def w1_def Let_def split: sum.splits)
  note fr = train_frame[OF tr]
  have ce: "current_epoch st2 = e" using fr(5) by (simp add: st1_def)
  define w3 where "w3 = w2\<lparr>calls := calls w2 @ [Save_call e (- 1) l]\<rparr>"
  obtain st4 w4 where sv: "save_checkpoint (clock e) e (- 1) l (st2, w3) = (st4, w4)"
    by (cases "save_checkpoint (clock e) e (- 1) l (st2, w3)")
  note sf = save_checkpoint_frame[OF sv]
  have rest': "run_epochs c clock es (st4, w4) = Inr (st', w')"
    using rest by (simp add: ce w3_def[symmetric] sv)
  note ih = Cons.IH[OF rest']
  from ih obtain ls where ls: "length ls = length es"
    "calls w' = calls w4 @ concat (map2 (\<lambda>e l. [Train_call e, Save_call e (- 1) l]) es ls)"
    by blast
  have c4: "calls w4 = calls w @ [Train_call e, Save_call e (- 1) l]"
    using sf(2) fr(2) by (simp add: w3_def w1_def)
  have dir: "checkpoint_dir st4 = checkpoint_dir st"
    using sf(1) fr(3) by (simp add: st1_def)
  have ep: "epochs st4 = epochs st"
    using sf(1) fr(4) by (simp add: st1_def)
  have f3: "files w3 = files w"
    using fr(1) by (simp add: w3_def w1_def)
  have "length (l # ls) = length (e # es)
      \<and> calls w' = calls w @ concat (map2 (\<lambda>e l. [Train_call e, Save_call e (- 1) l]) (e # es) (l # ls))"
    using ls c4 by simp
  then have A: "\<exists>ls. length ls = length (e # es)
      \<and> calls w' = calls w @ concat (map2 (\<lambda>e l. [Train_call e, Save_call e (- 1) l]) (e # es) ls)"
    by blast
  have B: "checkpoint_dir st' = checkpoint_dir st" "epochs st' = epochs st"
    using ih dir ep by simp_all
  have C: "dom (files w) \<subseteq> dom (files w')"
    using ih sf(3) f3 by auto
  have D: "\<exists>e' \<in> set (e # es). \<exists>d. checkpoint_dir st = Some d
              \<and> p = joinpath d (checkpoint_name e' (- 1) (clock e'))"
    if "files w' p \<noteq> files w p" for p
  proof (cases "files w4 p = files w p")
    case True
    with that have "files w' p \<noteq> files w4 p" by simp
    with ih dir show ?thesis by auto
  next
    case False
    then have "files w4 p \<noteq> files w3 p" by (simp add: f3)
    from sf(4)[OF this] fr(3) show ?thesis by (auto simp add: st1_def)
  qed
  have E: "current_epoch st' = last (e # es)"
  proof (cases "es = []")
    case True
    with ih have "st' = st4" by simp
    then show ?thesis using True sf(1) ce by simp
  next
    case False
    with ih show ?thesis by simp
  qed
  from A B C D E show ?case by blast
qed

lemma binary64_exact:
  "\<bar>m\<bar> < 2 ^ 53 \<Longrightarrow> - 1074 \<le> q \<Longrightarrow> q \<le> 971 \<Longrightarrow>
     binary64 (of_int m * 2 powi q) = Fin (of_int m * 2 powi q)"
  unfolding binary64_def by (rule fl_exact) simp_all

lemma percentage_1_4_2: "percentage 1 4 2 = Inr (Fin 50)"
proof -
  have "binary64 (of_int 1 * 2 powi (- 1)) = Fin (of_int 1 * 2 powi (- 1))"
    by (rule binary64_exact) simp_all
  then have "int_truediv 2 4 = Inr (Fin (1 / 2))"
    by (simp add: int_truediv_def)
  then show ?thesis
    using binary64_int[of 50] round2_int[of 50]
    by (simp add: percentage_def int_floordiv_def)
qed

lemma percentage_1_4_4: "percentage 1 4 4 = Inr (Fin 100)"
  using percentage_full[of 4 1] by simp

lemma example_expand_as:
  "expand_as [[False, True]] [[[0, 1], [3, 1::rat]]] = Inr [[False, True]]"
  by (rule expand_as_same_shape[where n = 1 and s = 2]) (simp_all add: has_shape_def)

lemma example_train:
  assumes "batch_size st = 1" "ds_len st = 4" "batched_len st = 4" "print_every st = 2"
    "accuracy_every st = 5"
  shows "train example_collaborators e (st, w)
   = Inr (of_int (model st) + 4,
          st\<lparr>model := model st + 4, optimizer := optimizer st + 8\<rparr>,
          w\<lparr>console := console w @
             [Begin_epoch e,
              Progress \<lparr>line_epoch = e + 1, line_index = 2, line_total = 4, line_passed = Fin 50,
                        line_nsp_loss = (of_int (model st) + (of_int (model st) + 1)) / 2,
                        line_mlm_loss = 1, line_accuracy = None\<rparr>,
              Scalar_loss ''NSP loss'' ((of_int (model st) + (of_int (model st) + 1)) / 2) (e * 4 + 2),
              Scalar_loss ''MLM loss'' 1 (e * 4 + 2),
              Progress \<lparr>line_epoch = e + 1, line_index = 4, line_total = 4, line_passed = Fin 100,
                        line_nsp_loss = (of_int (model st) + 2 + (of_int (model st) + 3)) / 2,
                        line_mlm_loss = 1, line_accuracy = None\<rparr>,
              Scalar_loss ''NSP loss'' ((of_int (model st) + 2 + (of_int (model st) + 3)) / 2) (e * 4 + 4),
              Scalar_loss ''MLM loss'' 1 (e * 4 + 4)]\<rparr>)"
  using assms
  by (simp add: train_def train_step_def example_collaborators_def
      example_batch_def Let_def tick_accuracy_def accuracy_scalars_def
      example_expand_as percentage_1_4_2 percentage_1_4_4 algebra_simps)

lemma example_run_calls:
  "\<exists>st' w'. run example_collaborators example_clock (example_trainer, example_world) = Inr (st', w')
     \<and> calls w' = [Train_call 0, Save_call 0 (- 1) 4, Train_call 1, Save_call 1 (- 1) 8]
     \<and> files w' ''ckpt/bert_epoch1_step-1_71.pt''
         = Some \<lparr>ck_epoch = 1, model_state_dict = 8, optimizer_state_dict = 16, ck_loss = 8\<rparr>"
proof -
  have up: "[0..1::int] = [0, 1]" by (simp add: upto.simps)
  show ?thesis
    unfolding run_def
    by (simp add: up example_train Let_def save_checkpoint_def example_world_def
        example_clock_def checkpoint_name_def show_int_def show_nat.simps joinpath_def
        example_trainer_def)
qed

lemma run_epochs_saved:
  assumes "run_epochs c clock es (st, w) = Inr (st', w')" "checkpoint_dir st = Some d" "e \<in> set es"
  shows "joinpath d (checkpoint_name e (- 1) (clock e)) \<in> dom (files w')"
  using assms
proof (induction es arbitrary: st w)
  case Nil
  then show ?case by simp
next
  case (Cons a es)
  define st1 where "st1 = st\<lparr>current_epoch := a\<rparr>"
  define w1 where "w1 = w\<lparr>calls := calls w @ [Train_call a]\<rparr>"
  from Cons.prems(1) obtain l st2 w2 where
    tr: "train c a (st1, w1) = Inr (l, st2, w2)"
    and rest: "run_epochs c clock es
        (save_checkpoint (clock a) (current_epoch st2) (- 1) l
           (st2, w2\<lparr>calls := calls w2 @ [Save_call (current_epoch st2) (- 1) l]\<rparr>))
        = Inr (st', w')"
    by (auto simp add: st1_def w1_def Let_def split: sum.splits)
  note fr = train_frame[OF tr]
  have ce: "current_epoch st2 = a" using fr(5) by (simp add: st1_def)
  have d2: "checkpoint_dir st2 = Some d" using fr(3) Cons.prems(2) by (simp add: st1_def)
  define w3 where "w3 = w2\<lparr>calls := calls w2 @ [Save_call a (- 1) l]\<rparr>"
  define w4 where "w4 = w3\<lparr>files := (files w3)(joinpath d (checkpoint_name a (- 1) (clock a)) \<mapsto>
                   \<lparr>ck_epoch = a, model_state_dict = model st2,
                    optimizer_state_dict = optimizer st2, ck_loss = l\<rparr>),
               console := console w3 @ [Model_saved (checkpoint_name a (- 1) (clock a))]\<rparr>"
  have sv: "save_checkpoint (clock a) a (- 1) l (st2, w3) = (st2, w4)"
    unfolding w4_def by (rule save_checkpoint_Some[OF d2])
  have rest': "run_epochs c clock es (st2, w4) = Inr (st', w')"
    using rest by (simp add: ce w3_def[symmetric] sv)
  show ?case
  proof (cases "e = a")
    case True
    have "joinpath d (checkpoint_name a (- 1) (clock a)) \<in> dom (files w4)"
      by (simp add: w4_def)
    then show ?thesis
      using run_epochs_trace[OF rest'] True by blast
  next
    case False
    with Cons.prems(3) have "e \<in> set es" by simp
    from Cons.IH[OF rest' d2 this] show ?thesis .
  qed
qed

lemma hd_concat_calls:
  assumes "length ls = length es" "es \<noteq> []"
  shows "(xs @ concat (map2 (\<lambda>e l. [Train_call e, Save_call e (- 1) l]) es ls)) ! length xs
       = Train_call (hd es)"
proof -
  obtain e es' where es: "es = e # es'" using assms(2) by (cases es) auto
  with assms(1) obtain l ls' where "ls = l # ls'" by (cases ls) auto
  with es show ?thesis by (simp add: nth_append)
qed

lemma save_calls_step:
  assumes "length ls = length es"
    "Save_call e k l \<in> set (concat (map2 (\<lambda>e l. [Train_call e, Save_call e (- 1) l]) es ls))"
  shows "k = - 1"
  using assms by (auto simp add: in_set_zip)

lemma load_checkpoint_Some:
  "files w path = Some ck \<Longrightarrow>
     load_checkpoint path (st, w) =
       Inr (st\<lparr>current_epoch := ck_epoch ck, model := model_state_dict ck,
               optimizer := optimizer_state_dict ck\<rparr>,
            w\<lparr>console := console w @ [Restoring path, Restored]\<rparr>)"
  by (simp add: load_checkpoint_def)

lemma example_resume:
  "\<exists>st2 w2. run example_collaborators example_clock
       (example_trainer\<lparr>current_epoch := 1, model := 8, optimizer := 16\<rparr>, w) = Inr (st2, w2)"
proof -
  have up: "[1..1::int] = [1]" by (simp add: upto.simps)
  show ?thesis
    unfolding run_def
    by (simp add: up example_train Let_def example_trainer_def)
qed

section \<open>One epoch of training\<close>

lemma train_loop_append:
  "train_loop c e nb i (xs @ ys) s =
     (case train_loop c e nb i xs s of
        Inl x \<Rightarrow> Inl x
      | Inr s' \<Rightarrow> train_loop c e nb (i + length xs) ys s')"
  by (induction xs arbitrary: i s) (simp_all split: sum.splits)

lemma progress_lines_append:
  "progress_lines (xs @ ys) = progress_lines xs @ progress_lines ys"
  by (induction xs rule: progress_lines.induct) simp_all

lemma loss_scalars_append:
  "loss_scalars (xs @ ys) = loss_scalars xs @ loss_scalars ys"
  by (induction xs rule: loss_scalars.induct) simp_all

lemma accuracy_scalars_silent:
  "progress_lines (accuracy_scalars acc g) = []" "loss_scalars (accuracy_scalars acc g) = []"
  by (simp_all add: accuracy_scalars_def split: option.splits)

lemma expand_as_Inr: "expand_as tm token = Inr x \<Longrightarrow> x = expanded_mask tm token"
  by (simp add: expand_as_def split: if_splits)

lemma train_step_Inr:
  assumes "train_step c e nb idx v (st, w, loc) = Inr (st', w', loc')"
  shows "(model st', optimizer st') = optimizer_step c (model st, optimizer st) v"
    and "loss_var loc' = Some (loss_add c (loss_token_of c (model st) v) (loss_nsp_of c (model st) v))"
    and "print_every st \<noteq> 0"
    and "idx mod print_every st \<noteq> 0 \<Longrightarrow>
           console w' = console w
           \<and> average_nsp_loss loc' = loss_add c (average_nsp_loss loc) (loss_nsp_of c (model st) v)
           \<and> average_mlm_loss loc' = loss_add c (average_mlm_loss loc) (loss_token_of c (model st) v)"
    and "idx mod print_every st = 0 \<Longrightarrow>
           average_nsp_loss loc' = loss_zero c \<and> average_mlm_loss loc' = loss_zero c
           \<and> progress_lines (console w') = progress_lines (console w) @
                [(e + 1, idx, batched_len st,
                  loss_div c (loss_add c (average_nsp_loss loc) (loss_nsp_of c (model st) v))
                    (print_every st),
                  loss_div c (loss_add c (average_mlm_loss loc) (loss_token_of c (model st) v))
                    (print_every st))]
           \<and> loss_scalars (console w') = loss_scalars (console w) @
                [(''NSP loss'',
                  loss_div c (loss_add c (average_nsp_loss loc) (loss_nsp_of c (model st) v))
                    (print_every st), e * nb + idx),
                 (''MLM loss'',
                  loss_div c (loss_add c (average_mlm_loss loc) (loss_token_of c (model st) v))
                    (print_every st), e * nb + idx)]"
  using assms
  by (auto simp add: train_step_def Let_def loss_token_of_def loss_nsp_of_def forward_def
      progress_lines_append loss_scalars_append accuracy_scalars_silent
      dest!: expand_as_Inr split: prod.splits if_splits sum.splits)

lemma tick_iff:
  assumes "p \<noteq> 0"
  shows "(int i + 1) mod p = 0 \<longleftrightarrow> Suc i mod nat \<bar>p\<bar> = 0"
proof -
  have "(int i + 1) mod p = 0 \<longleftrightarrow> p dvd int (Suc i)"
    by (simp add: mod_eq_0_iff_dvd add.commute)
  also have "\<dots> \<longleftrightarrow> \<bar>p\<bar> dvd int (Suc i)" by simp
  also have "\<dots> \<longleftrightarrow> int (nat \<bar>p\<bar>) dvd int (Suc i)" by simp
  also have "\<dots> \<longleftrightarrow> nat \<bar>p\<bar> dvd Suc i" by (rule int_dvd_int_iff)
  also have "\<dots> \<longleftrightarrow> Suc i mod nat \<bar>p\<bar> = 0" by (simp add: mod_eq_0_iff_dvd)
  finally show ?thesis .
qed

lemma ticks_0 [simp]: "ticks k 0 = []"
  by (simp add: ticks_def)

lemma ticks_Suc: "ticks k (Suc i) = ticks k i @ (if Suc i mod k = 0 then [Suc i] else [])"
  by (simp add: ticks_def)

lemma window_no_tick:
  assumes "0 < k" "Suc i mod k \<noteq> 0"
  shows "Suc i - Suc i mod k = i - i mod k"
proof -
  have "Suc i mod k = Suc (i mod k)" using assms by (simp add: mod_Suc split: if_splits)
  moreover have "i mod k \<le> i" by simp
  ultimately show ?thesis by simp
qed

lemma window_tick:
  assumes "0 < k" "Suc i mod k = 0"
  shows "i - i mod k = Suc i - k"
proof -
  have "Suc (i mod k) = k" using assms by (simp add: mod_Suc split: if_splits)
  moreover have "i mod k \<le> i" by simp
  ultimately show ?thesis by arith
qed

lemma foldl_snoc_window:
  assumes "i < length ls" "d \<le> i"
  shows "foldl f z (drop d (take (Suc i) ls)) = f (foldl f z (drop d (take i ls))) (ls ! i)"
  using assms by (simp add: take_Suc_conv_app_nth)

lemma params_after_Suc:
  "i < length bs \<Longrightarrow>
     params_after c p (take (Suc i) bs) = optimizer_step c (params_after c p (take i bs)) (bs ! i)"
  by (simp add: params_after_def take_Suc_conv_app_nth)

lemma nsp_losses_nth:
  "i < length bs \<Longrightarrow>
     nsp_losses c p bs ! i = loss_nsp_of c (fst (params_after c p (take i bs))) (bs ! i)"
  by (simp add: nsp_losses_def)

lemma mlm_losses_nth:
  "i < length bs \<Longrightarrow>
     mlm_losses c p bs ! i = loss_token_of c (fst (params_after c p (take i bs))) (bs ! i)"
  by (simp add: mlm_losses_def)

lemma length_losses [simp]:
  "length (nsp_losses c p bs) = length bs" "length (mlm_losses c p bs) = length bs"
  by (simp_all add: nsp_losses_def mlm_losses_def)

lemma loop_inv_init:
  assumes "average_nsp_loss loc = loss_zero c" "average_mlm_loss loc = loss_zero c"
    "loss_var loc = None"
  shows "loop_inv c e nb st (console w) bs 0 (st, w, loc)"
  using assms by (simp add: loop_inv_def Let_def params_after_def)

lemma loop_inv_step:
  assumes i: "i < length bs"
    and inv: "loop_inv c e nb st out bs i (st1, w1, loc1)"
    and step: "train_step c e nb (int i + 1) (bs ! i) (st1, w1, loc1) = Inr (st2, w2, loc2)"
  shows "loop_inv c e nb st out bs (Suc i) (st2, w2, loc2)"
proof -
  define p0 where "p0 = (model st, optimizer st)"
  define N where "N = nsp_losses c p0 bs"
  define M where "M = mlm_losses c p0 bs"
  define p where "p = print_every st"
  define k where "k = nat \<bar>p\<bar>"
  define f where "f = loss_add c"
  define z where "z = loss_zero c"
  note I = inv[unfolded loop_inv_def Let_def prod.case, folded p0_def, folded N_def M_def p_def,
      folded k_def f_def z_def]
  have par1: "(model st1, optimizer st1) = params_after c p0 (take i bs)"
    and pe1: "print_every st1 = p" and bl1: "batched_len st1 = batched_len st"
    and an1: "average_nsp_loss loc1 = foldl f z (drop (i - i mod k) (take i N))"
    and am1: "average_mlm_loss loc1 = foldl f z (drop (i - i mod k) (take i M))"
    and pl1: "progress_lines (console w1)
               = progress_lines out
                 @ map (\<lambda>j. (e + 1, int j, batched_len st,
                              loss_div c (window_sum c k N j) p,
                              loss_div c (window_sum c k M j) p))
                     (ticks k i)"
    and ls1: "loss_scalars (console w1)
               = loss_scalars out
                 @ concat (map (\<lambda>j. [(''NSP loss'', loss_div c (window_sum c k N j) p,
                                       e * nb + int j),
                                      (''MLM loss'', loss_div c (window_sum c k M j) p,
                                       e * nb + int j)])
                             (ticks k i))"
    using I by simp_all
  note S = train_step_Inr[OF step]
  note F = train_step_frame[OF step]
  have m1: "model st1 = fst (params_after c p0 (take i bs))"
    using par1 by (metis fst_conv)
  have Ni: "loss_nsp_of c (model st1) (bs ! i) = N ! i"
    unfolding N_def m1 by (rule nsp_losses_nth[OF i, symmetric])
  have Mi: "loss_token_of c (model st1) (bs ! i) = M ! i"
    unfolding M_def m1 by (rule mlm_losses_nth[OF i, symmetric])
  have lN: "i < length N" and lM: "i < length M"
    using i by (simp_all add: N_def M_def)
  have p: "p \<noteq> 0" using S(3) pe1 by simp
  then have k: "0 < k" by (simp add: k_def)
  have tick: "(int i + 1) mod print_every st1 = 0 \<longleftrightarrow> Suc i mod k = 0"
    unfolding pe1 k_def by (rule tick_iff[OF p])
  have d: "i - i mod k \<le> i" by simp
  have accN: "f (foldl f z (drop (i - i mod k) (take i N))) (N ! i)
      = foldl f z (drop (i - i mod k) (take (Suc i) N))"
    by (rule foldl_snoc_window[OF lN d, symmetric])
  have accM: "f (foldl f z (drop (i - i mod k) (take i M))) (M ! i)
      = foldl f z (drop (i - i mod k) (take (Suc i) M))"
    by (rule foldl_snoc_window[OF lM d, symmetric])
  have par2: "(model st2, optimizer st2) = params_after c p0 (take (Suc i) bs)"
    using S(1) par1 by (simp add: params_after_Suc[OF i])
  have pe2: "print_every st2 = p" and bl2: "batched_len st2 = batched_len st"
    using F pe1 bl1 by simp_all
  have lv2: "loss_var loc2 = Some (f (M ! i) (N ! i))"
    using S(2) by (simp add: Ni Mi f_def)
  show ?thesis
  proof (cases "Suc i mod k = 0")
    case False
    then have nt: "(int i + 1) mod print_every st1 \<noteq> 0" using tick by simp
    note T = S(4)[OF nt]
    have w: "Suc i - Suc i mod k = i - i mod k" by (rule window_no_tick[OF k False])
    have an2: "average_nsp_loss loc2 = foldl f z (drop (Suc i - Suc i mod k) (take (Suc i) N))"
      using T unfolding f_def[symmetric] by (simp add: an1 Ni w accN)
    have am2: "average_mlm_loss loc2 = foldl f z (drop (Suc i - Suc i mod k) (take (Suc i) M))"
      using T unfolding f_def[symmetric] by (simp add: am1 Mi w accM)
    have tk: "ticks k (Suc i) = ticks k i" using False by (simp add: ticks_Suc)
    have c2: "console w2 = console w1" using T by simp
    show ?thesis
      unfolding loop_inv_def Let_def prod.case
      unfolding p0_def[symmetric] N_def[symmetric] M_def[symmetric] p_def[symmetric]
        k_def[symmetric] f_def[symmetric] z_def[symmetric] tk c2
      using par2 pe2 bl2 an2 am2 lv2 pl1 ls1 by simp
  next
    case True
    then have t: "(int i + 1) mod print_every st1 = 0" using tick by simp
    note T = S(5)[OF t]
    have w: "i - i mod k = Suc i - k" by (rule window_tick[OF k True])
    have an2: "average_nsp_loss loc2 = foldl f z (drop (Suc i - Suc i mod k) (take (Suc i) N))"
      using T True by (simp add: z_def)
    have am2: "average_mlm_loss loc2 = foldl f z (drop (Suc i - Suc i mod k) (take (Suc i) M))"
      using T True by (simp add: z_def)
    have "f (average_nsp_loss loc1) (loss_nsp_of c (model st1) (bs ! i))
        = foldl f z (drop (i - i mod k) (take (Suc i) N))"
      by (simp only: an1 Ni accN)
    then have wn: "f (average_nsp_loss loc1) (loss_nsp_of c (model st1) (bs ! i))
        = window_sum c k N (Suc i)"
      by (simp only: w window_sum_def f_def z_def)
    have "f (average_mlm_loss loc1) (loss_token_of c (model st1) (bs ! i))
        = foldl f z (drop (i - i mod k) (take (Suc i) M))"
      by (simp only: am1 Mi accM)
    then have wm: "f (average_mlm_loss loc1) (loss_token_of c (model st1) (bs ! i))
        = window_sum c k M (Suc i)"
      by (simp only: w window_sum_def f_def z_def)
    have tk: "ticks k (Suc i) = ticks k i @ [Suc i]" using True by (simp add: ticks_Suc)
    have idx: "int i + 1 = int (Suc i)" by simp
    have pl2: "progress_lines (console w2)
               = progress_lines out
                 @ map (\<lambda>j. (e + 1, int j, batched_len st,
                              loss_div c (window_sum c k N j) p,
                              loss_div c (window_sum c k M j) p))
                     (ticks k (Suc i))"
      using T unfolding tk pl1 f_def[symmetric] wn wm pe1 bl1 idx by simp
    have ls2: "loss_scalars (console w2)
               = loss_scalars out
                 @ concat (map (\<lambda>j. [(''NSP loss'', loss_div c (window_sum c k N j) p,
                                       e * nb + int j),
                                      (''MLM loss'', loss_div c (window_sum c k M j) p,
                                       e * nb + int j)])
                             (ticks k (Suc i)))"
      using T unfolding tk ls1 f_def[symmetric] wn wm pe1 idx by simp
    show ?thesis
      unfolding loop_inv_def Let_def prod.case
      unfolding p0_def[symmetric] N_def[symmetric] M_def[symmetric] p_def[symmetric]
        k_def[symmetric] f_def[symmetric] z_def[symmetric]
      using par2 pe2 bl2 an2 am2 lv2 pl2 ls2 by simp
  qed
qed

lemma loop_inv_loop:
  assumes "i \<le> length bs" "train_loop c e nb 0 (take i bs) (st, w, loc) = Inr s"
    "average_nsp_loss loc = loss_zero c" "average_mlm_loss loc = loss_zero c" "loss_var loc = None"
  shows "loop_inv c e nb st (console w) bs i s"
  using assms(1,2)
proof (induction i arbitrary: s)
  case 0
  then show ?case
    using loop_inv_init[OF assms(3-5), where e = e and nb = nb and st = st and w = w and bs = bs]
    by auto
next
  case (Suc i)
  then have i: "i < length bs" by simp
  have tk: "take (Suc i) bs = take i bs @ [bs ! i]" by (rule take_Suc_conv_app_nth[OF i])
  from Suc.prems(2) obtain s1 where
    pre: "train_loop c e nb 0 (take i bs) (st, w, loc) = Inr s1"
    and step: "train_step c e nb (int i + 1) (bs ! i) s1 = Inr s"
    using i by (auto simp add: tk train_loop_append split: sum.splits)
  have inv: "loop_inv c e nb st (console w) bs i s1"
    using Suc.IH[OF _ pre] i by simp
  obtain st1 w1 loc1 where s1: "s1 = (st1, w1, loc1)" by (cases s1)
  obtain st2 w2 loc2 where s: "s = (st2, w2, loc2)" by (cases s)
  show ?case
    using loop_inv_step[OF i inv[unfolded s1] step[unfolded s1 s]] by (simp add: s)
qed

lemma train_Inr_loop:
  assumes "train c e (st, w) = Inr (l, st', w')"
  shows "\<exists>loc'. train_loop c e (int (length (loader c e))) 0 (loader c e)
            (st, w\<lparr>console := console w @ [Begin_epoch e]\<rparr>,
             \<lparr>average_nsp_loss = loss_zero c, average_mlm_loss = loss_zero c, loss_var = None\<rparr>)
          = Inr (st', w', loc') \<and> loss_var loc' = Some l"
  using assms by (auto simp add: train_def split: sum.splits option.splits)

lemma train_invariant:
  assumes "train c e (st, w) = Inr (l, st', w')"
  shows "\<exists>loc'. loop_inv c e (int (length (loader c e))) st (console w @ [Begin_epoch e])
            (loader c e) (length (loader c e)) (st', w', loc') \<and> loss_var loc' = Some l"
proof -
  from train_Inr_loop[OF assms] obtain loc' where
    lp: "train_loop c e (int (length (loader c e))) 0 (loader c e)
            (st, w\<lparr>console := console w @ [Begin_epoch e]\<rparr>,
             \<lparr>average_nsp_loss = loss_zero c, average_mlm_loss = loss_zero c, loss_var = None\<rparr>)
          = Inr (st', w', loc')"
    and lv: "loss_var loc' = Some l"
    by blast
  have "loop_inv c e (int (length (loader c e))) st
          (console (w\<lparr>console := console w @ [Begin_epoch e]\<rparr>))
          (loader c e) (length (loader c e)) (st', w', loc')"
    by (rule loop_inv_loop[where loc = "\<lparr>average_nsp_loss = loss_zero c,
          average_mlm_loss = loss_zero c, loss_var = None\<rparr>"]) (simp_all add: lp)
  with lv show ?thesis by auto
qed

lemma train_last_loss:
  assumes "train c e (st, w) = Inr (l, st', w')"
  shows "loader c e \<noteq> []"
    and "l = loss_add c
               (loss_token_of c (fst (params_after c (model st, optimizer st) (butlast (loader c e))))
                  (last (loader c e)))
               (loss_nsp_of c (fst (params_after c (model st, optimizer st) (butlast (loader c e))))
                  (last (loader c e)))"
proof -
  let ?bs = "loader c e"
  from train_invariant[OF assms] obtain loc' where
    inv: "loop_inv c e (int (length ?bs)) st (console w @ [Begin_epoch e]) ?bs (length ?bs)
            (st', w', loc')"
    and lv: "loss_var loc' = Some l"
    by blast
  from inv have lv': "loss_var loc' = (if length ?bs = 0 then None
      else Some (loss_add c (mlm_losses c (model st, optimizer st) ?bs ! (length ?bs - 1))
                   (nsp_losses c (model st, optimizer st) ?bs ! (length ?bs - 1))))"
    by (simp add: loop_inv_def Let_def)
  show ne: "?bs \<noteq> []" using lv lv' by auto
  then have n: "length ?bs - Suc 0 < length ?bs" by simp
  have tk: "take (length ?bs - Suc 0) ?bs = butlast ?bs" by (simp add: butlast_conv_take)
  have la: "?bs ! (length ?bs - Suc 0) = last ?bs" using ne by (simp add: last_conv_nth)
  show "l = loss_add c
               (loss_token_of c (fst (params_after c (model st, optimizer st) (butlast ?bs)))
                  (last ?bs))
               (loss_nsp_of c (fst (params_after c (model st, optimizer st) (butlast ?bs)))
                  (last ?bs))"
    using lv lv' ne by (simp add: nsp_losses_nth[OF n] mlm_losses_nth[OF n] tk la)
qed

lemma train_empty:
  assumes "loader c e = []"
  shows "train c e (st, w) = Inl UnboundLocalError"
  using assms by (simp add: train_def)

lemma train_progress:
  assumes "train c e (st, w) = Inr (l, st', w')"
  shows "progress_lines (console w')
           = progress_lines (console w)
             @ map (\<lambda>j. (e + 1, int j, batched_len st,
                      loss_div c (window_sum c (nat \<bar>print_every st\<bar>)
                                    (nsp_losses c (model st, optimizer st) (loader c e)) j)
                        (print_every st),
                      loss_div c (window_sum c (nat \<bar>print_every st\<bar>)
                                    (mlm_losses c (model st, optimizer st) (loader c e)) j)
                        (print_every st)))
                 (ticks (nat \<bar>print_every st\<bar>) (length (loader c e)))"
    and "loss_scalars (console w')
           = loss_scalars (console w)
             @ concat (map (\<lambda>j.
                     [(''NSP loss'',
                       loss_div c (window_sum c (nat \<bar>print_every st\<bar>)
                                     (nsp_losses c (model st, optimizer st) (loader c e)) j)
                         (print_every st),
                       e * int (length (loader c e)) + int j),
                      (''MLM loss'',
                       loss_div c (window_sum c (nat \<bar>print_every st\<bar>)
                                     (mlm_losses c (model st, optimizer st) (loader c e)) j)
                         (print_every st),
                       e * int (length (loader c e)) + int j)])
                 (ticks (nat \<bar>print_every st\<bar>) (length (loader c e))))"
proof -
  from train_invariant[OF assms] obtain loc' where
    inv: "loop_inv c e (int (length (loader c e))) st (console w @ [Begin_epoch e]) (loader c e)
            (length (loader c e)) (st', w', loc')"
    by blast
  show "progress_lines (console w')
           = progress_lines (console w)
             @ map (\<lambda>j. (e + 1, int j, batched_len st,
                      loss_div c (window_sum c (nat \<bar>print_every st\<bar>)
                                    (nsp_losses c (model st, optimizer st) (loader c e)) j)
                        (print_every st),
                      loss_div c (window_sum c (nat \<bar>print_every st\<bar>)
                                    (mlm_losses c (model st, optimizer st) (loader c e)) j)
                        (print_every st)))
                 (ticks (nat \<bar>print_every st\<bar>) (length (loader c e)))"
    using inv by (simp add: loop_inv_def Let_def progress_lines_append)
  show "loss_scalars (console w')
           = loss_scalars (console w)
             @ concat (map (\<lambda>j.
                     [(''NSP loss'',
                       loss_div c (window_sum c (nat \<bar>print_every st\<bar>)
                                     (nsp_losses c (model st, optimizer st) (loader c e)) j)
                         (print_every st),
                       e * int (length (loader c e)) + int j),
                      (''MLM loss'',
                       loss_div c (window_sum c (nat \<bar>print_every st\<bar>)
                                     (mlm_losses c (model st, optimizer st) (loader c e)) j)
                         (print_every st),
                       e * int (length (loader c e)) + int j)])
                 (ticks (nat \<bar>print_every st\<bar>) (length (loader c e))))"
    using inv by (simp add: loop_inv_def Let_def loss_scalars_append)
qed

lemma round2_returns:
  assumes "\<bar>v\<bar> \<le> 2 powi 1000"
  shows "\<exists>z. round2 (Fin v) = Inr (Fin z)"
proof -
  define k :: rat where "k = of_int (rne (v * 100))"
  have "\<bar>k - v * 100\<bar> \<le> 1 / 2"
    unfolding k_def by (rule rne_close)
  then have "\<bar>k / 100\<bar> \<le> \<bar>v\<bar> + 1"
    by linarith
  also have "\<dots> \<le> 2 powi 1000 + 2 powi 1000"
    using assms by (intro add_mono) auto
  also have "(2::rat) powi 1000 + 2 powi 1000 = 2 powi 1001" by simp
  finally have "\<bar>of_int (rne (v * 100)) / 100 :: rat\<bar> \<le> 2 powi 1001"
    by (simp only: k_def)
  then obtain z where "binary64 (of_int (rne (v * 100)) / 100) = Fin z"
    using binary64_bounded[of "of_int (rne (v * 100)) / 100" 1001] by auto
  then show ?thesis by (simp add: round2_def)
qed

lemma binary32_bounded:
  "\<bar>r\<bar> \<le> 2 powi k \<Longrightarrow> - 149 \<le> k \<Longrightarrow> k \<le> 127 \<Longrightarrow> \<exists>v. binary32 r = Fin v \<and> \<bar>v\<bar> \<le> 2 powi k"
  unfolding binary32_def by (rule fl_bounded) simp_all

lemma tensor_truediv_returns:
  assumes "0 \<le> s" "s \<le> n" "1 \<le> n" "n < 2 ^ 63"
  shows "\<exists>v. tensor_truediv s n = Fin v \<and> \<bar>v\<bar> \<le> 2 powi 63"
proof -
  have "\<bar>of_int s :: rat\<bar> \<le> of_int (2 ^ 63)"
    using assms by simp
  also have "(of_int (2 ^ 63) :: rat) = 2 powi 63" by simp
  finally obtain a where a: "binary32 (of_int s) = Fin a" "\<bar>a\<bar> \<le> 2 powi 63"
    using binary32_bounded[of "of_int s" 63] by auto
  obtain b where b: "binary32 (of_int n) = Fin b" "1 \<le> b"
    using binary32_size[OF assms(3,4)] by auto
  have "\<bar>a / b\<bar> = \<bar>a\<bar> / b" using b(2) by simp
  also have "\<dots> \<le> \<bar>a\<bar> / 1" using b(2) by (intro divide_left_mono) auto
  also have "\<dots> \<le> 2 powi 63" using a(2) by simp
  finally obtain v where "binary32 (a / b) = Fin v" "\<bar>v\<bar> \<le> 2 powi 63"
    using binary32_bounded[of "a / b" 63] by auto
  then show ?thesis using a(1) b by (simp add: tensor_truediv_def)
qed

lemma accuracy_quotient_returns:
  assumes "s \<le> n" "0 < n" "n < 2 ^ 63"
  shows "\<exists>z. round2 (tensor_truediv (int s) (int n)) = Inr (Fin z)"
proof -
  have "int n < int (2 ^ 63)" using assms(3) by (simp only: of_nat_less_iff)
  then have n2: "int n < 2 ^ 63" by simp
  have n1: "1 \<le> int n" using assms(2) by simp
  obtain v where v: "tensor_truediv (int s) (int n) = Fin v" "\<bar>v\<bar> \<le> 2 powi 63"
    using tensor_truediv_returns[of "int s" "int n"] assms(1) n1 n2 by auto
  have "(2::rat) powi 63 \<le> 2 powi 1000" by (intro power_int_increasing) auto
  with v(2) have "\<bar>v\<bar> \<le> 2 powi 1000" by simp
  from round2_returns[OF this] show ?thesis by (simp add: v(1))
qed

lemma nsp_accuracy_returns:
  assumes "length p = length t" "p \<noteq> []" "length p < 2 ^ 63" "[] \<notin> set p" "[] \<notin> set t"
  shows "\<exists>z. nsp_accuracy p t = Inr (Fin z)"
proof -
  have "pair_matches p t \<le> length p"
    unfolding pair_matches_def using length_filter_le[of _ "[0..<length p]"] by simp
  moreover have "0 < length p" using assms(2) by simp
  ultimately show ?thesis
    using accuracy_quotient_returns[of "pair_matches p t" "length p"] assms(3)
    by (simp add: nsp_accuracy_count[OF assms(1,4,5)])
qed

lemma token_accuracy_returns:
  fixes p :: "'a::linorder list list list"
  assumes "has_shape B S p" "\<forall>row \<in> set p. [] \<notin> set row" "has_shape B S t" "has_shape B S m"
    "0 < B" "0 < S" "B * S < 2 ^ 63"
  shows "\<exists>z. token_accuracy p t m = Inr (Fin z)"
proof -
  have "token_matches p t m \<le> length (List.product [0..<size0 p] [0..<size1 p])"
    unfolding token_matches_def by (rule length_filter_le)
  then have le: "token_matches p t m \<le> B * S"
    using has_shape_size[OF assms(1,5)] by simp
  have pos: "0 < B * S" using assms(5,6) by simp
  from accuracy_quotient_returns[OF le pos assms(7)]
  show ?thesis
    by (simp add: token_accuracy_count[OF assms(1-5)])
qed

lemma has_shape_masked_fill:
  assumes "has_shape B S token" "has_shape B S tm"
  shows "has_shape B S (masked_fill token tm)"
  using assms
  by (auto simp add: has_shape_def masked_fill_def set_zip)

lemma masked_fill_nonempty:
  assumes "\<forall>row \<in> set token. [] \<notin> set row"
  shows "\<forall>row \<in> set (masked_fill token tm). [] \<notin> set row"
  using assms
  by (auto simp add: masked_fill_def set_zip in_set_conv_nth split: if_splits) (metis nth_mem)+

lemma tick_accuracy_returns:
  assumes "every \<noteq> 0" "well_shaped (token0, nsp) v"
  shows "\<exists>acc. tick_accuracy every idx (masked_fill token0 (token_mask v)) nsp v = Inr acc"
proof -
  define B where "B = size0 token0"
  define S where "S = size1 token0"
  from assms(2) have sh: "0 < B" "0 < S" "B * S < 2 ^ 63" "has_shape B S token0"
    "\<forall>row \<in> set token0. [] \<notin> set row" "has_shape B S (mask_target v)"
    "has_shape B S (token_mask v)"
    and np: "nsp \<noteq> []" "length nsp = length (nsp_target v)" "length nsp < 2 ^ 63"
    "[] \<notin> set nsp" "[] \<notin> set (nsp_target v)"
    by (simp_all add: well_shaped_def Let_def B_def S_def)
  obtain a where a: "nsp_accuracy nsp (nsp_target v) = Inr (Fin a)"
    using nsp_accuracy_returns[OF np(2,1,3,4,5)] by blast
  obtain b where b: "token_accuracy (masked_fill token0 (token_mask v)) (mask_target v) (token_mask v)
      = Inr (Fin b)"
    using token_accuracy_returns[OF has_shape_masked_fill[OF sh(4,7)]
        masked_fill_nonempty[OF sh(5)] sh(6,7,1,2,3)]
    by blast
  show ?thesis using assms(1) a b by (simp add: tick_accuracy_def)
qed

lemma train_step_returns:
  assumes pe: "print_every st \<noteq> 0" and ae: "accuracy_every st \<noteq> 0"
    and ds: "1 \<le> ds_len st div batch_size st" and idx: "\<bar>idx\<bar> \<le> 2 ^ 1000"
    and ws: "well_shaped (model_forward c (model st) (inp v) (attention_mask v)) v"
  shows "\<exists>s'. train_step c e nb idx v (st, w, loc) = Inr s'"
proof -
  obtain token0 nsp where mf: "model_forward c (model st) (inp v) (attention_mask v) = (token0, nsp)"
    by (cases "model_forward c (model st) (inp v) (attention_mask v)")
  have ws': "well_shaped (token0, nsp) v" using ws by (simp add: mf)
  then have "has_shape (size0 token0) (size1 token0) token0"
    "has_shape (size0 token0) (size1 token0) (token_mask v)"
    by (simp_all add: well_shaped_def Let_def)
  then have shape: "expand_as (token_mask v) token0 = Inr (token_mask v)"
    by (intro expand_as_same_shape)
  obtain passed where ps: "percentage (batch_size st) (ds_len st) idx = Inr (Fin passed)"
    using percentage_returns[OF ds idx] by blast
  obtain acc where ac: "tick_accuracy (accuracy_every st) idx
      (masked_fill token0 (token_mask v)) nsp v = Inr acc"
    using tick_accuracy_returns[OF ae ws'] by blast
  show ?thesis
    using pe shape ps ac
    by (simp add: train_step_def mf Let_def split: prod.splits)
qed

lemma train_loop_returns:
  assumes "print_every st \<noteq> 0" "accuracy_every st \<noteq> 0" "1 \<le> ds_len st div batch_size st"
    "i + length vs \<le> 2 ^ 1000"
    "\<forall>v \<in> set vs. \<forall>m. well_shaped (model_forward c m (inp v) (attention_mask v)) v"
  shows "\<exists>s'. train_loop c e nb i vs (st, w, loc) = Inr s'"
  using assms
proof (induction vs arbitrary: i st w loc)
  case Nil
  then show ?case by simp
next
  case (Cons v vs)
  have "int i + 1 \<le> int (i + length (v # vs))" by simp
  also have "\<dots> \<le> int (2 ^ 1000)" using Cons.prems(4) by (simp only: of_nat_le_iff)
  finally have idx: "\<bar>int i + 1\<bar> \<le> 2 ^ 1000" by simp
  have ws: "well_shaped (model_forward c (model st) (inp v) (attention_mask v)) v"
    using Cons.prems(5) by simp
  obtain st1 w1 loc1 where
    step: "train_step c e nb (int i + 1) v (st, w, loc) = Inr (st1, w1, loc1)"
    using train_step_returns[OF Cons.prems(1,2,3) idx ws, where e = e and nb = nb and w = w
        and loc = loc]
    by (metis prod_cases3)
  note F = train_step_frame[OF step]
  have "\<exists>s'. train_loop c e nb (Suc i) vs (st1, w1, loc1) = Inr s'"
    using Cons.prems F by (intro Cons.IH) simp_all
  then show ?case by (simp add: step)
qed

lemma train_returns:
  assumes "loader c e \<noteq> []" "print_every st \<noteq> 0" "accuracy_every st \<noteq> 0"
    "1 \<le> ds_len st div batch_size st" "length (loader c e) \<le> 2 ^ 1000"
    "\<forall>v \<in> set (loader c e). \<forall>m. well_shaped (model_forward c m (inp v) (attention_mask v)) v"
  shows "\<exists>l st' w'. train c e (st, w) = Inr (l, st', w')"
proof -
  let ?w = "w\<lparr>console := console w @ [Begin_epoch e]\<rparr>"
  let ?loc = "\<lparr>average_nsp_loss = loss_zero c, average_mlm_loss = loss_zero c, loss_var = None\<rparr>"
  let ?n = "length (loader c e)"
  obtain st' w' loc' where
    lp: "train_loop c e (int ?n) 0 (loader c e) (st, ?w, ?loc) = Inr (st', w', loc')"
    using train_loop_returns[OF assms(2,3,4) _ assms(6), where i = 0 and e = e
        and nb = "int ?n" and w = ?w and loc = ?loc] assms(5)
    by (metis add_0 prod_cases3)
  have "loop_inv c e (int ?n) st (console ?w) (loader c e) ?n (st', w', loc')"
    by (rule loop_inv_loop[where loc = ?loc]) (simp_all add: lp)
  then have "loss_var loc' \<noteq> None"
    using assms(1) by (simp add: loop_inv_def Let_def)
  then obtain l where "loss_var loc' = Some l" by auto
  then show ?thesis using lp by (simp add: train_def)
qed

lemma sequence_Inl: "sequence rs = Inl e \<Longrightarrow> Inl e \<in> set rs"
  by (induction rs) (auto split: sum.splits)

lemma argmax_dim1_error: "argmax_dim1 t = Inl e \<Longrightarrow> e = IndexError"
  by (auto simp add: argmax_dim1_def argmax_def dest!: sequence_Inl split: if_splits)

lemma argmax_last_error: "argmax_last t = Inl e \<Longrightarrow> e = IndexError"
  by (auto simp add: argmax_last_def dest!: sequence_Inl dest: argmax_dim1_error[OF sym])

lemma round2_error: "round2 x = Inl e \<Longrightarrow> e = OverflowError"
  by (auto simp add: round2_def split: pyfloat.splits)

lemma percentage_error:
  "percentage b n k = Inl e \<Longrightarrow> e = ZeroDivisionError \<or> e = OverflowError"
  by (auto simp add: percentage_def int_floordiv_def int_truediv_def
      dest: round2_error split: sum.splits if_splits pyfloat.splits)

lemma nsp_accuracy_error: "nsp_accuracy p t = Inl e \<Longrightarrow> e \<noteq> UnboundLocalError"
  by (auto simp add: nsp_accuracy_def tensor_eq_def
      dest: argmax_dim1_error round2_error split: sum.splits if_splits)

lemma masked_select_error: "masked_select t m = Inl e \<Longrightarrow> e = RuntimeError"
  by (simp add: masked_select_def Let_def split: if_splits)

lemma expand_as_error: "expand_as tm t = Inl e \<Longrightarrow> e = RuntimeError"
  by (simp add: expand_as_def split: if_splits)

lemma token_accuracy_error: "token_accuracy p t m = Inl e \<Longrightarrow> e \<noteq> UnboundLocalError"
  by (auto simp add: token_accuracy_def tensor_eq_def
      dest: argmax_last_error round2_error masked_select_error split: sum.splits if_splits)

lemma tick_accuracy_error: "tick_accuracy every idx token nsp v = Inl e \<Longrightarrow> e \<noteq> UnboundLocalError"
  by (auto simp add: tick_accuracy_def dest: nsp_accuracy_error token_accuracy_error
      split: sum.splits if_splits)

lemma train_step_error: "train_step c e nb idx v s = Inl err \<Longrightarrow> err \<noteq> UnboundLocalError"
  by (auto simp add: train_step_def Let_def dest: percentage_error tick_accuracy_error
      expand_as_error split: prod.splits sum.splits if_splits)

lemma train_loop_error: "train_loop c e nb i vs s = Inl err \<Longrightarrow> err \<noteq> UnboundLocalError"
proof (induction vs arbitrary: i s)
  case Nil
  then show ?case by simp
next
  case (Cons v vs)
  then show ?case
    by (auto dest: train_step_error split: sum.splits)
qed

lemma train_bound:
  assumes "loader c e \<noteq> []"
  shows "train c e (st, w) \<noteq> Inl UnboundLocalError"
proof
  assume u: "train c e (st, w) = Inl UnboundLocalError"
  let ?w = "w\<lparr>console := console w @ [Begin_epoch e]\<rparr>"
  let ?loc = "\<lparr>average_nsp_loss = loss_zero c, average_mlm_loss = loss_zero c, loss_var = None\<rparr>"
  let ?n = "length (loader c e)"
  show False
  proof (cases "train_loop c e (int ?n) 0 (loader c e) (st, ?w, ?loc)")
    case (Inl err)
    with u have "err = UnboundLocalError" by (simp add: train_def)
    with train_loop_error[OF Inl] show False by simp
  next
    case (Inr s)
    obtain st' w' loc' where s: "s = (st', w', loc')" by (cases s)
    have "loop_inv c e (int ?n) st (console ?w) (loader c e) ?n (st', w', loc')"
      by (rule loop_inv_loop[where loc = ?loc]) (simp_all add: Inr s)
    then have "loss_var loc' \<noteq> None"
      using assms by (simp add: loop_inv_def Let_def)
    with u Inr s show False by (auto simp add: train_def)
  qed
qed

lemma example_well_shaped:
  "\<forall>v \<in> set (loader example_collaborators e).
     \<forall>m. well_shaped (model_forward example_collaborators m (inp v) (attention_mask v)) v"
  by (simp add: example_collaborators_def example_batch_def well_shaped_def has_shape_def
      size0_def size1_def Let_def)

lemma ticks_2_4: "ticks 2 4 = [2, 4]"
proof -
  have "ticks 2 (Suc (Suc (Suc (Suc 0)))) = [2, 4]"
    by (simp only: ticks_Suc ticks_0) simp
  then show ?thesis by (simp add: eval_nat_numeral)
qed

section \<open>The epochs of a run\<close>

lemma epoch_events_append:
  "epoch_events (xs @ ys) = epoch_events xs @ epoch_events ys"
  by (induction xs rule: epoch_events.induct) simp_all

lemma epoch_events_accuracy: "epoch_events (accuracy_scalars acc g) = []"
  by (simp add: accuracy_scalars_def split: option.splits prod.splits)

lemma train_step_epoch_events:
  assumes "train_step c e nb i v (st, w, loc) = Inr (st', w', loc')"
  shows "epoch_events (console w') = epoch_events (console w)"
  using assms
  by (auto simp add: train_step_def Let_def epoch_events_append epoch_events_accuracy
      split: prod.splits if_splits sum.splits)

lemma train_loop_epoch_events:
  assumes "train_loop c e nb i vs (st, w, loc) = Inr (st', w', loc')"
  shows "epoch_events (console w') = epoch_events (console w)"
  using assms
proof (induction vs arbitrary: i st w loc)
  case Nil
  then show ?case by simp
next
  case (Cons v vs)
  from Cons.prems obtain st1 w1 loc1 where
    step: "train_step c e nb (int i + 1) v (st, w, loc) = Inr (st1, w1, loc1)"
    and rest: "train_loop c e nb (Suc i) vs (st1, w1, loc1) = Inr (st', w', loc')"
    by (auto split: sum.splits)
  show ?case
    using Cons.IH[OF rest] train_step_epoch_events[OF step] by simp
qed

lemma train_config:
  assumes "train c e (st, w) = Inr (l, st', w')"
  shows "batch_size st' = batch_size st" "ds_len st' = ds_len st"
    "print_every st' = print_every st" "accuracy_every st' = accuracy_every st"
proof -
  from train_Inr_loop[OF assms] obtain loc' where
    "train_loop c e (int (length (loader c e))) 0 (loader c e)
            (st, w\<lparr>console := console w @ [Begin_epoch e]\<rparr>,
             \<lparr>average_nsp_loss = loss_zero c, average_mlm_loss = loss_zero c, loss_var = None\<rparr>)
          = Inr (st', w', loc')"
    by blast
  from train_loop_frame[OF this]
  show "batch_size st' = batch_size st" "ds_len st' = ds_len st"
    "print_every st' = print_every st" "accuracy_every st' = accuracy_every st"
    by simp_all
qed

lemma train_effects:
  assumes "train c e (st, w) = Inr (l, st', w')"
  shows "epoch_events (console w') = epoch_events (console w) @ [Begin_epoch e]"
    and "(model st', optimizer st') = params_after c (model st, optimizer st) (loader c e)"
proof -
  from train_Inr_loop[OF assms] obtain loc' where
    lp: "train_loop c e (int (length (loader c e))) 0 (loader c e)
            (st, w\<lparr>console := console w @ [Begin_epoch e]\<rparr>,
             \<lparr>average_nsp_loss = loss_zero c, average_mlm_loss = loss_zero c, loss_var = None\<rparr>)
          = Inr (st', w', loc')"
    by blast
  from train_loop_epoch_events[OF lp]
  show "epoch_events (console w') = epoch_events (console w) @ [Begin_epoch e]"
    by (simp add: epoch_events_append)
  from train_invariant[OF assms] obtain loc'' where
    "loop_inv c e (int (length (loader c e))) st (console w @ [Begin_epoch e])
            (loader c e) (length (loader c e)) (st', w', loc'')"
    by blast
  then show "(model st', optimizer st') = params_after c (model st, optimizer st) (loader c e)"
    by (simp add: loop_inv_def Let_def)
qed

lemma params_after_append:
  "params_after c p (xs @ ys) = params_after c (params_after c p xs) ys"
  by (simp add: params_after_def)

lemma run_epochs_effects:
  assumes "run_epochs c clock es (st, w) = Inr (st', w')"
  shows "epoch_events (console w')
           = epoch_events (console w)
             @ concat (map (\<lambda>e. Begin_epoch e
                               # (case checkpoint_dir st of
                                    None \<Rightarrow> []
                                  | Some d \<Rightarrow> [Model_saved (checkpoint_name e (- 1) (clock e))]))
                         es)
    \<and> (model st', optimizer st')
           = params_after c (model st, optimizer st) (concat (map (loader c) es))"
  using assms
proof (induction es arbitrary: st w)
  case Nil
  then show ?case by (simp add: params_after_def)
next
  case (Cons e es)
  define st1 where "st1 = st\<lparr>current_epoch := e\<rparr>"
  define w1 where "w1 = w\<lparr>calls := calls w @ [Train_call e]\<rparr>"
  from Cons.prems obtain l st2 w2 where
    tr: "train c e (st1, w1) = Inr (l, st2, w2)"
    and rest: "run_epochs c clock es
        (save_checkpoint (clock e) (current_epoch st2) (- 1) l
           (st2, w2\<lparr>calls := calls w2 @ [Save_call (current_epoch st2) (- 1) l]\<rparr>))
        = Inr (st', w')"
    by (auto simp add: st1_def w1_def Let_def split: sum.splits)
  note fr = train_frame[OF tr]
  note ef = train_effects[OF tr]
  have ce: "current_epoch st2 = e" using fr(5) by (simp add: st1_def)
  have dir: "checkpoint_dir st2 = checkpoint_dir st" using fr(3) by (simp add: st1_def)
  define w3 where "w3 = w2\<lparr>calls := calls w2 @ [Save_call e (- 1) l]\<rparr>"
  obtain st4 w4 where sv: "save_checkpoint (clock e) e (- 1) l (st2, w3) = (st4, w4)"
    by (cases "save_checkpoint (clock e) e (- 1) l (st2, w3)")
  have st4: "st4 = st2" using save_checkpoint_frame(1)[OF sv] .
  have c4: "epoch_events (console w4)
      = epoch_events (console w) @ Begin_epoch e
          # (case checkpoint_dir st of
               None \<Rightarrow> []
             | Some d \<Rightarrow> [Model_saved (checkpoint_name e (- 1) (clock e))])"
  proof (cases "checkpoint_dir st")
    case None
    then have "w4 = w3" using sv dir by (simp add: save_checkpoint_None)
    then show ?thesis using ef(1) None by (simp add: w3_def w1_def)
  next
    case (Some d)
    then have "console w4 = console w3 @ [Model_saved (checkpoint_name e (- 1) (clock e))]"
      using sv dir by (auto simp add: save_checkpoint_Some)
    then show ?thesis using ef(1) Some by (simp add: w3_def w1_def epoch_events_append)
  qed
  have p4: "(model st4, optimizer st4) = params_after c (model st, optimizer st) (loader c e)"
    using ef(2) by (simp add: st4 st1_def)
  have rest': "run_epochs c clock es (st4, w4) = Inr (st', w')"
    using rest by (simp add: ce w3_def[symmetric] sv)
  note ih = Cons.IH[OF rest']
  have d4: "checkpoint_dir st4 = checkpoint_dir st" by (simp add: st4 dir)
  have A: "epoch_events (console w')
           = epoch_events (console w)
             @ concat (map (\<lambda>e. Begin_epoch e
                               # (case checkpoint_dir st of
                                    None \<Rightarrow> []
                                  | Some d \<Rightarrow> [Model_saved (checkpoint_name e (- 1) (clock e))]))
                         (e # es))"
    using ih[THEN conjunct1] by (simp add: c4 d4)
  have B: "(model st', optimizer st')
           = params_after c (model st, optimizer st) (concat (map (loader c) (e # es)))"
    using ih[THEN conjunct2] by (simp add: p4[symmetric] params_after_append)
  from A B show ?case by (rule conjI)
qed

lemma run_epochs_returns:
  assumes "print_every st \<noteq> 0" "accuracy_every st \<noteq> 0" "1 \<le> ds_len st div batch_size st"
    "\<forall>e \<in> set es. loader c e \<noteq> [] \<and> length (loader c e) \<le> 2 ^ 1000
        \<and> (\<forall>v \<in> set (loader c e).
              \<forall>m. well_shaped (model_forward c m (inp v) (attention_mask v)) v)"
  shows "\<exists>st' w'. run_epochs c clock es (st, w) = Inr (st', w')"
  using assms
proof (induction es arbitrary: st w)
  case Nil
  then show ?case by simp
next
  case (Cons e es)
  define st1 where "st1 = st\<lparr>current_epoch := e\<rparr>"
  define w1 where "w1 = w\<lparr>calls := calls w @ [Train_call e]\<rparr>"
  have cfg1: "print_every st1 \<noteq> 0" "accuracy_every st1 \<noteq> 0"
    "1 \<le> ds_len st1 div batch_size st1"
    using Cons.prems(1,2,3) by (simp_all add: st1_def)
  from Cons.prems(4) have le: "loader c e \<noteq> []" "length (loader c e) \<le> 2 ^ 1000"
    "\<forall>v \<in> set (loader c e).
              \<forall>m. well_shaped (model_forward c m (inp v) (attention_mask v)) v"
    by simp_all
  obtain l st2 w2 where tr: "train c e (st1, w1) = Inr (l, st2, w2)"
    using train_returns[OF le(1) cfg1 le(2,3), where w = w1] by blast
  note tc = train_config[OF tr]
  note fr = train_frame[OF tr]
  have ce: "current_epoch st2 = e" using fr(5) by (simp add: st1_def)
  define w3 where "w3 = w2\<lparr>calls := calls w2 @ [Save_call e (- 1) l]\<rparr>"
  obtain st4 w4 where sv: "save_checkpoint (clock e) e (- 1) l (st2, w3) = (st4, w4)"
    by (cases "save_checkpoint (clock e) e (- 1) l (st2, w3)")
  have st4: "st4 = st2" using save_checkpoint_frame(1)[OF sv] .
  have cfg4: "print_every st4 \<noteq> 0" "accuracy_every st4 \<noteq> 0"
    "1 \<le> ds_len st4 div batch_size st4"
    using cfg1 tc by (simp_all add: st4)
  from Cons.prems(4) have rest: "\<forall>e \<in> set es. loader c e \<noteq> [] \<and> length (loader c e) \<le> 2 ^ 1000
        \<and> (\<forall>v \<in> set (loader c e).
              \<forall>m. well_shaped (model_forward c m (inp v) (attention_mask v)) v)"
    by simp
  from Cons.IH[OF cfg4 rest, of w4] obtain st' w' where
    "run_epochs c clock es (st4, w4) = Inr (st', w')" by blast
  then have "run_epochs c clock (e # es) (st, w) = Inr (st', w')"
    using tr by (simp add: st1_def[symmetric] w1_def[symmetric] Let_def ce w3_def[symmetric] sv)
  then show ?case by blast
qed

lemma run_epochs_append:
  "run_epochs c clock (xs @ ys) s =
     (case run_epochs c clock xs s of
        Inl err \<Rightarrow> Inl err
      | Inr s' \<Rightarrow> run_epochs c clock ys s')"
  by (induction xs arbitrary: s) (auto simp add: Let_def split: sum.splits prod.splits)

lemma run_epochs_last:
  assumes r: "run_epochs c clock (es @ [e]) (st, w) = Inr (st', w')"
    and d: "checkpoint_dir st = Some d"
  shows "\<exists>l. files w' (joinpath d (checkpoint_name e (- 1) (clock e)))
               = Some \<lparr>ck_epoch = e, model_state_dict = model st',
                       optimizer_state_dict = optimizer st', ck_loss = l\<rparr>
             \<and> last (calls w') = Save_call e (- 1) l"
proof -
  from r obtain sm wm where
    r1: "run_epochs c clock es (st, w) = Inr (sm, wm)"
    and r2: "run_epochs c clock [e] (sm, wm) = Inr (st', w')"
    by (auto simp add: run_epochs_append split: sum.splits)
  have dm: "checkpoint_dir sm = Some d"
    using run_epochs_trace[OF r1, THEN conjunct2, THEN conjunct1] d by simp
  define st1 where "st1 = sm\<lparr>current_epoch := e\<rparr>"
  define w1 where "w1 = wm\<lparr>calls := calls wm @ [Train_call e]\<rparr>"
  from r2 obtain l st2 w2 where
    tr: "train c e (st1, w1) = Inr (l, st2, w2)"
    and fin: "save_checkpoint (clock e) (current_epoch st2) (- 1) l
           (st2, w2\<lparr>calls := calls w2 @ [Save_call (current_epoch st2) (- 1) l]\<rparr>)
        = (st', w')"
    by (auto simp add: st1_def w1_def Let_def split: sum.splits)
  note fr = train_frame[OF tr]
  have ce: "current_epoch st2 = e" using fr(5) by (simp add: st1_def)
  have d2: "checkpoint_dir st2 = Some d" using fr(3) dm by (simp add: st1_def)
  from fin have "st' = st2"
    and "files w' (joinpath d (checkpoint_name e (- 1) (clock e)))
               = Some \<lparr>ck_epoch = e, model_state_dict = model st2,
                       optimizer_state_dict = optimizer st2, ck_loss = l\<rparr>"
    and "calls w' = calls w2 @ [Save_call e (- 1) l]"
    unfolding ce save_checkpoint_Some[OF d2] by auto
  then show ?thesis by auto
qed

lemma upto_last: "a \<le> b \<Longrightarrow> [a..b] = [a..b - 1] @ [b]"
  by (rule upto_rec2)

lemma run_effects:
  assumes r: "run c clock (st, w) = Inr (st', w')"
  shows "(\<exists>ls. length ls = length [current_epoch st..epochs st - 1]
            \<and> calls w' = calls w
                 @ concat (map2 (\<lambda>e l. [Train_call e, Save_call e (- 1) l])
                             [current_epoch st..epochs st - 1] ls))"
    and "epoch_events (console w')
           = epoch_events (console w)
             @ concat (map (\<lambda>e. Begin_epoch e
                               # (case checkpoint_dir st of
                                    None \<Rightarrow> []
                                  | Some d \<Rightarrow> [Model_saved (checkpoint_name e (- 1) (clock e))]))
                         [current_epoch st..epochs st - 1])"
    and "(model st', optimizer st')
           = params_after c (model st, optimizer st)
               (concat (map (loader c) [current_epoch st..epochs st - 1]))"
    and "epochs st' = epochs st"
    and "current_epoch st < epochs st \<Longrightarrow> current_epoch st' = epochs st - 1"
    and "current_epoch st < epochs st \<Longrightarrow> checkpoint_dir st = Some d \<Longrightarrow>
           \<exists>l. files w' (joinpath d (checkpoint_name (epochs st - 1) (- 1) (clock (epochs st - 1))))
                  = Some \<lparr>ck_epoch = epochs st - 1, model_state_dict = model st',
                          optimizer_state_dict = optimizer st', ck_loss = l\<rparr>
                \<and> last (calls w') = Save_call (epochs st - 1) (- 1) l"
    and "epochs st \<le> current_epoch st \<Longrightarrow> st' = st \<and> w' = w"
proof -
  let ?es = "[current_epoch st..epochs st - 1]"
  have re: "run_epochs c clock ?es (st, w) = Inr (st', w')"
    using r by (simp add: run_def)
  note t = run_epochs_trace[OF re]
  show "\<exists>ls. length ls = length ?es
            \<and> calls w' = calls w
                 @ concat (map2 (\<lambda>e l. [Train_call e, Save_call e (- 1) l]) ?es ls)"
    using t by (rule conjunct1)
  note ef = run_epochs_effects[OF re]
  show "epoch_events (console w')
           = epoch_events (console w)
             @ concat (map (\<lambda>e. Begin_epoch e
                               # (case checkpoint_dir st of
                                    None \<Rightarrow> []
                                  | Some d \<Rightarrow> [Model_saved (checkpoint_name e (- 1) (clock e))]))
                         ?es)"
    using ef by (rule conjunct1)
  show "(model st', optimizer st')
           = params_after c (model st, optimizer st) (concat (map (loader c) ?es))"
    using ef by (rule conjunct2)
  show "epochs st' = epochs st"
    using t[THEN conjunct2, THEN conjunct2, THEN conjunct1] .
  have t6: "?es \<noteq> [] \<longrightarrow> current_epoch st' = last ?es"
    using t[THEN conjunct2, THEN conjunct2, THEN conjunct2, THEN conjunct2, THEN conjunct2,
        THEN conjunct1] .
  have t7: "?es = [] \<longrightarrow> st' = st \<and> w' = w"
    using t[THEN conjunct2, THEN conjunct2, THEN conjunct2, THEN conjunct2, THEN conjunct2,
        THEN conjunct2] .
  {
    assume lt: "current_epoch st < epochs st"
    then have sp: "?es = [current_epoch st..epochs st - 1 - 1] @ [epochs st - 1]"
      by (intro upto_last) simp
    then have "?es \<noteq> []" "last ?es = epochs st - 1"
      by (metis snoc_eq_iff_butlast)+
    with t6 show "current_epoch st' = epochs st - 1" by simp
    assume d: "checkpoint_dir st = Some d"
    have "run_epochs c clock ([current_epoch st..epochs st - 1 - 1] @ [epochs st - 1]) (st, w)
        = Inr (st', w')"
      using re sp by simp
    from run_epochs_last[OF this d]
    show "\<exists>l. files w' (joinpath d (checkpoint_name (epochs st - 1) (- 1) (clock (epochs st - 1))))
                  = Some \<lparr>ck_epoch = epochs st - 1, model_state_dict = model st',
                          optimizer_state_dict = optimizer st', ck_loss = l\<rparr>
                \<and> last (calls w') = Save_call (epochs st - 1) (- 1) l" .
  }
  {
    assume "epochs st \<le> current_epoch st"
    then have "?es = []" by simp
    with t7 show "st' = st \<and> w' = w" by simp
  }
qed

lemma hd_concat_events:
  assumes "es \<noteq> []"
  shows "(xs @ concat (map (\<lambda>e. Begin_epoch e # f e) es)) ! length xs = Begin_epoch (hd es)"
  using assms by (cases es) (simp_all add: nth_append)

lemma example_epoch_ok:
  "loader example_collaborators e \<noteq> [] \<and> length (loader example_collaborators e) \<le> 2 ^ 1000
   \<and> (\<forall>v \<in> set (loader example_collaborators e).
         \<forall>m. well_shaped (model_forward example_collaborators m (inp v) (attention_mask v)) v)"
proof -
  have "loader example_collaborators e \<noteq> []" "length (loader example_collaborators e) = 4"
    by (simp_all add: example_collaborators_def)
  then show ?thesis using example_well_shaped[of e] by simp
qed

section \<open>Properties of \<open>percentage\<close>\<close>

text \<open>
  C4.  Whenever \<open>dataset_size // batch_size \<ge> 1\<close>, \<open>percentage\<close> is the expression
  \<open>round(current / (dataset_size // batch_size) * 100, 2)\<close> of the specification, and
  for every index of magnitude up to \<open>2^1000\<close> it returns a finite float rather than
  raising.  In particular \<open>percentage(2, 10, 3) = 60.0\<close>.
\<close>

theorem percentage_refines_spec:
  "(1 \<le> dataset_size div bsize \<longrightarrow>
      percentage bsize dataset_size c = percentage_spec bsize dataset_size c
      \<and> (\<bar>c\<bar> \<le> 2 ^ 1000 \<longrightarrow> (\<exists>v. percentage bsize dataset_size c = Inr (Fin v))))
   \<and> percentage 2 10 3 = Inr (Fin 60)"
proof (intro conjI impI)
  assume m: "1 \<le> dataset_size div bsize"
  then have "bsize \<noteq> 0" by (rule_tac notI) simp
  then show "percentage bsize dataset_size c = percentage_spec bsize dataset_size c"
    by (simp add: percentage_def percentage_spec_def int_floordiv_def)
  assume "\<bar>c\<bar> \<le> 2 ^ 1000"
  with m show "\<exists>v. percentage bsize dataset_size c = Inr (Fin v)"
    by (rule percentage_returns)
next
  show "percentage 2 10 3 = Inr (Fin 60)" by (rule percentage_2_10_3)
qed

theorem percentage_refines_spec_witness:
  "(1::int) \<le> 10 div 2 \<and> \<bar>3::int\<bar> \<le> 2 ^ 1000
   \<and> percentage 2 10 3 = percentage_spec 2 10 3 \<and> percentage_spec 2 10 3 = Inr (Fin 60)"
proof -
  have m: "(1::int) \<le> 10 div 2" by simp
  have "percentage 2 10 3 = percentage_spec 2 10 3"
    using percentage_refines_spec[of 10 2 3] m by blast
  moreover have "percentage 2 10 3 = Inr (Fin 60)"
    using percentage_refines_spec[of 10 2 3] by blast
  ultimately show ?thesis by simp
qed

text \<open>
  C7.  For fixed \<open>batch_size\<close> and \<open>dataset_size\<close> with \<open>dataset_size // batch_size \<ge> 1\<close>,
  \<open>percentage\<close> is non-decreasing in the batch index: any two results it returns for
  \<open>c \<le> c'\<close> are ordered, and for indices of magnitude up to \<open>2^1000\<close> it does return
  finite, ordered results.  At \<open>c = dataset_size // batch_size\<close> it returns exactly
  \<open>100.0\<close>.
\<close>

theorem percentage_monotone:
  assumes "1 \<le> n div b"
  shows "(c \<le> c' \<and> percentage b n c = Inr x \<and> percentage b n c' = Inr y \<longrightarrow> float_le x y)
    \<and> (c \<le> c' \<and> \<bar>c\<bar> \<le> 2 ^ 1000 \<and> \<bar>c'\<bar> \<le> 2 ^ 1000 \<longrightarrow>
         (\<exists>u v. percentage b n c = Inr (Fin u) \<and> percentage b n c' = Inr (Fin v) \<and> u \<le> v))
    \<and> percentage b n (n div b) = Inr (Fin 100)"
proof (intro conjI impI)
  assume "c \<le> c' \<and> percentage b n c = Inr x \<and> percentage b n c' = Inr y"
  then show "float_le x y"
    using percentage_mono[OF assms, of c c' x y] by simp
next
  assume h: "c \<le> c' \<and> \<bar>c\<bar> \<le> 2 ^ 1000 \<and> \<bar>c'\<bar> \<le> 2 ^ 1000"
  then obtain u v where u: "percentage b n c = Inr (Fin u)" and v: "percentage b n c' = Inr (Fin v)"
    using percentage_returns[OF assms, of c] percentage_returns[OF assms, of c'] by auto
  have "float_le (Fin u) (Fin v)"
    using percentage_mono[OF assms _ u v] h by simp
  with u v show "\<exists>u v. percentage b n c = Inr (Fin u) \<and> percentage b n c' = Inr (Fin v) \<and> u \<le> v"
    by simp
next
  show "percentage b n (n div b) = Inr (Fin 100)"
    by (rule percentage_full[OF assms])
qed

theorem percentage_monotone_witness:
  "float_le (Fin 60) (Fin 100) \<and> percentage 2 10 5 = Inr (Fin 100)
   \<and> (\<exists>u v. percentage 2 10 3 = Inr (Fin u) \<and> percentage 2 10 5 = Inr (Fin v) \<and> u \<le> v)"
proof -
  have m: "(1::int) \<le> 10 div 2" by simp
  have five: "percentage 2 10 5 = Inr (Fin 100)"
    using percentage_monotone[OF m, of 3 5 "Fin 60" "Fin 100"] by simp
  show ?thesis
    using percentage_monotone[OF m, of 3 5 "Fin 60" "Fin 100"] percentage_2_10_3 five
    by simp
qed

text \<open>
  C8.  \<open>percentage\<close> raises \<open>ZeroDivisionError\<close> whenever \<open>dataset_size // batch_size\<close>
  is zero: for every dataset size (a length, so non-negative) below the batch size, and
  for a zero batch size, where the integer division \<open>//\<close> itself raises.  The function has
  no guard; when \<open>dataset_size \<ge> batch_size > 0\<close> the error cannot occur.
\<close>

theorem percentage_division_by_zero:
  "(max_len div bsize = 0 \<longrightarrow> percentage bsize max_len current = Inl ZeroDivisionError)
   \<and> (0 \<le> max_len \<and> max_len < bsize \<longrightarrow>
        percentage bsize max_len current = Inl ZeroDivisionError)
   \<and> (bsize = 0 \<longrightarrow> int_floordiv max_len bsize = Inl ZeroDivisionError)
   \<and> (0 < bsize \<and> bsize \<le> max_len \<longrightarrow>
        percentage bsize max_len current \<noteq> Inl ZeroDivisionError)"
proof (intro conjI impI)
  assume "max_len div bsize = 0"
  then show "percentage bsize max_len current = Inl ZeroDivisionError"
    by (simp add: percentage_def int_floordiv_def int_truediv_def)
next
  assume "0 \<le> max_len \<and> max_len < bsize"
  then have "max_len div bsize = 0" by (simp add: div_pos_pos_trivial)
  then show "percentage bsize max_len current = Inl ZeroDivisionError"
    by (simp add: percentage_def int_floordiv_def int_truediv_def)
next
  assume "bsize = 0"
  then show "int_floordiv max_len bsize = Inl ZeroDivisionError"
    by (simp add: int_floordiv_def)
next
  assume h: "0 < bsize \<and> bsize \<le> max_len"
  then have "0 < max_len div bsize"
    using pos_imp_zdiv_pos_iff[of bsize max_len] by simp
  then have "max_len div bsize \<noteq> 0" by simp
  then show "percentage bsize max_len current \<noteq> Inl ZeroDivisionError"
    using h
    by (auto simp add: percentage_def int_floordiv_def int_truediv_def round2_def
        split: pyfloat.splits)
qed

theorem percentage_division_by_zero_witness:
  "percentage 4 3 1 = Inl ZeroDivisionError \<and> percentage 0 5 1 = Inl ZeroDivisionError
   \<and> int_floordiv 5 0 = Inl ZeroDivisionError \<and> percentage 2 10 3 \<noteq> Inl ZeroDivisionError"
  using percentage_division_by_zero[of 3 4 1] percentage_division_by_zero[of 5 0 1]
    percentage_division_by_zero[of 10 2 3]
  by simp

section \<open>Properties of the accuracy functions\<close>

text \<open>
  C5.  For a batch of at least one row (fewer than \<open>2^63\<close>, the bound of a tensor size),
  predictions and targets with the same number of rows, each row a non-empty score
  vector: \<open>nsp_accuracy\<close> (the specification's \<open>pair_accuracy\<close>) returns the number of rows
  whose top-scoring class index agrees between prediction and target, divided by the
  number of rows in binary32 arithmetic and rounded to two decimals; below \<open>2^24\<close> rows
  that quotient is the exact fraction rounded once to binary32.  When the indices agree
  on every row the result is \<open>1.0\<close>, when they agree on no row it is \<open>0.0\<close>.
\<close>

theorem nsp_accuracy_fraction:
  assumes "length predictions = length targets" "predictions \<noteq> []"
    "length predictions < 2 ^ 63" "[] \<notin> set predictions" "[] \<notin> set targets"
  shows "nsp_accuracy predictions targets =
           round2 (tensor_truediv (int (pair_matches predictions targets)) (int (length predictions)))
    \<and> (length predictions < 2 ^ 24 \<longrightarrow>
         nsp_accuracy predictions targets =
           round2 (binary32 (of_nat (pair_matches predictions targets) / of_nat (length predictions))))
    \<and> ((\<forall>i<length predictions. argmax_idx (predictions ! i) = argmax_idx (targets ! i)) \<longrightarrow>
         nsp_accuracy predictions targets = Inr (Fin 1))
    \<and> ((\<forall>i<length predictions. argmax_idx (predictions ! i) \<noteq> argmax_idx (targets ! i)) \<longrightarrow>
         nsp_accuracy predictions targets = Inr (Fin 0))"
proof -
  let ?n = "int (length predictions)"
  have "?n < int (2 ^ 63)"
    using assms(3) by (simp only: of_nat_less_iff)
  then have n2: "?n < 2 ^ 63" by simp
  have n1: "1 \<le> ?n" using assms(2) by (cases predictions) simp_all
  note n = n1 n2
  have eq: "nsp_accuracy predictions targets =
           round2 (tensor_truediv (int (pair_matches predictions targets)) ?n)"
    by (rule nsp_accuracy_count[OF assms(1,4,5)])
  have le: "pair_matches predictions targets \<le> length predictions"
    unfolding pair_matches_def using length_filter_le[of _ "[0..<length predictions]"] by simp
  have small: "nsp_accuracy predictions targets =
           round2 (binary32 (of_nat (pair_matches predictions targets) / of_nat (length predictions)))"
    if "length predictions < 2 ^ 24"
  proof -
    have "?n < int (2 ^ 24)"
      using that by (simp only: of_nat_less_iff)
    then have a: "?n < 2 ^ 24" by simp
    have "int (pair_matches predictions targets) \<le> ?n"
      using le by (simp only: of_nat_le_iff)
    with a have b: "\<bar>int (pair_matches predictions targets)\<bar> < 2 ^ 24" by simp
    show ?thesis
      using tensor_truediv_small[OF b n1 a] by (simp add: eq)
  qed
  have all: "nsp_accuracy predictions targets = Inr (Fin 1)"
    if "\<forall>i<length predictions. argmax_idx (predictions ! i) = argmax_idx (targets ! i)"
    using pair_matches_all[OF that] tensor_truediv_self[OF n] by (simp add: eq round2_1)
  have none: "nsp_accuracy predictions targets = Inr (Fin 0)"
    if "\<forall>i<length predictions. argmax_idx (predictions ! i) \<noteq> argmax_idx (targets ! i)"
    using pair_matches_none[OF that] tensor_truediv_zero[OF n] by (simp add: eq round2_0)
  show ?thesis
    using eq small all none by (intro conjI impI)
qed

theorem nsp_accuracy_fraction_witness:
  "nsp_accuracy [[1::int, 2], [3, 1]] [[0::int, 1], [1, 0]] = Inr (Fin 1)
   \<and> nsp_accuracy [[1::int, 2], [3, 1]] [[1::int, 0], [0, 1]] = Inr (Fin 0)"
proof -
  let ?p = "[[1::int, 2], [3, 1]]"
  have sh: "length ?p = length [[0::int, 1], [1, 0]]" "length ?p = length [[1::int, 0], [0, 1]]"
    "?p \<noteq> []" "length ?p < 2 ^ 63" "[] \<notin> set ?p"
    "[] \<notin> set [[0::int, 1], [1, 0]]" "[] \<notin> set [[1::int, 0], [0, 1]]"
    by simp_all
  have h1: "\<forall>i<length ?p. argmax_idx (?p ! i) = argmax_idx ([[0::int, 1], [1, 0]] ! i)"
    by (simp add: less_Suc_eq argmax_idx_def)
  have h2: "\<forall>i<length ?p. argmax_idx (?p ! i) \<noteq> argmax_idx ([[1::int, 0], [0, 1]] ! i)"
    by (simp add: less_Suc_eq argmax_idx_def)
  have a: "nsp_accuracy ?p [[0::int, 1], [1, 0]] = Inr (Fin 1)"
    using nsp_accuracy_fraction[OF sh(1,3,4,5,6)] h1 by blast
  have b: "nsp_accuracy ?p [[1::int, 0], [0, 1]] = Inr (Fin 0)"
    using nsp_accuracy_fraction[OF sh(2,3,4,5,7)] h2 by blast
  from a b show ?thesis by simp
qed

text \<open>
  C2.  For a grid of \<open>B \<ge> 1\<close> by \<open>S \<ge> 1\<close> positions (fewer than \<open>2^63\<close> in all), with
  predictions, targets and ignore mask of that one shape and non-empty score vectors:
  \<open>token_accuracy\<close> counts the positions where the mask is false and the top-scoring
  predicted class is the target, and divides that count by the whole grid size
  \<open>B * S\<close>, not by the number of positions kept, before rounding to two decimals.  So an
  all-false mask with matching predictions everywhere gives \<open>1.0\<close>, and an all-true
  mask gives \<open>0.0\<close> whatever the predictions and targets are.
\<close>

theorem token_accuracy_grid:
  fixes predictions :: "'a::linorder list list list"
  assumes "has_shape B S predictions" "\<forall>row \<in> set predictions. [] \<notin> set row"
    "has_shape B S targets" "has_shape B S ignore_mask" "0 < B" "0 < S" "B * S < 2 ^ 63"
  shows "token_accuracy predictions targets ignore_mask =
           round2 (tensor_truediv (int (token_matches predictions targets ignore_mask))
                     (int B * int S))
    \<and> ((\<forall>i<B. \<forall>j<S. \<not> ignore_mask ! i ! j
            \<and> int (argmax_idx (predictions ! i ! j)) = targets ! i ! j) \<longrightarrow>
         token_accuracy predictions targets ignore_mask = Inr (Fin 1))
    \<and> ((\<forall>i<B. \<forall>j<S. ignore_mask ! i ! j) \<longrightarrow>
         token_accuracy predictions targets ignore_mask = Inr (Fin 0))"
proof -
  let ?n = "int B * int S"
  have eq: "token_accuracy predictions targets ignore_mask =
           round2 (tensor_truediv (int (token_matches predictions targets ignore_mask)) ?n)"
    by (rule token_accuracy_count[OF assms(1-5)])
  have "int (B * S) < int (2 ^ 63)"
    using assms(7) by (simp only: of_nat_less_iff)
  then have n2: "?n < 2 ^ 63" by simp
  have "0 < B * S" using assms(5,6) by simp
  then have "0 < int (B * S)" by (simp only: of_nat_0_less_iff)
  then have n1: "1 \<le> ?n" by simp
  have all: "token_accuracy predictions targets ignore_mask = Inr (Fin 1)"
    if "\<forall>i<B. \<forall>j<S. \<not> ignore_mask ! i ! j
            \<and> int (argmax_idx (predictions ! i ! j)) = targets ! i ! j"
    using token_matches_all[OF assms(1,5) that] tensor_truediv_self[OF n1 n2]
    by (simp add: eq round2_1)
  have none: "token_accuracy predictions targets ignore_mask = Inr (Fin 0)"
    if "\<forall>i<B. \<forall>j<S. ignore_mask ! i ! j"
    using token_matches_none[OF assms(1,5) that] tensor_truediv_zero[OF n1 n2]
    by (simp add: eq round2_0)
  show ?thesis
    using eq all none by (intro conjI impI)
qed

theorem token_accuracy_grid_witness:
  "token_accuracy [[[1::int, 2, 0], [3, 1, 0]], [[0, 0, 1], [0, 5, 1]]] [[1, 0], [2, 1]]
       [[False, False], [False, False]] = Inr (Fin 1)
   \<and> token_accuracy [[[1::int, 2, 0], [3, 1, 0]], [[0, 0, 1], [0, 5, 1]]] [[1, 0], [2, 1]]
       [[True, True], [True, True]] = Inr (Fin 0)
   \<and> token_accuracy [[[1::int, 2, 0], [3, 1, 0]], [[0, 0, 1], [0, 5, 1]]] [[1, 0], [2, 1]]
       [[True, False], [False, False]] = Inr (Fin (3 / 4))"
proof -
  let ?p = "[[[1::int, 2, 0], [3, 1, 0]], [[0, 0, 1], [0, 5, 1]]]"
  let ?t = "[[1::int, 0], [2, 1]]"
  let ?f = "[[False, False], [False, False]]"
  let ?a = "[[True, True], [True, True]]"
  let ?m = "[[True, False], [False, False]]"
  have upt2: "[0..<2] = [0, 1]" by (simp add: numeral_2_eq_2)
  have sh: "has_shape 2 2 ?p" "\<forall>row \<in> set ?p. [] \<notin> set row" "has_shape 2 2 ?t"
    "(0::nat) < 2" "(2::nat) * 2 < 2 ^ 63"
    by (simp_all add: has_shape_def)
  have shm: "has_shape 2 2 ?f" "has_shape 2 2 ?a" "has_shape 2 2 ?m"
    by (simp_all add: has_shape_def)
  have hf: "\<forall>i<2. \<forall>j<2. \<not> ?f ! i ! j \<and> int (argmax_idx (?p ! i ! j)) = ?t ! i ! j"
    by (simp add: all_less_2 argmax_idx_def)
  have ha: "\<forall>i<2. \<forall>j<2. ?a ! i ! j"
    by (simp add: all_less_2)
  have a: "token_accuracy ?p ?t ?f = Inr (Fin 1)"
    using token_accuracy_grid[OF sh(1,2,3) shm(1) sh(4,4,5)] hf by blast
  have b: "token_accuracy ?p ?t ?a = Inr (Fin 0)"
    using token_accuracy_grid[OF sh(1,2,3) shm(2) sh(4,4,5)] ha by blast
  have "token_matches ?p ?t ?m = 3"
    by (simp add: token_matches_def size0_def size1_def upt2 argmax_idx_def)
  moreover have "token_accuracy ?p ?t ?m
      = round2 (tensor_truediv (int (token_matches ?p ?t ?m)) (int 2 * int 2))"
    using token_accuracy_grid[OF sh(1,2,3) shm(3) sh(4,4,5)] by blast
  ultimately have c: "token_accuracy ?p ?t ?m = Inr (Fin (3 / 4))"
    by (simp add: tensor_truediv_3_4 round2_three_quarters)
  from a b c show ?thesis by simp
qed

section \<open>Properties of checkpoints and of the run\<close>

text \<open>
  C6, as the code has it.  \<open>save_checkpoint\<close> changes nothing when no checkpoint directory
  is configured.  Otherwise it leaves the trainer unchanged and writes the record of
  epoch, model state, optimizer state and loss to the file
  \<open>bert_epoch<E>_step<S>_<unixtime>.pt\<close> of the directory: that file is created or
  replaced, every file of another name is left as it was, and no file is removed.
\<close>

theorem save_checkpoint_effect:
  "(checkpoint_dir st = None \<longrightarrow> save_checkpoint unixtime epoch step loss (st, w) = (st, w))
   \<and> (checkpoint_dir st = Some dir \<longrightarrow>
        (\<exists>w'. save_checkpoint unixtime epoch step loss (st, w) = (st, w')
           \<and> files w' (joinpath dir (checkpoint_name epoch step unixtime))
               = Some \<lparr>ck_epoch = epoch, model_state_dict = model st,
                       optimizer_state_dict = optimizer st, ck_loss = loss\<rparr>
           \<and> (\<forall>p. p \<noteq> joinpath dir (checkpoint_name epoch step unixtime)
                  \<longrightarrow> files w' p = files w p)
           \<and> dom (files w')
               = insert (joinpath dir (checkpoint_name epoch step unixtime)) (dom (files w))
           \<and> calls w' = calls w))
   \<and> checkpoint_name epoch step unixtime
       = ''bert_epoch'' @ show_int epoch @ ''_step'' @ show_int step @ ''_''
           @ show_int unixtime @ ''.pt''"
proof (intro conjI impI)
  assume "checkpoint_dir st = None"
  then show "save_checkpoint unixtime epoch step loss (st, w) = (st, w)"
    by (rule save_checkpoint_None)
next
  assume d: "checkpoint_dir st = Some dir"
  show "\<exists>w'. save_checkpoint unixtime epoch step loss (st, w) = (st, w')
           \<and> files w' (joinpath dir (checkpoint_name epoch step unixtime))
               = Some \<lparr>ck_epoch = epoch, model_state_dict = model st,
                       optimizer_state_dict = optimizer st, ck_loss = loss\<rparr>
           \<and> (\<forall>p. p \<noteq> joinpath dir (checkpoint_name epoch step unixtime)
                  \<longrightarrow> files w' p = files w p)
           \<and> dom (files w')
               = insert (joinpath dir (checkpoint_name epoch step unixtime)) (dom (files w))
           \<and> calls w' = calls w"
    unfolding save_checkpoint_Some[OF d] by auto
next
  show "checkpoint_name epoch step unixtime
       = ''bert_epoch'' @ show_int epoch @ ''_step'' @ show_int step @ ''_''
           @ show_int unixtime @ ''.pt''"
    by (simp add: checkpoint_name_def)
qed

theorem save_checkpoint_effect_witness:
  "save_checkpoint 70 0 (- 1) 4 (example_trainer\<lparr>checkpoint_dir := None\<rparr>, example_world)
     = (example_trainer\<lparr>checkpoint_dir := None\<rparr>, example_world)
   \<and> files (snd (save_checkpoint 70 0 (- 1) 4 (example_trainer, example_world)))
        ''ckpt/bert_epoch0_step-1_70.pt''
     = Some \<lparr>ck_epoch = 0, model_state_dict = 0, optimizer_state_dict = 0, ck_loss = 4\<rparr>"
proof -
  have n: "joinpath ''ckpt'' (checkpoint_name 0 (- 1) 70) = ''ckpt/bert_epoch0_step-1_70.pt''"
    by (simp add: joinpath_def checkpoint_name_def show_int_def show_nat.simps)
  have a: "save_checkpoint 70 0 (- 1) 4 (example_trainer\<lparr>checkpoint_dir := None\<rparr>, example_world)
     = (example_trainer\<lparr>checkpoint_dir := None\<rparr>, example_world)"
    using save_checkpoint_effect[where st = "example_trainer\<lparr>checkpoint_dir := None\<rparr>"
        and unixtime = 70 and epoch = 0 and step = "- 1" and loss = 4 and w = example_world]
    by simp
  have b: "files (snd (save_checkpoint 70 0 (- 1) 4 (example_trainer, example_world)))
        ''ckpt/bert_epoch0_step-1_70.pt''
     = Some \<lparr>ck_epoch = 0, model_state_dict = 0, optimizer_state_dict = 0, ck_loss = 4\<rparr>"
    using save_checkpoint_effect[where st = example_trainer and dir = "''ckpt''"
        and unixtime = 70 and epoch = 0 and step = "- 1" and loss = 4 and w = example_world]
    by (auto simp add: n example_trainer_def)
  from a b show ?thesis by simp
qed

text \<open>
  C6 as stated claims that an existing checkpoint is never overwritten.  A checkpoint
  saved for the same epoch and step within the same second has the same file name, and
  the second save replaces the first.
\<close>

theorem save_checkpoint_overwrites:
  "files (example_world\<lparr>files := [''ckpt/bert_epoch0_step-1_70.pt'' \<mapsto>
            \<lparr>ck_epoch = 0, model_state_dict = 9, optimizer_state_dict = 9, ck_loss = 9\<rparr>]\<rparr>)
       ''ckpt/bert_epoch0_step-1_70.pt''
     = Some \<lparr>ck_epoch = 0, model_state_dict = 9, optimizer_state_dict = 9, ck_loss = 9\<rparr>
   \<and> files (snd (save_checkpoint 70 0 (- 1) 4
         (example_trainer,
          example_world\<lparr>files := [''ckpt/bert_epoch0_step-1_70.pt'' \<mapsto>
            \<lparr>ck_epoch = 0, model_state_dict = 9, optimizer_state_dict = 9, ck_loss = 9\<rparr>]\<rparr>)))
       ''ckpt/bert_epoch0_step-1_70.pt''
     \<noteq> Some \<lparr>ck_epoch = 0, model_state_dict = 9, optimizer_state_dict = 9, ck_loss = 9\<rparr>"
  by (simp add: save_checkpoint_def example_trainer_def example_world_def Let_def
      joinpath_def checkpoint_name_def show_int_def show_nat.simps)

text \<open>
  C10.  Every checkpoint saved by a run that completes is saved with step \<open>-1\<close>: each
  call of \<open>save_checkpoint\<close> made by the run has step \<open>-1\<close>, every file the run creates
  or changes is named \<open>bert_epoch<E>_step-1_<unixtime>.pt\<close> for an epoch \<open>E\<close> of the run,
  and with a checkpoint directory configured each epoch of the run has such a file.
\<close>

theorem run_saves_with_step_minus_one:
  assumes "run c clock (st, w) = Inr (st', w')"
  shows "(\<forall>e k l. Save_call e k l \<in> set (drop (length (calls w)) (calls w')) \<longrightarrow> k = - 1)
    \<and> (\<forall>p. files w' p \<noteq> files w p \<longrightarrow>
          (\<exists>e d. current_epoch st \<le> e \<and> e < epochs st \<and> checkpoint_dir st = Some d
             \<and> p = joinpath d (''bert_epoch'' @ show_int e @ ''_step-1_''
                                  @ show_int (clock e) @ ''.pt'')))
    \<and> (\<forall>e d. current_epoch st \<le> e \<and> e < epochs st \<and> checkpoint_dir st = Some d \<longrightarrow>
          joinpath d (''bert_epoch'' @ show_int e @ ''_step-1_'' @ show_int (clock e) @ ''.pt'')
            \<in> dom (files w'))"
proof -
  let ?es = "[current_epoch st..epochs st - 1]"
  have r: "run_epochs c clock ?es (st, w) = Inr (st', w')"
    using assms by (simp add: run_def)
  note t = run_epochs_trace[OF r]
  note t1 = t[THEN conjunct1]
  note t5 = t[THEN conjunct2, THEN conjunct2, THEN conjunct2, THEN conjunct2, THEN conjunct1]
  from t1 obtain ls where ls: "length ls = length ?es"
    "calls w' = calls w @ concat (map2 (\<lambda>e l. [Train_call e, Save_call e (- 1) l]) ?es ls)"
    by (elim exE conjE)
  have dr: "drop (length (calls w)) (calls w')
      = concat (map2 (\<lambda>e l. [Train_call e, Save_call e (- 1) l]) ?es ls)"
    unfolding ls(2) by (rule append_eq_conv_conj[THEN iffD1, THEN conjunct2, OF refl, symmetric])
  have A: "k = - 1" if "Save_call e k l \<in> set (drop (length (calls w)) (calls w'))" for e k l
    using that unfolding dr by (rule save_calls_step[OF ls(1)])
  have B: "\<exists>e d. current_epoch st \<le> e \<and> e < epochs st \<and> checkpoint_dir st = Some d
             \<and> p = joinpath d (''bert_epoch'' @ show_int e @ ''_step-1_''
                                  @ show_int (clock e) @ ''.pt'')"
    if "files w' p \<noteq> files w p" for p
  proof -
    from t5 that have "\<exists>e \<in> set ?es. \<exists>d. checkpoint_dir st = Some d
        \<and> p = joinpath d (checkpoint_name e (- 1) (clock e))"
      by (elim allE impE) assumption+
    then obtain e d where "e \<in> set ?es" "checkpoint_dir st = Some d"
      "p = joinpath d (checkpoint_name e (- 1) (clock e))"
      by (elim bexE exE conjE)
    then show ?thesis
      by (auto simp add: checkpoint_name_step_minus_one)
  qed
  have C: "joinpath d (''bert_epoch'' @ show_int e @ ''_step-1_'' @ show_int (clock e) @ ''.pt'')
            \<in> dom (files w')"
    if "current_epoch st \<le> e \<and> e < epochs st \<and> checkpoint_dir st = Some d" for e d
  proof -
    from that have "e \<in> set ?es" by simp
    from run_epochs_saved[OF r _ this, of d] that show ?thesis
      by (simp add: checkpoint_name_step_minus_one)
  qed
  show ?thesis
    using A B C by (intro conjI allI impI)
qed

theorem run_saves_with_step_minus_one_witness:
  "\<exists>st' w'. run example_collaborators example_clock (example_trainer, example_world) = Inr (st', w')
     \<and> (\<forall>e k l. Save_call e k l \<in> set (calls w') \<longrightarrow> k = - 1)
     \<and> ''ckpt/bert_epoch1_step-1_71.pt'' \<in> dom (files w')"
proof -
  obtain st' w' where
    r: "run example_collaborators example_clock (example_trainer, example_world) = Inr (st', w')"
    using example_run_calls by blast
  have n: "joinpath ''ckpt'' (''bert_epoch'' @ show_int 1 @ ''_step-1_''
              @ show_int (example_clock 1) @ ''.pt'') = ''ckpt/bert_epoch1_step-1_71.pt''"
    by (simp add: joinpath_def example_clock_def show_int_def show_nat.simps)
  have "(\<forall>e k l. Save_call e k l \<in> set (calls w') \<longrightarrow> k = - 1)"
    using run_saves_with_step_minus_one[OF r] by (simp add: example_world_def)
  moreover have "''ckpt/bert_epoch1_step-1_71.pt'' \<in> dom (files w')"
  proof -
    have "current_epoch example_trainer \<le> 1 \<and> 1 < epochs example_trainer
        \<and> checkpoint_dir example_trainer = Some ''ckpt''"
      by (simp add: example_trainer_def)
    then have "joinpath ''ckpt'' (''bert_epoch'' @ show_int 1 @ ''_step-1_''
              @ show_int (example_clock 1) @ ''.pt'') \<in> dom (files w')"
      using run_saves_with_step_minus_one[OF r] by blast
    then show ?thesis by (simp only: n)
  qed
  ultimately show ?thesis using r by blast
qed

text \<open>
  C1.  A run that completes trains and then saves each epoch from \<open>current_epoch\<close> up to,
  not including, the configured epoch count, once and in order: these are its calls; the
  output shows the \<open>Begin epoch\<close> line of \<open>train\<close> for each of these epochs, followed,
  when a checkpoint directory is configured, by the \<open>Model saved\<close> line of its
  checkpoint; the model and the optimizer have taken the gradient steps of the batches
  of these epochs in order; and the checkpoint of the last epoch holds that epoch, the
  final model and optimizer state and the loss of the last save.  With no epoch left the
  run changes nothing.  Loading a checkpoint with stored epoch \<open>e\<close> sets \<open>current_epoch\<close>
  to \<open>e\<close> and restores the stored model and optimizer state, so that the next run
  iterates over the epochs from \<open>e\<close>: its first call trains epoch \<open>e\<close> itself, not
  \<open>e + 1\<close>, its first line of output is \<open>Begin epoch e\<close>, and it takes the gradient steps
  of the batches of epoch \<open>e\<close> onwards from the restored state.  The run does complete
  when the cadences are not zero, the dataset holds at least one full batch, and each of
  its epochs has a batch and well-formed outputs of the model.
\<close>

theorem run_resumes_at_current_epoch:
  "(run c clock (st, w) = Inr (st', w') \<longrightarrow>
      (\<exists>ls. length ls = length [current_epoch st..epochs st - 1]
         \<and> calls w' = calls w
              @ concat (map2 (\<lambda>e l. [Train_call e, Save_call e (- 1) l])
                          [current_epoch st..epochs st - 1] ls))
      \<and> epoch_events (console w')
           = epoch_events (console w)
             @ concat (map (\<lambda>e. Begin_epoch e
                               # (case checkpoint_dir st of
                                    None \<Rightarrow> []
                                  | Some d \<Rightarrow> [Model_saved (checkpoint_name e (- 1) (clock e))]))
                         [current_epoch st..epochs st - 1])
      \<and> (model st', optimizer st')
           = params_after c (model st, optimizer st)
               (concat (map (loader c) [current_epoch st..epochs st - 1]))
      \<and> epochs st' = epochs st
      \<and> (current_epoch st < epochs st \<longrightarrow>
           current_epoch st' = epochs st - 1
           \<and> (\<forall>d. checkpoint_dir st = Some d \<longrightarrow>
                 (\<exists>l. files w' (joinpath d (checkpoint_name (epochs st - 1) (- 1)
                                              (clock (epochs st - 1))))
                         = Some \<lparr>ck_epoch = epochs st - 1, model_state_dict = model st',
                                 optimizer_state_dict = optimizer st', ck_loss = l\<rparr>
                       \<and> last (calls w') = Save_call (epochs st - 1) (- 1) l)))
      \<and> (epochs st \<le> current_epoch st \<longrightarrow> st' = st \<and> w' = w))
   \<and> (files w path = Some ck \<longrightarrow>
        (\<exists>st1 w1. load_checkpoint path (st, w) = Inr (st1, w1)
           \<and> current_epoch st1 = ck_epoch ck \<and> epochs st1 = epochs st
           \<and> model st1 = model_state_dict ck \<and> optimizer st1 = optimizer_state_dict ck
           \<and> run c clock (st1, w1) = run_epochs c clock [ck_epoch ck..epochs st - 1] (st1, w1)
           \<and> (\<forall>st2 w2. run c clock (st1, w1) = Inr (st2, w2) \<longrightarrow>
                 epoch_events (console w2)
                   = epoch_events (console w)
                     @ concat (map (\<lambda>e. Begin_epoch e
                                       # (case checkpoint_dir st of
                                            None \<Rightarrow> []
                                          | Some d \<Rightarrow>
                                              [Model_saved (checkpoint_name e (- 1) (clock e))]))
                                 [ck_epoch ck..epochs st - 1])
                 \<and> (model st2, optimizer st2)
                     = params_after c (model_state_dict ck, optimizer_state_dict ck)
                         (concat (map (loader c) [ck_epoch ck..epochs st - 1])))
           \<and> (\<forall>st2 w2. run c clock (st1, w1) = Inr (st2, w2) \<and> ck_epoch ck < epochs st \<longrightarrow>
                 calls w2 ! length (calls w1) = Train_call (ck_epoch ck)
                 \<and> epoch_events (console w2) ! length (epoch_events (console w1))
                     = Begin_epoch (ck_epoch ck))))
   \<and> (print_every st \<noteq> 0 \<and> accuracy_every st \<noteq> 0 \<and> 1 \<le> ds_len st div batch_size st
       \<and> (\<forall>e. current_epoch st \<le> e \<and> e < epochs st \<longrightarrow>
             loader c e \<noteq> [] \<and> length (loader c e) \<le> 2 ^ 1000
             \<and> (\<forall>v \<in> set (loader c e).
                   \<forall>m. well_shaped (model_forward c m (inp v) (attention_mask v)) v)) \<longrightarrow>
       (\<exists>st' w'. run c clock (st, w) = Inr (st', w')))"
proof -
  have A: "(\<exists>ls. length ls = length [current_epoch st..epochs st - 1]
         \<and> calls w' = calls w
              @ concat (map2 (\<lambda>e l. [Train_call e, Save_call e (- 1) l])
                          [current_epoch st..epochs st - 1] ls))
      \<and> epoch_events (console w')
           = epoch_events (console w)
             @ concat (map (\<lambda>e. Begin_epoch e
                               # (case checkpoint_dir st of
                                    None \<Rightarrow> []
                                  | Some d \<Rightarrow> [Model_saved (checkpoint_name e (- 1) (clock e))]))
                         [current_epoch st..epochs st - 1])
      \<and> (model st', optimizer st')
           = params_after c (model st, optimizer st)
               (concat (map (loader c) [current_epoch st..epochs st - 1]))
      \<and> epochs st' = epochs st
      \<and> (current_epoch st < epochs st \<longrightarrow>
           current_epoch st' = epochs st - 1
           \<and> (\<forall>d. checkpoint_dir st = Some d \<longrightarrow>
                 (\<exists>l. files w' (joinpath d (checkpoint_name (epochs st - 1) (- 1)
                                              (clock (epochs st - 1))))
                         = Some \<lparr>ck_epoch = epochs st - 1, model_state_dict = model st',
                                 optimizer_state_dict = optimizer st', ck_loss = l\<rparr>
                       \<and> last (calls w') = Save_call (epochs st - 1) (- 1) l)))
      \<and> (epochs st \<le> current_epoch st \<longrightarrow> st' = st \<and> w' = w)"
    if r: "run c clock (st, w) = Inr (st', w')"
  proof -
    note e = run_effects[OF r]
    have e5: "current_epoch st < epochs st \<longrightarrow>
           current_epoch st' = epochs st - 1
           \<and> (\<forall>d. checkpoint_dir st = Some d \<longrightarrow>
                 (\<exists>l. files w' (joinpath d (checkpoint_name (epochs st - 1) (- 1)
                                              (clock (epochs st - 1))))
                         = Some \<lparr>ck_epoch = epochs st - 1, model_state_dict = model st',
                                 optimizer_state_dict = optimizer st', ck_loss = l\<rparr>
                       \<and> last (calls w') = Save_call (epochs st - 1) (- 1) l))"
    proof (intro impI conjI allI)
      assume lt: "current_epoch st < epochs st"
      show "current_epoch st' = epochs st - 1" using lt by (rule e(5))
      fix d assume d: "checkpoint_dir st = Some d"
      show "\<exists>l. files w' (joinpath d (checkpoint_name (epochs st - 1) (- 1)
                                              (clock (epochs st - 1))))
                         = Some \<lparr>ck_epoch = epochs st - 1, model_state_dict = model st',
                                 optimizer_state_dict = optimizer st', ck_loss = l\<rparr>
                       \<and> last (calls w') = Save_call (epochs st - 1) (- 1) l"
        using lt d by (rule e(6))
    qed
    have e7: "epochs st \<le> current_epoch st \<longrightarrow> st' = st \<and> w' = w"
      using e(7) by (rule impI)
    show ?thesis
      using e(1) e(2) e(3) e(4) e5 e7 by (intro conjI)
  qed
  have B: "\<exists>st1 w1. load_checkpoint path (st, w) = Inr (st1, w1)
           \<and> current_epoch st1 = ck_epoch ck \<and> epochs st1 = epochs st
           \<and> model st1 = model_state_dict ck \<and> optimizer st1 = optimizer_state_dict ck
           \<and> run c clock (st1, w1) = run_epochs c clock [ck_epoch ck..epochs st - 1] (st1, w1)
           \<and> (\<forall>st2 w2. run c clock (st1, w1) = Inr (st2, w2) \<longrightarrow>
                 epoch_events (console w2)
                   = epoch_events (console w)
                     @ concat (map (\<lambda>e. Begin_epoch e
                                       # (case checkpoint_dir st of
                                            None \<Rightarrow> []
                                          | Some d \<Rightarrow>
                                              [Model_saved (checkpoint_name e (- 1) (clock e))]))
                                 [ck_epoch ck..epochs st - 1])
                 \<and> (model st2, optimizer st2)
                     = params_after c (model_state_dict ck, optimizer_state_dict ck)
                         (concat (map (loader c) [ck_epoch ck..epochs st - 1])))
           \<and> (\<forall>st2 w2. run c clock (st1, w1) = Inr (st2, w2) \<and> ck_epoch ck < epochs st \<longrightarrow>
                 calls w2 ! length (calls w1) = Train_call (ck_epoch ck)
                 \<and> epoch_events (console w2) ! length (epoch_events (console w1))
                     = Begin_epoch (ck_epoch ck))"
    if f: "files w path = Some ck"
  proof -
    define st1 where "st1 = st\<lparr>current_epoch := ck_epoch ck, model := model_state_dict ck,
               optimizer := optimizer_state_dict ck\<rparr>"
    define w1 where "w1 = w\<lparr>console := console w @ [Restoring path, Restored]\<rparr>"
    let ?es = "[ck_epoch ck..epochs st - 1]"
    let ?tr = "concat (map (\<lambda>e. Begin_epoch e
                                       # (case checkpoint_dir st of
                                            None \<Rightarrow> []
                                          | Some d \<Rightarrow>
                                              [Model_saved (checkpoint_name e (- 1) (clock e))]))
                                 ?es)"
    have l: "load_checkpoint path (st, w) = Inr (st1, w1)"
      unfolding st1_def w1_def by (rule load_checkpoint_Some[OF f])
    have ce: "current_epoch st1 = ck_epoch ck" and ep: "epochs st1 = epochs st"
      and mo: "model st1 = model_state_dict ck" and op: "optimizer st1 = optimizer_state_dict ck"
      and dir: "checkpoint_dir st1 = checkpoint_dir st"
      by (simp_all add: st1_def)
    have ev1: "epoch_events (console w1) = epoch_events (console w)"
      by (simp add: w1_def epoch_events_append)
    have rn: "run c clock (st1, w1) = run_epochs c clock ?es (st1, w1)"
      by (simp add: run_def ce ep)
    have eff: "epoch_events (console w2) = epoch_events (console w) @ ?tr
        \<and> (model st2, optimizer st2)
             = params_after c (model_state_dict ck, optimizer_state_dict ck)
                 (concat (map (loader c) ?es))"
      if r2: "run c clock (st1, w1) = Inr (st2, w2)" for st2 w2
    proof -
      note e = run_effects[OF r2]
      from e(2) have "epoch_events (console w2) = epoch_events (console w) @ ?tr"
        by (simp only: ce ep dir ev1)
      moreover from e(3) have "(model st2, optimizer st2)
             = params_after c (model_state_dict ck, optimizer_state_dict ck)
                 (concat (map (loader c) ?es))"
        by (simp only: ce ep mo op)
      ultimately show ?thesis by (rule conjI)
    qed
    have first: "calls w2 ! length (calls w1) = Train_call (ck_epoch ck)
        \<and> epoch_events (console w2) ! length (epoch_events (console w1))
            = Begin_epoch (ck_epoch ck)"
      if "run c clock (st1, w1) = Inr (st2, w2) \<and> ck_epoch ck < epochs st" for st2 w2
    proof -
      from that have r2: "run c clock (st1, w1) = Inr (st2, w2)"
        and lt: "ck_epoch ck < epochs st"
        by simp_all
      have r2': "run_epochs c clock ?es (st1, w1) = Inr (st2, w2)"
        using r2 by (simp only: rn)
      from run_epochs_trace[OF r2', THEN conjunct1] obtain ls where
        ls: "length ls = length ?es"
        "calls w2 = calls w1 @ concat (map2 (\<lambda>e l. [Train_call e, Save_call e (- 1) l]) ?es ls)"
        by (elim exE conjE)
      have ne: "?es \<noteq> []" and hd: "hd ?es = ck_epoch ck"
        using lt by (simp_all add: upto.simps)
      have c1: "calls w2 ! length (calls w1) = Train_call (ck_epoch ck)"
        unfolding ls(2) using hd_concat_calls[OF ls(1) ne, of "calls w1"] by (simp only: hd)
      have "epoch_events (console w2) = epoch_events (console w1) @ ?tr"
        using eff[OF r2, THEN conjunct1] by (simp only: ev1)
      then have c2: "epoch_events (console w2) ! length (epoch_events (console w1))
            = Begin_epoch (ck_epoch ck)"
        using hd_concat_events[OF ne, of "epoch_events (console w1)"] by (simp only: hd)
      from c1 c2 show ?thesis by (rule conjI)
    qed
    have eff': "\<forall>st2 w2. run c clock (st1, w1) = Inr (st2, w2) \<longrightarrow>
        epoch_events (console w2) = epoch_events (console w) @ ?tr
        \<and> (model st2, optimizer st2)
             = params_after c (model_state_dict ck, optimizer_state_dict ck)
                 (concat (map (loader c) ?es))"
      by (intro allI impI) (rule eff)
    have first': "\<forall>st2 w2. run c clock (st1, w1) = Inr (st2, w2) \<and> ck_epoch ck < epochs st \<longrightarrow>
        calls w2 ! length (calls w1) = Train_call (ck_epoch ck)
        \<and> epoch_events (console w2) ! length (epoch_events (console w1))
            = Begin_epoch (ck_epoch ck)"
      by (intro allI impI) (rule first)
    show ?thesis
      using l ce ep mo op rn eff' first' by (intro exI[of _ st1] exI[of _ w1] conjI)
  qed
  have C: "\<exists>st' w'. run c clock (st, w) = Inr (st', w')"
    if h: "print_every st \<noteq> 0 \<and> accuracy_every st \<noteq> 0 \<and> 1 \<le> ds_len st div batch_size st
       \<and> (\<forall>e. current_epoch st \<le> e \<and> e < epochs st \<longrightarrow>
             loader c e \<noteq> [] \<and> length (loader c e) \<le> 2 ^ 1000
             \<and> (\<forall>v \<in> set (loader c e).
                   \<forall>m. well_shaped (model_forward c m (inp v) (attention_mask v)) v))"
  proof -
    from h have h1: "print_every st \<noteq> 0" and h2: "accuracy_every st \<noteq> 0"
      and h3: "1 \<le> ds_len st div batch_size st"
      and h4: "\<forall>e. current_epoch st \<le> e \<and> e < epochs st \<longrightarrow>
             loader c e \<noteq> [] \<and> length (loader c e) \<le> 2 ^ 1000
             \<and> (\<forall>v \<in> set (loader c e).
                   \<forall>m. well_shaped (model_forward c m (inp v) (attention_mask v)) v)"
      by blast+
    have "\<forall>e \<in> set [current_epoch st..epochs st - 1].
        loader c e \<noteq> [] \<and> length (loader c e) \<le> 2 ^ 1000
        \<and> (\<forall>v \<in> set (loader c e).
              \<forall>m. well_shaped (model_forward c m (inp v) (attention_mask v)) v)"
      using h4 by simp
    from run_epochs_returns[OF h1 h2 h3 this]
    show ?thesis by (simp add: run_def)
  qed
  show ?thesis
    apply (rule conjI)
     apply (rule impI)
     apply (erule A)
    apply (rule conjI)
     apply (rule impI)
     apply (erule B)
    apply (rule impI)
    apply (erule C)
    done
qed

theorem run_resumes_at_current_epoch_witness:
  "(\<exists>st' w' ls l. run example_collaborators example_clock (example_trainer, example_world)
        = Inr (st', w')
      \<and> length ls = 2
      \<and> calls w' = concat (map2 (\<lambda>e l. [Train_call e, Save_call e (- 1) l]) [0, 1] ls)
      \<and> epoch_events (console w')
          = [Begin_epoch 0, Model_saved ''bert_epoch0_step-1_70.pt'',
             Begin_epoch 1, Model_saved ''bert_epoch1_step-1_71.pt'']
      \<and> model st' = 8 \<and> optimizer st' = 16 \<and> current_epoch st' = 1
      \<and> files w' ''ckpt/bert_epoch1_step-1_71.pt''
          = Some \<lparr>ck_epoch = 1, model_state_dict = 8, optimizer_state_dict = 16, ck_loss = l\<rparr>)
   \<and> (\<exists>st1 w1 st2 w2.
        load_checkpoint ''ckpt/bert_epoch1_step-1_71.pt''
          (example_trainer,
           example_world\<lparr>files := [''ckpt/bert_epoch1_step-1_71.pt'' \<mapsto>
              \<lparr>ck_epoch = 1, model_state_dict = 8, optimizer_state_dict = 16, ck_loss = 8\<rparr>]\<rparr>)
          = Inr (st1, w1)
      \<and> current_epoch st1 = 1
      \<and> run example_collaborators example_clock (st1, w1) = Inr (st2, w2)
      \<and> calls w2 ! length (calls w1) = Train_call 1
      \<and> epoch_events (console w2) = [Begin_epoch 1, Model_saved ''bert_epoch1_step-1_71.pt'']
      \<and> model st2 = 12 \<and> optimizer st2 = 24)"
proof -
  let ?c = example_collaborators
  let ?ck = "\<lparr>ck_epoch = 1, model_state_dict = 8::int, optimizer_state_dict = 16::int,
               ck_loss = 8::rat\<rparr>"
  let ?p = "''ckpt/bert_epoch1_step-1_71.pt''"
  let ?w = "example_world\<lparr>files := [?p \<mapsto> ?ck]\<rparr>"
  have up: "[0..1::int] = [0, 1]" "[1..1::int] = [1]" by (simp_all add: upto.simps)
  have cfg: "print_every example_trainer \<noteq> 0 \<and> accuracy_every example_trainer \<noteq> 0
      \<and> 1 \<le> ds_len example_trainer div batch_size example_trainer
      \<and> (\<forall>e. current_epoch example_trainer \<le> e \<and> e < epochs example_trainer \<longrightarrow>
            loader ?c e \<noteq> [] \<and> length (loader ?c e) \<le> 2 ^ 1000
            \<and> (\<forall>v \<in> set (loader ?c e).
                  \<forall>m. well_shaped (model_forward ?c m (inp v) (attention_mask v)) v))"
    using example_epoch_ok by (simp add: example_trainer_def)
  from run_resumes_at_current_epoch[where c = ?c and clock = example_clock
      and st = example_trainer and w = example_world,
      THEN conjunct2, THEN conjunct2, THEN mp, OF cfg]
  obtain st' w' where
    r: "run ?c example_clock (example_trainer, example_world) = Inr (st', w')"
    by (elim exE)
  note t = run_resumes_at_current_epoch[where c = ?c and clock = example_clock
      and st = example_trainer and w = example_world and st' = st' and w' = w',
      THEN conjunct1, THEN mp, OF r]
  from t[THEN conjunct1]
  obtain ls where "length ls = length [current_epoch example_trainer..epochs example_trainer - 1]"
    "calls w' = calls example_world
        @ concat (map2 (\<lambda>e l. [Train_call e, Save_call e (- 1) l])
                    [current_epoch example_trainer..epochs example_trainer - 1] ls)"
    by (elim exE conjE)
  then have A1: "length ls = 2"
    "calls w' = concat (map2 (\<lambda>e l. [Train_call e, Save_call e (- 1) l]) [0, 1] ls)"
    by (simp_all add: example_trainer_def example_world_def up)
  have A2: "epoch_events (console w')
          = [Begin_epoch 0, Model_saved ''bert_epoch0_step-1_70.pt'',
             Begin_epoch 1, Model_saved ''bert_epoch1_step-1_71.pt'']"
    using t[THEN conjunct2, THEN conjunct1]
    by (simp add: example_trainer_def example_world_def up checkpoint_name_def show_int_def
        show_nat.simps example_clock_def)
  have "(model st', optimizer st') = (8, 16)"
    using t[THEN conjunct2, THEN conjunct2, THEN conjunct1]
    by (simp add: example_trainer_def up params_after_def example_collaborators_def)
  then have A3: "model st' = 8" "optimizer st' = 16" by simp_all
  note t5 = t[THEN conjunct2, THEN conjunct2, THEN conjunct2, THEN conjunct2, THEN conjunct1]
  have lt: "current_epoch example_trainer < epochs example_trainer"
    by (simp add: example_trainer_def)
  have A4: "current_epoch st' = 1"
    using t5[THEN mp, OF lt, THEN conjunct1] by (simp add: example_trainer_def)
  have d: "checkpoint_dir example_trainer = Some ''ckpt''" by (simp add: example_trainer_def)
  from t5[THEN mp, OF lt, THEN conjunct2, rule_format, OF d]
  obtain l where "files w' (joinpath ''ckpt'' (checkpoint_name (epochs example_trainer - 1) (- 1)
                     (example_clock (epochs example_trainer - 1))))
        = Some \<lparr>ck_epoch = epochs example_trainer - 1, model_state_dict = model st',
                optimizer_state_dict = optimizer st', ck_loss = l\<rparr>"
    by (elim exE conjE)
  then have A5: "files w' ?p
        = Some \<lparr>ck_epoch = 1, model_state_dict = 8, optimizer_state_dict = 16, ck_loss = l\<rparr>"
    by (simp add: A3 example_trainer_def checkpoint_name_def show_int_def show_nat.simps
        example_clock_def joinpath_def)
  from r A1 A2 A3 A4 A5 have P1: "\<exists>st' w' ls l.
      run ?c example_clock (example_trainer, example_world) = Inr (st', w')
      \<and> length ls = 2
      \<and> calls w' = concat (map2 (\<lambda>e l. [Train_call e, Save_call e (- 1) l]) [0, 1] ls)
      \<and> epoch_events (console w')
          = [Begin_epoch 0, Model_saved ''bert_epoch0_step-1_70.pt'',
             Begin_epoch 1, Model_saved ''bert_epoch1_step-1_71.pt'']
      \<and> model st' = 8 \<and> optimizer st' = 16 \<and> current_epoch st' = 1
      \<and> files w' ?p
          = Some \<lparr>ck_epoch = 1, model_state_dict = 8, optimizer_state_dict = 16, ck_loss = l\<rparr>"
    by (intro exI conjI)
  have f: "files ?w ?p = Some ?ck" by simp
  from run_resumes_at_current_epoch[where c = ?c and clock = example_clock
      and st = example_trainer and w = ?w and path = ?p and ck = ?ck,
      THEN conjunct2, THEN conjunct1, THEN mp, OF f]
  obtain st1 w1 where l: "load_checkpoint ?p (example_trainer, ?w) = Inr (st1, w1)"
    and ce: "current_epoch st1 = ck_epoch ?ck"
    and eff: "\<forall>st2 w2. run ?c example_clock (st1, w1) = Inr (st2, w2) \<longrightarrow>
        epoch_events (console w2)
          = epoch_events (console ?w)
            @ concat (map (\<lambda>e. Begin_epoch e
                              # (case checkpoint_dir example_trainer of
                                   None \<Rightarrow> []
                                 | Some d \<Rightarrow>
                                     [Model_saved (checkpoint_name e (- 1) (example_clock e))]))
                        [ck_epoch ?ck..epochs example_trainer - 1])
        \<and> (model st2, optimizer st2)
            = params_after ?c (model_state_dict ?ck, optimizer_state_dict ?ck)
                (concat (map (loader ?c) [ck_epoch ?ck..epochs example_trainer - 1]))"
    and first: "\<forall>st2 w2. run ?c example_clock (st1, w1) = Inr (st2, w2)
        \<and> ck_epoch ?ck < epochs example_trainer \<longrightarrow>
        calls w2 ! length (calls w1) = Train_call (ck_epoch ?ck)
        \<and> epoch_events (console w2) ! length (epoch_events (console w1))
            = Begin_epoch (ck_epoch ?ck)"
    by (elim exE conjE)
  have st1: "st1 = example_trainer\<lparr>current_epoch := 1, model := 8, optimizer := 16\<rparr>"
    using l by (simp add: load_checkpoint_def)
  obtain st2 w2 where r2: "run ?c example_clock (st1, w1) = Inr (st2, w2)"
    unfolding st1 using example_resume by blast
  have "ck_epoch ?ck < epochs example_trainer" by (simp add: example_trainer_def)
  with first r2 have "calls w2 ! length (calls w1) = Train_call (ck_epoch ?ck)" by blast
  then have B1: "calls w2 ! length (calls w1) = Train_call 1" by simp
  from ce have B2: "current_epoch st1 = 1" by simp
  from eff r2 have e2: "epoch_events (console w2)
          = epoch_events (console ?w)
            @ concat (map (\<lambda>e. Begin_epoch e
                              # (case checkpoint_dir example_trainer of
                                   None \<Rightarrow> []
                                 | Some d \<Rightarrow>
                                     [Model_saved (checkpoint_name e (- 1) (example_clock e))]))
                        [ck_epoch ?ck..epochs example_trainer - 1])"
    and p2: "(model st2, optimizer st2)
            = params_after ?c (model_state_dict ?ck, optimizer_state_dict ?ck)
                (concat (map (loader ?c) [ck_epoch ?ck..epochs example_trainer - 1]))"
    by blast+
  have B3: "epoch_events (console w2) = [Begin_epoch 1, Model_saved ''bert_epoch1_step-1_71.pt'']"
    using e2
    by (simp add: example_trainer_def example_world_def up checkpoint_name_def show_int_def
        show_nat.simps example_clock_def)
  have "(model st2, optimizer st2) = (12, 24)"
    using p2 by (simp add: example_trainer_def up params_after_def example_collaborators_def)
  then have B4: "model st2 = 12" "optimizer st2 = 24" by simp_all
  from l B2 r2 B1 B3 B4 have P2: "\<exists>st1 w1 st2 w2.
        load_checkpoint ?p (example_trainer, ?w) = Inr (st1, w1)
      \<and> current_epoch st1 = 1
      \<and> run ?c example_clock (st1, w1) = Inr (st2, w2)
      \<and> calls w2 ! length (calls w1) = Train_call 1
      \<and> epoch_events (console w2) = [Begin_epoch 1, Model_saved ''bert_epoch1_step-1_71.pt'']
      \<and> model st2 = 12 \<and> optimizer st2 = 24"
    by (intro exI conjI)
  from P1 P2 show ?thesis by (rule conjI)
qed

section \<open>Properties of an epoch\<close>

text \<open>
  C9.  With a loader that yields no batch, \<open>train\<close> raises \<open>UnboundLocalError\<close> at its
  \<open>return loss\<close>.  With a loader that yields at least one batch it never raises that
  error, and what it returns is the total loss of the last batch: the token loss plus the
  pair loss of that batch, computed by the model as the gradient steps of the earlier
  batches of the epoch left it.  It does return when the cadences are not zero, the
  dataset holds at least one full batch, and the outputs of the model are well formed
  for every batch.
\<close>

theorem train_returns_last_loss:
  "(loader c epoch = [] \<longrightarrow> train c epoch (st, w) = Inl UnboundLocalError)
   \<and> (loader c epoch \<noteq> [] \<longrightarrow>
        train c epoch (st, w) \<noteq> Inl UnboundLocalError
        \<and> (\<forall>l st' w'. train c epoch (st, w) = Inr (l, st', w') \<longrightarrow>
              l = loss_add c
                    (loss_token_of c
                       (fst (params_after c (model st, optimizer st) (butlast (loader c epoch))))
                       (last (loader c epoch)))
                    (loss_nsp_of c
                       (fst (params_after c (model st, optimizer st) (butlast (loader c epoch))))
                       (last (loader c epoch))))
        \<and> (print_every st \<noteq> 0 \<and> accuracy_every st \<noteq> 0 \<and> 1 \<le> ds_len st div batch_size st
            \<and> length (loader c epoch) \<le> 2 ^ 1000
            \<and> (\<forall>v \<in> set (loader c epoch).
                  \<forall>m. well_shaped (model_forward c m (inp v) (attention_mask v)) v) \<longrightarrow>
            (\<exists>l st' w'. train c epoch (st, w) = Inr (l, st', w'))))"
proof (intro conjI impI allI)
  assume "loader c epoch = []"
  then show "train c epoch (st, w) = Inl UnboundLocalError" by (rule train_empty)
next
  assume "loader c epoch \<noteq> []"
  then show "train c epoch (st, w) \<noteq> Inl UnboundLocalError" by (rule train_bound)
next
  fix l st' w'
  assume "train c epoch (st, w) = Inr (l, st', w')"
  then show "l = loss_add c
                    (loss_token_of c
                       (fst (params_after c (model st, optimizer st) (butlast (loader c epoch))))
                       (last (loader c epoch)))
                    (loss_nsp_of c
                       (fst (params_after c (model st, optimizer st) (butlast (loader c epoch))))
                       (last (loader c epoch)))"
    by (rule train_last_loss(2))
next
  assume ne: "loader c epoch \<noteq> []"
  assume h: "print_every st \<noteq> 0 \<and> accuracy_every st \<noteq> 0 \<and> 1 \<le> ds_len st div batch_size st
            \<and> length (loader c epoch) \<le> 2 ^ 1000
            \<and> (\<forall>v \<in> set (loader c epoch).
                  \<forall>m. well_shaped (model_forward c m (inp v) (attention_mask v)) v)"
  then have h1: "print_every st \<noteq> 0" and h2: "accuracy_every st \<noteq> 0"
    and h3: "1 \<le> ds_len st div batch_size st" and h4: "length (loader c epoch) \<le> 2 ^ 1000"
    and h5: "\<forall>v \<in> set (loader c epoch).
                  \<forall>m. well_shaped (model_forward c m (inp v) (attention_mask v)) v"
    by blast+
  show "\<exists>l st' w'. train c epoch (st, w) = Inr (l, st', w')"
    using ne h1 h2 h3 h4 h5 by (rule train_returns)
qed

theorem train_returns_last_loss_witness:
  "train (example_collaborators\<lparr>loader := (\<lambda>e. [])\<rparr>) 0 (example_trainer, example_world)
     = Inl UnboundLocalError
   \<and> (\<exists>st' w'. train example_collaborators 0 (example_trainer, example_world) = Inr (4, st', w'))"
proof -
  let ?c = example_collaborators
  have A: "train (?c\<lparr>loader := (\<lambda>e. [])\<rparr>) 0 (example_trainer, example_world)
      = Inl UnboundLocalError"
    using train_returns_last_loss[where c = "?c\<lparr>loader := (\<lambda>e. [])\<rparr>" and epoch = 0
        and st = example_trainer and w = example_world]
    by simp
  have ne: "loader ?c 0 \<noteq> []" by (simp add: example_collaborators_def)
  note t = train_returns_last_loss[where c = ?c and epoch = 0 and st = example_trainer
      and w = example_world, THEN conjunct2, THEN mp, OF ne]
  have cfg: "print_every example_trainer \<noteq> 0 \<and> accuracy_every example_trainer \<noteq> 0
      \<and> 1 \<le> ds_len example_trainer div batch_size example_trainer
      \<and> length (loader ?c 0) \<le> 2 ^ 1000
      \<and> (\<forall>v \<in> set (loader ?c 0).
            \<forall>m. well_shaped (model_forward ?c m (inp v) (attention_mask v)) v)"
    using example_well_shaped[of 0]
    by (simp add: example_trainer_def) (simp add: example_collaborators_def)
  from t[THEN conjunct2, THEN conjunct2, THEN mp, OF cfg]
  obtain l st' w' where r: "train ?c 0 (example_trainer, example_world) = Inr (l, st', w')"
    by (elim exE)
  from t[THEN conjunct2, THEN conjunct1, rule_format, OF r]
  have "l = 4"
    by (simp add: example_collaborators_def example_trainer_def example_batch_def
        params_after_def loss_token_of_def loss_nsp_of_def forward_def)
  with r A show ?thesis by blast
qed

text \<open>
  C3.  In an epoch that \<open>train\<close> completes, the progress lines and the loss scalars that
  it adds to the output are those of the batches whose 1-based index is a multiple of
  \<open>print_every\<close>, one line and one pair of scalars for each in order; the losses logged
  at such a batch are the sums of the pair losses and of the token losses of the batches
  since the previous tick, each divided by \<open>print_every\<close>, and the global step of the
  scalars is \<open>epoch * len(loader) + index\<close>.  With four batches and \<open>print_every = 2\<close>
  these are two lines, at the indices 2 and 4, with the global steps \<open>epoch * 4 + 2\<close> and
  \<open>epoch * 4 + 4\<close>.  In the loop body, a batch at such an index logs the running sums
  with its own losses added, divided by \<open>print_every\<close>, and leaves both running sums at
  zero; a batch at any other index logs nothing and adds its losses to the running sums.
  The epoch does complete when there is a batch, the cadences are not zero, the dataset
  holds at least one full batch and the outputs of the model are well formed.
\<close>

theorem train_progress_ticks:
  "(train c epoch (st, w) = Inr (l, st', w') \<longrightarrow>
      progress_lines (console w')
        = progress_lines (console w)
          @ map (\<lambda>j. (epoch + 1, int j, batched_len st,
                   loss_div c (window_sum c (nat \<bar>print_every st\<bar>)
                                 (nsp_losses c (model st, optimizer st) (loader c epoch)) j)
                     (print_every st),
                   loss_div c (window_sum c (nat \<bar>print_every st\<bar>)
                                 (mlm_losses c (model st, optimizer st) (loader c epoch)) j)
                     (print_every st)))
              (ticks (nat \<bar>print_every st\<bar>) (length (loader c epoch)))
      \<and> loss_scalars (console w')
        = loss_scalars (console w)
          @ concat (map (\<lambda>j.
                  [(''NSP loss'',
                    loss_div c (window_sum c (nat \<bar>print_every st\<bar>)
                                  (nsp_losses c (model st, optimizer st) (loader c epoch)) j)
                      (print_every st),
                    epoch * int (length (loader c epoch)) + int j),
                   (''MLM loss'',
                    loss_div c (window_sum c (nat \<bar>print_every st\<bar>)
                                  (mlm_losses c (model st, optimizer st) (loader c epoch)) j)
                      (print_every st),
                    epoch * int (length (loader c epoch)) + int j)])
              (ticks (nat \<bar>print_every st\<bar>) (length (loader c epoch))))
      \<and> (length (loader c epoch) = 4 \<and> print_every st = 2 \<longrightarrow>
            map (\<lambda>(e, i, n, x, y). (e, i)) (progress_lines (console w'))
              = map (\<lambda>(e, i, n, x, y). (e, i)) (progress_lines (console w))
                @ [(epoch + 1, 2), (epoch + 1, 4)]
            \<and> map (\<lambda>(tag, x, g). (tag, g)) (loss_scalars (console w'))
              = map (\<lambda>(tag, x, g). (tag, g)) (loss_scalars (console w))
                @ [(''NSP loss'', epoch * 4 + 2), (''MLM loss'', epoch * 4 + 2),
                   (''NSP loss'', epoch * 4 + 4), (''MLM loss'', epoch * 4 + 4)]))
   \<and> (train_step c epoch nb index v (st, w, loc) = Inr (st1, w1, loc1) \<longrightarrow>
        (index mod print_every st = 0 \<longrightarrow>
           average_nsp_loss loc1 = loss_zero c \<and> average_mlm_loss loc1 = loss_zero c
           \<and> progress_lines (console w1) = progress_lines (console w) @
                [(epoch + 1, index, batched_len st,
                  loss_div c (loss_add c (average_nsp_loss loc) (loss_nsp_of c (model st) v))
                    (print_every st),
                  loss_div c (loss_add c (average_mlm_loss loc) (loss_token_of c (model st) v))
                    (print_every st))]
           \<and> loss_scalars (console w1) = loss_scalars (console w) @
                [(''NSP loss'',
                  loss_div c (loss_add c (average_nsp_loss loc) (loss_nsp_of c (model st) v))
                    (print_every st), epoch * nb + index),
                 (''MLM loss'',
                  loss_div c (loss_add c (average_mlm_loss loc) (loss_token_of c (model st) v))
                    (print_every st), epoch * nb + index)])
        \<and> (index mod print_every st \<noteq> 0 \<longrightarrow>
             console w1 = console w
             \<and> average_nsp_loss loc1
                 = loss_add c (average_nsp_loss loc) (loss_nsp_of c (model st) v)
             \<and> average_mlm_loss loc1
                 = loss_add c (average_mlm_loss loc) (loss_token_of c (model st) v)))
   \<and> (loader c epoch \<noteq> [] \<and> print_every st \<noteq> 0 \<and> accuracy_every st \<noteq> 0
       \<and> 1 \<le> ds_len st div batch_size st \<and> length (loader c epoch) \<le> 2 ^ 1000
       \<and> (\<forall>v \<in> set (loader c epoch).
             \<forall>m. well_shaped (model_forward c m (inp v) (attention_mask v)) v) \<longrightarrow>
       (\<exists>l st' w'. train c epoch (st, w) = Inr (l, st', w')))"
proof (intro conjI impI)
  assume r: "train c epoch (st, w) = Inr (l, st', w')"
  show "progress_lines (console w')
        = progress_lines (console w)
          @ map (\<lambda>j. (epoch + 1, int j, batched_len st,
                   loss_div c (window_sum c (nat \<bar>print_every st\<bar>)
                                 (nsp_losses c (model st, optimizer st) (loader c epoch)) j)
                     (print_every st),
                   loss_div c (window_sum c (nat \<bar>print_every st\<bar>)
                                 (mlm_losses c (model st, optimizer st) (loader c epoch)) j)
                     (print_every st)))
              (ticks (nat \<bar>print_every st\<bar>) (length (loader c epoch)))"
    using r by (rule train_progress(1))
next
  assume r: "train c epoch (st, w) = Inr (l, st', w')"
  show "loss_scalars (console w')
        = loss_scalars (console w)
          @ concat (map (\<lambda>j.
                  [(''NSP loss'',
                    loss_div c (window_sum c (nat \<bar>print_every st\<bar>)
                                  (nsp_losses c (model st, optimizer st) (loader c epoch)) j)
                      (print_every st),
                    epoch * int (length (loader c epoch)) + int j),
                   (''MLM loss'',
                    loss_div c (window_sum c (nat \<bar>print_every st\<bar>)
                                  (mlm_losses c (model st, optimizer st) (loader c epoch)) j)
                      (print_every st),
                    epoch * int (length (loader c epoch)) + int j)])
              (ticks (nat \<bar>print_every st\<bar>) (length (loader c epoch))))"
    using r by (rule train_progress(2))
next
  assume r: "train c epoch (st, w) = Inr (l, st', w')"
  assume "length (loader c epoch) = 4 \<and> print_every st = 2"
  then have n: "length (loader c epoch) = 4" and p: "print_every st = 2" by simp_all
  have k: "nat \<bar>print_every st\<bar> = 2" using p by simp
  show "map (\<lambda>(e, i, n, x, y). (e, i)) (progress_lines (console w'))
              = map (\<lambda>(e, i, n, x, y). (e, i)) (progress_lines (console w))
                @ [(epoch + 1, 2), (epoch + 1, 4)]"
    unfolding train_progress(1)[OF r] k n ticks_2_4 by simp
next
  assume r: "train c epoch (st, w) = Inr (l, st', w')"
  assume "length (loader c epoch) = 4 \<and> print_every st = 2"
  then have n: "length (loader c epoch) = 4" and p: "print_every st = 2" by simp_all
  have k: "nat \<bar>print_every st\<bar> = 2" using p by simp
  show "map (\<lambda>(tag, x, g). (tag, g)) (loss_scalars (console w'))
              = map (\<lambda>(tag, x, g). (tag, g)) (loss_scalars (console w))
                @ [(''NSP loss'', epoch * 4 + 2), (''MLM loss'', epoch * 4 + 2),
                   (''NSP loss'', epoch * 4 + 4), (''MLM loss'', epoch * 4 + 4)]"
    unfolding train_progress(2)[OF r] k n ticks_2_4 by simp
next
  assume s: "train_step c epoch nb index v (st, w, loc) = Inr (st1, w1, loc1)"
    and t: "index mod print_every st = 0"
  from train_step_Inr(5)[OF s t]
  show "average_nsp_loss loc1 = loss_zero c" "average_mlm_loss loc1 = loss_zero c"
    "progress_lines (console w1) = progress_lines (console w) @
                [(epoch + 1, index, batched_len st,
                  loss_div c (loss_add c (average_nsp_loss loc) (loss_nsp_of c (model st) v))
                    (print_every st),
                  loss_div c (loss_add c (average_mlm_loss loc) (loss_token_of c (model st) v))
                    (print_every st))]"
    "loss_scalars (console w1) = loss_scalars (console w) @
                [(''NSP loss'',
                  loss_div c (loss_add c (average_nsp_loss loc) (loss_nsp_of c (model st) v))
                    (print_every st), epoch * nb + index),
                 (''MLM loss'',
                  loss_div c (loss_add c (average_mlm_loss loc) (loss_token_of c (model st) v))
                    (print_every st), epoch * nb + index)]"
    by blast+
next
  assume s: "train_step c epoch nb index v (st, w, loc) = Inr (st1, w1, loc1)"
    and t: "index mod print_every st \<noteq> 0"
  from train_step_Inr(4)[OF s t]
  show "console w1 = console w"
    "average_nsp_loss loc1 = loss_add c (average_nsp_loss loc) (loss_nsp_of c (model st) v)"
    "average_mlm_loss loc1 = loss_add c (average_mlm_loss loc) (loss_token_of c (model st) v)"
    by blast+
next
  assume h: "loader c epoch \<noteq> [] \<and> print_every st \<noteq> 0 \<and> accuracy_every st \<noteq> 0
       \<and> 1 \<le> ds_len st div batch_size st \<and> length (loader c epoch) \<le> 2 ^ 1000
       \<and> (\<forall>v \<in> set (loader c epoch).
             \<forall>m. well_shaped (model_forward c m (inp v) (attention_mask v)) v)"
  then have h0: "loader c epoch \<noteq> []" and h1: "print_every st \<noteq> 0"
    and h2: "accuracy_every st \<noteq> 0"
    and h3: "1 \<le> ds_len st div batch_size st" and h4: "length (loader c epoch) \<le> 2 ^ 1000"
    and h5: "\<forall>v \<in> set (loader c epoch).
                  \<forall>m. well_shaped (model_forward c m (inp v) (attention_mask v)) v"
    by blast+
  show "\<exists>l st' w'. train c epoch (st, w) = Inr (l, st', w')"
    using h0 h1 h2 h3 h4 h5 by (rule train_returns)
qed

theorem train_progress_ticks_witness:
  "(\<exists>l st' w'. train example_collaborators 1 (example_trainer, example_world) = Inr (l, st', w')
      \<and> progress_lines (console w') = [(2, 2, 4, 1 / 2, 1), (2, 4, 4, 5 / 2, 1)]
      \<and> loss_scalars (console w')
          = [(''NSP loss'', 1 / 2, 6), (''MLM loss'', 1, 6),
             (''NSP loss'', 5 / 2, 8), (''MLM loss'', 1, 8)]
      \<and> map (\<lambda>(tag, x, g). (tag, g)) (loss_scalars (console w'))
          = [(''NSP loss'', 6), (''MLM loss'', 6), (''NSP loss'', 8), (''MLM loss'', 8)])
   \<and> (\<exists>st1 w1 loc1.
        train_step example_collaborators 1 4 2 example_batch
          (example_trainer, example_world,
           \<lparr>average_nsp_loss = 5, average_mlm_loss = 7, loss_var = None\<rparr>) = Inr (st1, w1, loc1)
        \<and> average_nsp_loss loc1 = 0 \<and> average_mlm_loss loc1 = 0
        \<and> loss_scalars (console w1) = [(''NSP loss'', 5 / 2, 6), (''MLM loss'', 4, 6)])
   \<and> (\<exists>st1 w1 loc1.
        train_step example_collaborators 1 4 1 example_batch
          (example_trainer, example_world,
           \<lparr>average_nsp_loss = 5, average_mlm_loss = 7, loss_var = None\<rparr>) = Inr (st1, w1, loc1)
        \<and> console w1 = [] \<and> average_nsp_loss loc1 = 5 \<and> average_mlm_loss loc1 = 8)"
proof -
  let ?c = example_collaborators
  let ?loc = "\<lparr>average_nsp_loss = 5::rat, average_mlm_loss = 7::rat, loss_var = None\<rparr>"
  have len: "length (loader ?c 1) = 4" by (simp add: example_collaborators_def)
  have pe: "print_every example_trainer = 2" by (simp add: example_trainer_def)
  have cfg: "loader ?c 1 \<noteq> [] \<and> print_every example_trainer \<noteq> 0
      \<and> accuracy_every example_trainer \<noteq> 0
      \<and> 1 \<le> ds_len example_trainer div batch_size example_trainer
      \<and> length (loader ?c 1) \<le> 2 ^ 1000
      \<and> (\<forall>v \<in> set (loader ?c 1).
            \<forall>m. well_shaped (model_forward ?c m (inp v) (attention_mask v)) v)"
    using example_well_shaped[of 1]
    by (simp add: example_trainer_def) (simp add: example_collaborators_def)
  from train_progress_ticks[where c = ?c and epoch = 1 and st = example_trainer
      and w = example_world, THEN conjunct2, THEN conjunct2, THEN mp, OF cfg]
  obtain l st' w' where r: "train ?c 1 (example_trainer, example_world) = Inr (l, st', w')"
    by (elim exE)
  note t = train_progress_ticks[where c = ?c and epoch = 1 and st = example_trainer
      and w = example_world and l = l and st' = st' and w' = w', THEN conjunct1, THEN mp, OF r]
  have k: "nat \<bar>print_every example_trainer\<bar> = 2" by (simp add: pe)
  have A1: "progress_lines (console w') = [(2, 2, 4, 1 / 2, 1), (2, 4, 4, 5 / 2, 1)]"
    unfolding t[THEN conjunct1] k len ticks_2_4
    by (simp add: example_collaborators_def example_trainer_def example_world_def
        example_batch_def window_sum_def nsp_losses_def mlm_losses_def params_after_def
        loss_nsp_of_def loss_token_of_def forward_def)
  have A2: "loss_scalars (console w')
          = [(''NSP loss'', 1 / 2, 6), (''MLM loss'', 1, 6),
             (''NSP loss'', 5 / 2, 8), (''MLM loss'', 1, 8)]"
    unfolding t[THEN conjunct2, THEN conjunct1] k len ticks_2_4
    by (simp add: example_collaborators_def example_trainer_def example_world_def
        example_batch_def window_sum_def nsp_losses_def mlm_losses_def params_after_def
        loss_nsp_of_def loss_token_of_def forward_def)
  have "length (loader ?c 1) = 4 \<and> print_every example_trainer = 2"
    using len pe by simp
  from t[THEN conjunct2, THEN conjunct2, THEN mp, OF this, THEN conjunct2]
  have A3: "map (\<lambda>(tag, x, g). (tag, g)) (loss_scalars (console w'))
          = [(''NSP loss'', 6), (''MLM loss'', 6), (''NSP loss'', 8), (''MLM loss'', 8)]"
    by (simp add: example_world_def)
  have ws: "well_shaped (model_forward ?c (model example_trainer) (inp example_batch)
      (attention_mask example_batch)) example_batch"
    using example_well_shaped[of 1] by (simp add: example_collaborators_def)
  have c1: "print_every example_trainer \<noteq> 0" "accuracy_every example_trainer \<noteq> 0"
    "1 \<le> ds_len example_trainer div batch_size example_trainer"
    by (simp_all add: example_trainer_def)
  obtain st1 w1 loc1 where
    s2: "train_step ?c 1 4 2 example_batch (example_trainer, example_world, ?loc)
           = Inr (st1, w1, loc1)"
    using train_step_returns[OF c1 _ ws, where idx = 2 and e = 1 and nb = 4
        and w = example_world and loc = ?loc]
    by auto
  have m2: "2 mod print_every example_trainer = 0" by (simp add: pe)
  note u = train_progress_ticks[where c = ?c and epoch = 1 and st = example_trainer
      and w = example_world and nb = 4 and index = 2 and v = example_batch and loc = ?loc
      and ?st1.0 = st1 and ?w1.0 = w1 and ?loc1.0 = loc1,
      THEN conjunct2, THEN conjunct1, THEN mp, OF s2, THEN conjunct1, THEN mp, OF m2]
  have B1: "average_nsp_loss loc1 = 0" "average_mlm_loss loc1 = 0"
    using u by (simp_all add: example_collaborators_def)
  have B2: "loss_scalars (console w1) = [(''NSP loss'', 5 / 2, 6), (''MLM loss'', 4, 6)]"
    using u
    by (simp add: example_collaborators_def example_trainer_def example_world_def
        example_batch_def loss_nsp_of_def loss_token_of_def forward_def)
  obtain st3 w3 loc3 where
    s3: "train_step ?c 1 4 1 example_batch (example_trainer, example_world, ?loc)
           = Inr (st3, w3, loc3)"
    using train_step_returns[OF c1 _ ws, where idx = 1 and e = 1 and nb = 4
        and w = example_world and loc = ?loc]
    by auto
  have m3: "1 mod print_every example_trainer \<noteq> 0" by (simp add: pe)
  note u3 = train_progress_ticks[where c = ?c and epoch = 1 and st = example_trainer
      and w = example_world and nb = 4 and index = 1 and v = example_batch and loc = ?loc
      and ?st1.0 = st3 and ?w1.0 = w3 and ?loc1.0 = loc3,
      THEN conjunct2, THEN conjunct1, THEN mp, OF s3, THEN conjunct2, THEN mp, OF m3]
  have C1: "console w3 = []" "average_nsp_loss loc3 = 5" "average_mlm_loss loc3 = 8"
    using u3
    by (simp_all add: example_collaborators_def example_trainer_def example_world_def
        example_batch_def loss_nsp_of_def loss_token_of_def forward_def)
  from r A1 A2 A3 have P1: "\<exists>l st' w'. train ?c 1 (example_trainer, example_world) = Inr (l, st', w')
      \<and> progress_lines (console w') = [(2, 2, 4, 1 / 2, 1), (2, 4, 4, 5 / 2, 1)]
      \<and> loss_scalars (console w')
          = [(''NSP loss'', 1 / 2, 6), (''MLM loss'', 1, 6),
             (''NSP loss'', 5 / 2, 8), (''MLM loss'', 1, 8)]
      \<and> map (\<lambda>(tag, x, g). (tag, g)) (loss_scalars (console w'))
          = [(''NSP loss'', 6), (''MLM loss'', 6), (''NSP loss'', 8), (''MLM loss'', 8)]"
    by (intro exI conjI)
  from s2 B1 B2 have P2: "\<exists>st1 w1 loc1.
        train_step ?c 1 4 2 example_batch (example_trainer, example_world, ?loc) = Inr (st1, w1, loc1)
        \<and> average_nsp_loss loc1 = 0 \<and> average_mlm_loss loc1 = 0
        \<and> loss_scalars (console w1) = [(''NSP loss'', 5 / 2, 6), (''MLM loss'', 4, 6)]"
    by (intro exI conjI)
  from s3 C1 have P3: "\<exists>st1 w1 loc1.
        train_step ?c 1 4 1 example_batch (example_trainer, example_world, ?loc) = Inr (st1, w1, loc1)
        \<and> console w1 = [] \<and> average_nsp_loss loc1 = 5 \<and> average_mlm_loss loc1 = 8"
    by (intro exI conjI)
  from P1 P2 P3 show ?thesis by (intro conjI)
qed

end
